(* ===== verification/Leyla_Prelude.thy ===== *)
theory Leyla_Prelude
  imports Main "HOL-Library.Word" "HOL-Library.AList" "HOL-Library.Char_ord"
    "HOL-Library.List_Lexorder" "HOL-Library.Multiset" "HOL-Library.Sublist"
begin

section \<open>Shared vocabulary of the development\<close>

text \<open>
  What every component theory uses:
  \<^item> the names of the machine types (\<open>u32\<close>, \<open>u64\<close>) and of timestamps;
  \<^item> the outcome of a Rust call (a value, an error, a panic), programs over an explicit
    state, their sequencing (the \<open>?\<close> operator) and \<open>for\<close> loops, with one small set of
    preservation rules;
  \<^item> \<open>std::sync::Mutex\<close> with poisoning;
  \<^item> \<open>std::collections::HashMap\<close> as an association list with distinct keys, whose order is
    the order the map is iterated in.
\<close>

named_theorems outcome_simps \<open>evaluation of programs on a known outcome\<close>
named_theorems triple_intros \<open>what a program establishes\<close>
named_theorems preserve_intros \<open>a program keeps a state predicate\<close>

type_synonym u32 = "32 word"
type_synonym u64 = "64 word"

text \<open>
  A \<open>DateTime<Utc>\<close> is identified with the number of nanoseconds since the Unix epoch, a
  \<open>TimeDelta\<close> with its number of nanoseconds.
\<close>

type_synonym time = int
type_synonym uuid = "128 word"

abbreviation nanos_per_sec :: int where "nanos_per_sec \<equiv> 1000000000"
abbreviation nanos_per_milli :: int where "nanos_per_milli \<equiv> 1000000"

subsection \<open>Outcomes and programs\<close>

text \<open>\<open>Result<T, E>\<close>, and the third way a Rust call can end: a panic.\<close>

datatype ('e, 'a) outcome = is_Ok: Ok (ok_val: 'a) | is_Err: Err 'e | is_Panic: Panic

type_synonym ('w, 'e, 'a) prog = "'w \<Rightarrow> ('e, 'a) outcome \<times> 'w"

definition ret :: "'a \<Rightarrow> ('w, 'e, 'a) prog" where
  "ret x w = (Ok x, w)"

definition fail :: "'e \<Rightarrow> ('w, 'e, 'a) prog" where
  "fail e w = (Err e, w)"

definition panic :: "('w, 'e, 'a) prog" where
  "panic w = (Panic, w)"

text \<open>
  \<open>m?\<close> followed by the rest: an error or a panic of \<open>m\<close> ends the whole, the effects
  \<open>m\<close> had before it stay.
\<close>

definition andthen :: "('w, 'e, 'a) prog \<Rightarrow> ('a \<Rightarrow> ('w, 'e, 'b) prog) \<Rightarrow> ('w, 'e, 'b) prog" where
  "andthen m f w = (case m w of
      (Ok x, w') \<Rightarrow> f x w'
    | (Err e, w') \<Rightarrow> (Err e, w')
    | (Panic, w') \<Rightarrow> (Panic, w'))"

text \<open>An outcome computed without touching the state.\<close>

definition lift_outcome :: "('e, 'a) outcome \<Rightarrow> ('w, 'e, 'a) prog" where
  "lift_outcome r w = (r, w)"

text \<open>An \<open>Option\<close> that the source unwraps: \<open>None\<close> is the panic.\<close>

definition unwrap :: "'a option \<Rightarrow> ('e, 'a) outcome" where
  "unwrap x = (case x of Some v \<Rightarrow> Ok v | None \<Rightarrow> Panic)"

text \<open>\<open>for x in xs { .. }\<close> with an accumulator; the body may fail.\<close>

fun for_each :: "('x \<Rightarrow> 'a \<Rightarrow> ('w, 'e, 'a) prog) \<Rightarrow> 'x list \<Rightarrow> 'a \<Rightarrow> ('w, 'e, 'a) prog" where
  "for_each f [] a = ret a"
| "for_each f (x # xs) a = andthen (f x a) (for_each f xs)"

text \<open>\<open>m.map_err(f)\<close>\<close>

definition map_err :: "('e \<Rightarrow> 'f) \<Rightarrow> ('w, 'e, 'a) prog \<Rightarrow> ('w, 'f, 'a) prog" where
  "map_err f m w = (case m w of
      (Ok x, w') \<Rightarrow> (Ok x, w') | (Err e, w') \<Rightarrow> (Err (f e), w') | (Panic, w') \<Rightarrow> (Panic, w'))"

lemma ret_simp [simp, outcome_simps]: "ret x w = (Ok x, w)"
  by (simp add: ret_def)

lemma fail_simp [simp, outcome_simps]: "fail e w = (Err e, w)"
  by (simp add: fail_def)

lemma panic_simp [simp, outcome_simps]: "panic w = (Panic, w)"
  by (simp add: panic_def)

lemma lift_outcome_simp [simp, outcome_simps]: "lift_outcome r w = (r, w)"
  by (simp add: lift_outcome_def)

lemma unwrap_simps [simp, outcome_simps]: "unwrap (Some v) = Ok v" "unwrap None = Panic"
  by (simp_all add: unwrap_def)

lemma andthen_Ok [outcome_simps]: "m w = (Ok x, w') \<Longrightarrow> andthen m f w = f x w'"
  by (simp add: andthen_def)

lemma andthen_Err [outcome_simps]: "m w = (Err e, w') \<Longrightarrow> andthen m f w = (Err e, w')"
  by (simp add: andthen_def)

lemma andthen_Panic [outcome_simps]: "m w = (Panic, w') \<Longrightarrow> andthen m f w = (Panic, w')"
  by (simp add: andthen_def)

lemma andthen_ret [simp]: "andthen (Pair (Ok x)) f = f x"
  by (simp add: andthen_def fun_eq_iff)

lemma andthen_fail [simp]: "andthen (Pair (Err e)) f = Pair (Err e)"
  by (simp add: andthen_def fun_eq_iff)

lemma andthen_panic [simp]: "andthen (Pair Panic) f = Pair Panic"
  by (simp add: andthen_def fun_eq_iff)

lemma andthen_lift [simp]:
  "andthen (lift_outcome r) f w =
    (case r of Ok x \<Rightarrow> f x w | Err e \<Rightarrow> (Err e, w) | Panic \<Rightarrow> (Panic, w))"
  by (simp add: andthen_def split: outcome.splits)

lemma map_err_eq: "m w = (r, w') \<Longrightarrow> map_err f m w =
    (case r of Ok x \<Rightarrow> Ok x | Err e \<Rightarrow> Err (f e) | Panic \<Rightarrow> Panic, w')"
  by (simp add: map_err_def split: outcome.split)

lemma andthen_OkE:
  assumes "andthen m f w = (Ok y, w'')"
  obtains x w' where "m w = (Ok x, w')" and "f x w' = (Ok y, w'')"
  using assms by (auto simp: andthen_def split: prod.splits outcome.splits)

lemma andthen_assoc: "andthen (andthen m f) g = andthen m (\<lambda>x. andthen (f x) g)"
  by (auto simp: andthen_def fun_eq_iff split: prod.splits outcome.splits)

subsection \<open>Preservation: a program keeps a predicate of the state\<close>

text \<open>Whatever way the program ends, the state it leaves satisfies \<open>I\<close> again.\<close>

definition preserves :: "('w \<Rightarrow> bool) \<Rightarrow> ('w, 'e, 'a) prog \<Rightarrow> bool" where
  "preserves I m \<longleftrightarrow> (\<forall>w. I w \<longrightarrow> I (snd (m w)))"

lemma preservesI [intro?]: "(\<And>w. I w \<Longrightarrow> I (snd (m w))) \<Longrightarrow> preserves I m"
  by (simp add: preserves_def)

lemma preservesD: "preserves I m \<Longrightarrow> I w \<Longrightarrow> I (snd (m w))"
  by (simp add: preserves_def)

lemma preserves_Pair [preserve_intros]: "preserves I (Pair r)"
  by (simp add: preserves_def)

lemma preserves_ret [preserve_intros]: "preserves I (ret x)"
  by (simp add: preserves_def)

lemma preserves_fail [preserve_intros]: "preserves I (fail e)"
  by (simp add: preserves_def)

lemma preserves_panic [preserve_intros]: "preserves I panic"
  by (simp add: preserves_def)

lemma preserves_lift [preserve_intros]: "preserves I (lift_outcome r)"
  by (simp add: preserves_def)

lemma preserves_andthen [preserve_intros]:
  assumes "preserves I m" and "\<And>x. preserves I (f x)"
  shows "preserves I (andthen m f)"
proof
  fix w assume "I w"
  with assms(1) have "I (snd (m w))" by (rule preservesD)
  then show "I (snd (andthen m f w))"
    by (auto simp: andthen_def intro!: preservesD [OF assms(2)] split: prod.splits outcome.splits)
qed

lemma preserves_if [preserve_intros]:
  "(b \<Longrightarrow> preserves I m) \<Longrightarrow> (\<not> b \<Longrightarrow> preserves I n) \<Longrightarrow> preserves I (if b then m else n)"
  by simp

lemma preserves_case_option [preserve_intros]:
  "(x = None \<Longrightarrow> preserves I m) \<Longrightarrow> (\<And>y. x = Some y \<Longrightarrow> preserves I (f y)) \<Longrightarrow>
    preserves I (case x of None \<Rightarrow> m | Some y \<Rightarrow> f y)"
  by (cases x) auto

lemma preserves_map_err [preserve_intros]: "preserves I m \<Longrightarrow> preserves I (map_err f m)"
  by (force simp: preserves_def map_err_def split: prod.splits outcome.splits)

lemma preserves_case_sum [preserve_intros]:
  "(\<And>e. x = Inl e \<Longrightarrow> preserves I (g e)) \<Longrightarrow> (\<And>y. x = Inr y \<Longrightarrow> preserves I (f y)) \<Longrightarrow>
    preserves I (case x of Inl e \<Rightarrow> g e | Inr y \<Rightarrow> f y)"
  by (cases x) auto

lemma preserves_case_prod [preserve_intros]:
  "(\<And>a b. x = (a, b) \<Longrightarrow> preserves I (f a b)) \<Longrightarrow> preserves I (case x of (a, b) \<Rightarrow> f a b)"
  by (cases x) auto

lemma preserves_for_each [preserve_intros]:
  assumes "\<And>x a. x \<in> set xs \<Longrightarrow> preserves I (f x a)"
  shows "preserves I (for_each f xs a)"
  using assms
proof (induction xs arbitrary: a)
  case Nil
  show ?case by (simp add: preserves_Pair)
next
  case (Cons x xs)
  then show ?case by (simp add: preserves_andthen)
qed

subsection \<open>Triples: what a program establishes\<close>

text \<open>
  From a state in \<open>P\<close>, a program that returns leaves its value and state in \<open>Q\<close>, a program that
  fails or panics its state in \<open>R\<close>.
\<close>

definition triple :: "('w \<Rightarrow> bool) \<Rightarrow> ('w, 'e, 'a) prog \<Rightarrow> ('a \<Rightarrow> 'w \<Rightarrow> bool) \<Rightarrow> ('w \<Rightarrow> bool) \<Rightarrow> bool" where
  "triple P m Q R \<longleftrightarrow> (\<forall>w. P w \<longrightarrow> (case m w of (Ok x, w') \<Rightarrow> Q x w' | (_, w') \<Rightarrow> R w'))"

lemma tripleI:
  "(\<And>w. P w \<Longrightarrow> case m w of (Ok x, w') \<Rightarrow> Q x w' | (_, w') \<Rightarrow> R w') \<Longrightarrow> triple P m Q R"
  by (simp add: triple_def)

lemma triple_Ok: "triple P m Q R \<Longrightarrow> P w \<Longrightarrow> m w = (Ok x, w') \<Longrightarrow> Q x w'"
  unfolding triple_def by fastforce

lemma triple_not_Ok: "triple P m Q R \<Longrightarrow> P w \<Longrightarrow> m w = (r, w') \<Longrightarrow> \<not> is_Ok r \<Longrightarrow> R w'"
  unfolding triple_def by (cases r) fastforce+

lemma triple_ret [triple_intros]: "(\<And>w. P w \<Longrightarrow> Q x w) \<Longrightarrow> triple P (ret x) Q R"
  by (simp add: triple_def)

lemma triple_fail [triple_intros]: "(\<And>w. P w \<Longrightarrow> R w) \<Longrightarrow> triple P (fail e) Q R"
  by (simp add: triple_def)

lemma triple_lift [triple_intros]:
  "(\<And>w x. P w \<Longrightarrow> r = Ok x \<Longrightarrow> Q x w) \<Longrightarrow> (\<And>w. P w \<Longrightarrow> \<not> is_Ok r \<Longrightarrow> R w) \<Longrightarrow> triple P (lift_outcome r) Q R"
  by (cases r) (simp_all add: triple_def)

lemma triple_weaken:
  "triple P m Q R \<Longrightarrow> (\<And>w. P' w \<Longrightarrow> P w) \<Longrightarrow> (\<And>x w. Q x w \<Longrightarrow> Q' x w) \<Longrightarrow> (\<And>w. R w \<Longrightarrow> R' w) \<Longrightarrow>
    triple P' m Q' R'"
  unfolding triple_def by (fastforce split: prod.splits outcome.splits)

lemma triple_andthen [triple_intros]:
  "triple P m Q R \<Longrightarrow> (\<And>x. triple (Q x) (f x) Q' R) \<Longrightarrow> triple P (andthen m f) Q' R"
  unfolding triple_def andthen_def by (fastforce split: prod.splits outcome.splits)

lemma triple_map_err [triple_intros]: "triple P m Q R \<Longrightarrow> triple P (map_err f m) Q R"
  unfolding triple_def map_err_def by (fastforce split: prod.splits outcome.splits)

lemma triple_if [triple_intros]:
  "(b \<Longrightarrow> triple P m Q R) \<Longrightarrow> (\<not> b \<Longrightarrow> triple P n Q R) \<Longrightarrow> triple P (if b then m else n) Q R"
  by simp

lemma triple_case_option [triple_intros]:
  "(x = None \<Longrightarrow> triple P m Q R) \<Longrightarrow> (\<And>y. x = Some y \<Longrightarrow> triple P (f y) Q R) \<Longrightarrow>
    triple P (case x of None \<Rightarrow> m | Some y \<Rightarrow> f y) Q R"
  by (cases x) auto

lemma triple_case_sum [triple_intros]:
  "(\<And>e. x = Inl e \<Longrightarrow> triple P (g e) Q R) \<Longrightarrow> (\<And>y. x = Inr y \<Longrightarrow> triple P (f y) Q R) \<Longrightarrow>
    triple P (case x of Inl e \<Rightarrow> g e | Inr y \<Rightarrow> f y) Q R"
  by (cases x) auto

lemma triple_case_prod [triple_intros]:
  "(\<And>a b. x = (a, b) \<Longrightarrow> triple P (f a b) Q R) \<Longrightarrow> triple P (case x of (a, b) \<Rightarrow> f a b) Q R"
  by (cases x) auto

text \<open>A loop with an invariant.\<close>

lemma triple_for_each:
  assumes "\<And>x a. x \<in> set xs \<Longrightarrow> triple I (f x a) (\<lambda>_. I) R"
  shows "triple I (for_each f xs a) (\<lambda>_. I) R"
  using assms
proof (induction xs arbitrary: a)
  case Nil
  show ?case by (simp add: triple_def)
next
  case (Cons x xs)
  show ?case
    unfolding for_each.simps by (rule triple_andthen [where Q = "\<lambda>_. I"]) (simp_all add: Cons)
qed

lemma triple_preserves: "preserves I m \<longleftrightarrow> triple I m (\<lambda>_. I) I"
  unfolding preserves_def triple_def by (fastforce split: prod.splits outcome.splits)

subsection \<open>Mutexes\<close>

text \<open>
  \<open>std::sync::Mutex\<close>: a panic while the guard is held poisons the mutex, and
  \<open>lock().unwrap()\<close> on a poisoned mutex panics.
\<close>

record 'a mutex =
  guarded :: 'a
  poisoned :: bool

definition new_mutex :: "'a \<Rightarrow> 'a mutex" where
  "new_mutex x = \<lparr>guarded = x, poisoned = False\<rparr>"

definition with_lock :: "('a, 'e, 'b) prog \<Rightarrow> ('a mutex, 'e, 'b) prog" where
  "with_lock m x =
    (if poisoned x then (Panic, x)
     else case m (guarded x) of (r, g) \<Rightarrow> (r, x\<lparr>guarded := g, poisoned := is_Panic r\<rparr>))"

lemma new_mutex_simps [simp]: "guarded (new_mutex x) = x" "\<not> poisoned (new_mutex x)"
  by (simp_all add: new_mutex_def)

lemma with_lock_free [outcome_simps]:
  "\<not> poisoned x \<Longrightarrow> m (guarded x) = (r, g) \<Longrightarrow>
    with_lock m x = (r, x\<lparr>guarded := g, poisoned := is_Panic r\<rparr>)"
  by (simp add: with_lock_def)

lemma with_lock_poisoned: "poisoned x \<Longrightarrow> with_lock m x = (Panic, x)"
  by (simp add: with_lock_def)

subsection \<open>Hash maps\<close>

text \<open>
  A \<open>HashMap<String, V>\<close> is an association list with distinct keys. The order of the list
  is the order \<open>values()\<close> yields; it is not specified by the library, so the lemmas hold
  for lists in any order.
\<close>

abbreviation hm_insert :: "'k \<Rightarrow> 'v \<Rightarrow> ('k \<times> 'v) list \<Rightarrow> ('k \<times> 'v) list" where
  "hm_insert \<equiv> AList.update"

abbreviation hm_remove :: "'k \<Rightarrow> ('k \<times> 'v) list \<Rightarrow> ('k \<times> 'v) list" where
  "hm_remove \<equiv> AList.delete"

abbreviation hm_values :: "('k \<times> 'v) list \<Rightarrow> 'v list" where
  "hm_values xs \<equiv> map snd xs"

abbreviation hm_ok :: "('k \<times> 'v) list \<Rightarrow> bool" where
  "hm_ok xs \<equiv> distinct (map fst xs)"

lemma hm_insert_lookup [simp]: "map_of (hm_insert k v xs) = (map_of xs)(k \<mapsto> v)"
  by (rule update_conv')

lemma hm_remove_lookup [simp]: "map_of (hm_remove k xs) = (map_of xs)(k := None)"
  by (simp add: delete_conv')

lemma hm_ok_insert [simp]: "hm_ok xs \<Longrightarrow> hm_ok (hm_insert k v xs)"
  by (rule distinct_update)

lemma hm_ok_remove [simp]: "hm_ok xs \<Longrightarrow> hm_ok (hm_remove k xs)"
  by (rule distinct_delete)

lemma hm_mem_lookup: "hm_ok xs \<Longrightarrow> (k, v) \<in> set xs \<longleftrightarrow> map_of xs k = Some v"
  by (metis map_of_SomeD map_of_is_SomeI)

lemma set_hm_values: "hm_ok xs \<Longrightarrow> set (hm_values xs) = ran (map_of xs)"
  by (simp add: ran_distinct)

lemma filter_hm_values_distinct:
  assumes "hm_ok xs" and "\<And>k v. (k, v) \<in> set xs \<Longrightarrow> key v = k"
  shows "distinct (map key (filter P (hm_values xs)))"
proof -
  have "map key (hm_values xs) = map fst xs"
    using assms(2) by auto
  with assms(1) have "distinct (map key (hm_values xs))"
    by (simp only:)
  then show ?thesis by (rule distinct_map_filter)
qed

lemma length_filter_hm_values:
  assumes "hm_ok xs"
  shows "length (filter P (hm_values xs)) = card {k. \<exists>v. map_of xs k = Some v \<and> P v}"
proof -
  have "length (filter P (hm_values xs)) = length (map fst (filter (P \<circ> snd) xs))"
    by (simp add: filter_map)
  also have "\<dots> = card (set (map fst (filter (P \<circ> snd) xs)))"
    by (rule distinct_card [symmetric]) (rule distinct_map_filter [OF assms])
  also have "set (map fst (filter (P \<circ> snd) xs)) = {k. \<exists>v. map_of xs k = Some v \<and> P v}"
    using assms by (force simp: hm_mem_lookup [symmetric])
  finally show ?thesis .
qed

subsection \<open>Sorting\<close>

lemma distinct_map_sort_key: "distinct (map f (sort_key g xs)) \<longleftrightarrow> distinct (map f xs)"
proof (rule mset_eq_imp_distinct_iff)
  show "mset (map f (sort_key g xs)) = mset (map f xs)" by simp
qed

end
