(* ===== verification/Leyla_Types.thy ===== *)
theory Leyla_Types
  imports Leyla_Prelude
begin

section \<open>Domain types (leyla-core/src/types.rs)\<close>

text \<open>
  The enums are datatypes with the source's constructors, the structs are records; a field's
  name carries a prefix, because one field name occurs in several structs: \<open>rp_\<close> for
  \<open>RetryPolicy\<close>, \<open>j_\<close> for \<open>LeylaJob\<close>, \<open>r_\<close> for \<open>JobRun\<close>, \<open>d_\<close> for \<open>DeadLetter\<close>.
  A \<open>serde_json::Value\<close> is a third-party type the program only moves around: it is the type
  parameter \<open>'j\<close>. A \<open>String\<close> is its UTF-8 bytes.
\<close>

datatype interval_anchor = Start | Finish | WallClock

datatype schedule =
    Cron (cron_expression: string) (cron_timezone: "string option")
  | Interval (every_ms: u64) (anchor: interval_anchor)
  | Once (once_at: time)
  | Manual

datatype run_status =
    Scheduled | Leased | Dispatched | Running | Succeeded | Failed
  | RetryWait | DeadLetter | Cancelled | TimedOut | Orphaned

datatype concurrency_policy = Allow | ForbidOverlap | QueueOne | ReplaceRunning

definition concurrency_policy_default :: concurrency_policy where
  "concurrency_policy_default = ForbidOverlap"

datatype misfire_policy = RunImmediately | Skip | Coalesce | ReplayAll (max_catchup: "u32 option")

definition misfire_policy_default :: misfire_policy where
  "misfire_policy_default = Coalesce"

datatype retry_strategy = Fixed | Linear | Exponential

record retry_policy =
  rp_max_attempts :: u32
  rp_strategy :: retry_strategy
  rp_base_delay_ms :: u64
  rp_max_delay_ms :: u64
  rp_jitter :: bool

definition retry_policy_default :: retry_policy where
  "retry_policy_default =
    \<lparr>rp_max_attempts = 5, rp_strategy = Exponential, rp_base_delay_ms = 1000,
     rp_max_delay_ms = 60000, rp_jitter = True\<rparr>"

datatype 'j executor_spec =
    Shell string "string list"
  | LocalHandler string
  | ClaudeTask string "'j option"
  | Webhook string string "(string \<times> string) list"

record 'j leyla_job =
  j_id :: string
  j_name :: string
  j_enabled :: bool
  j_schedule :: schedule
  j_executor :: "'j executor_spec"
  j_concurrency :: concurrency_policy
  j_retry :: retry_policy
  j_timeout_ms :: u64
  j_misfire :: misfire_policy
  j_tags :: "string list"
  j_metadata :: 'j
  j_next_run_at :: "time option"
  j_last_run_at :: "time option"
  j_last_success_at :: "time option"
  j_last_failure_at :: "time option"
  j_created_at :: time
  j_updated_at :: time
  j_version :: u64

text \<open>\<open>LeylaJob::new\<close>; \<open>now\<close> is its reading of \<open>Utc::now()\<close>, \<open>null\<close> is \<open>Value::Null\<close>.\<close>

definition leyla_job_new ::
  "'j \<Rightarrow> time \<Rightarrow> string \<Rightarrow> schedule \<Rightarrow> 'j executor_spec \<Rightarrow> 'j leyla_job" where
  "leyla_job_new null now jid sched ex =
    \<lparr>j_id = jid, j_name = jid, j_enabled = True, j_schedule = sched, j_executor = ex,
     j_concurrency = concurrency_policy_default, j_retry = retry_policy_default,
     j_timeout_ms = 300000, j_misfire = misfire_policy_default, j_tags = [], j_metadata = null,
     j_next_run_at = None, j_last_run_at = None, j_last_success_at = None,
     j_last_failure_at = None, j_created_at = now, j_updated_at = now, j_version = 1\<rparr>"

record 'j job_run =
  r_run_id :: uuid
  r_job_id :: string
  r_scheduled_for :: time
  r_status :: run_status
  r_attempt :: u32
  r_max_attempts :: u32
  r_lease_owner :: "string option"
  r_lease_expires_at :: "time option"
  r_dispatched_at :: "time option"
  r_started_at :: "time option"
  r_heartbeat_at :: "time option"
  r_finished_at :: "time option"
  r_input_json :: "'j option"
  r_output_json :: "'j option"
  r_error_json :: "'j option"
  r_created_at :: time
  r_updated_at :: time

text \<open>
  \<open>JobRun::new_scheduled\<close>; \<open>now\<close> is its reading of \<open>Utc::now()\<close> and \<open>u\<close> the identifier
  \<open>Uuid::new_v4()\<close> drew.
\<close>

definition job_run_new_scheduled ::
  "time \<Rightarrow> uuid \<Rightarrow> string \<Rightarrow> time \<Rightarrow> u32 \<Rightarrow> 'j job_run" where
  "job_run_new_scheduled now u job_id scheduled_for max_attempts =
    \<lparr>r_run_id = u, r_job_id = job_id, r_scheduled_for = scheduled_for, r_status = Scheduled,
     r_attempt = 1, r_max_attempts = max_attempts, r_lease_owner = None,
     r_lease_expires_at = None, r_dispatched_at = None, r_started_at = None,
     r_heartbeat_at = None, r_finished_at = None, r_input_json = None, r_output_json = None,
     r_error_json = None, r_created_at = now, r_updated_at = now\<rparr>"

record 'j dead_letter =
  d_id :: uuid
  d_run_id :: uuid
  d_job_id :: uuid
  d_input_json :: "'j option"
  d_error_json :: "'j option"
  d_attempts :: u32
  d_created_at :: time

subsection \<open>Finiteness of the status enum\<close>

text \<open>The statuses in the order of their declaration; \<open>\<forall>s\<close> over statuses becomes executable.\<close>

definition all_run_status :: "run_status list" where
  "all_run_status = [Scheduled, Leased, Dispatched, Running, Succeeded, Failed,
     RetryWait, DeadLetter, Cancelled, TimedOut, Orphaned]"

lemma UNIV_run_status: "(UNIV :: run_status set) = set all_run_status"
proof -
  have "s \<in> set all_run_status" for s
    by (cases s) (simp_all add: all_run_status_def)
  then show ?thesis by auto
qed

instantiation run_status :: enum
begin
definition enum_run_status :: "run_status list" where
  "enum_run_status = all_run_status"
definition enum_all_run_status :: "(run_status \<Rightarrow> bool) \<Rightarrow> bool" where
  "enum_all_run_status P \<longleftrightarrow> list_all P all_run_status"
definition enum_ex_run_status :: "(run_status \<Rightarrow> bool) \<Rightarrow> bool" where
  "enum_ex_run_status P \<longleftrightarrow> list_ex P all_run_status"
instance
proof
  show "(UNIV :: run_status set) = set enum_class.enum"
    by (simp add: enum_run_status_def UNIV_run_status)
  show "distinct (enum_class.enum :: run_status list)"
    by (simp add: enum_run_status_def all_run_status_def)
  show "enum_class.enum_all P \<longleftrightarrow> Ball UNIV P" for P :: "run_status \<Rightarrow> bool"
    by (simp add: enum_all_run_status_def UNIV_run_status list_all_iff)
  show "enum_class.enum_ex P \<longleftrightarrow> Bex UNIV P" for P :: "run_status \<Rightarrow> bool"
    by (simp add: enum_ex_run_status_def UNIV_run_status list_ex_iff)
qed
end

subsection \<open>The serialised names\<close>

text \<open>\<open>#[serde(rename_all = "snake_case")]\<close> on \<open>RunStatus\<close>, without the quotes.\<close>

definition status_to_str :: "run_status \<Rightarrow> string" where
  "status_to_str s = (case s of
      Scheduled \<Rightarrow> ''scheduled'' | Leased \<Rightarrow> ''leased'' | Dispatched \<Rightarrow> ''dispatched''
    | Running \<Rightarrow> ''running'' | Succeeded \<Rightarrow> ''succeeded'' | Failed \<Rightarrow> ''failed''
    | RetryWait \<Rightarrow> ''retry_wait'' | DeadLetter \<Rightarrow> ''dead_letter'' | Cancelled \<Rightarrow> ''cancelled''
    | TimedOut \<Rightarrow> ''timed_out'' | Orphaned \<Rightarrow> ''orphaned'')"

lemma status_to_str_simps [simp]:
  "status_to_str Scheduled = ''scheduled''" "status_to_str Leased = ''leased''"
  "status_to_str Dispatched = ''dispatched''" "status_to_str Running = ''running''"
  by (simp_all add: status_to_str_def)

lemma status_to_str_inj: "status_to_str a = status_to_str b \<longleftrightarrow> a = b"
  by (cases a; cases b) (simp_all add: status_to_str_def)

subsection \<open>Third-party code the program calls\<close>

text \<open>
  chrono, uuid, cron and serde_json are not under src/: what the program calls of them is a
  parameter, the record \<open>ext\<close> of functions.
  \<^item> \<open>x_dt_add\<close>, \<open>x_dt_sub\<close>: \<open>DateTime<Utc> + TimeDelta\<close> and \<open>-\<close>; \<open>None\<close> is the panic
    outside chrono's range.
  \<^item> \<open>x_td_millis\<close>: \<open>Duration::milliseconds\<close> on an \<open>i64\<close>; \<open>None\<close> is its panic.
  \<^item> \<open>x_td_from_std\<close>: \<open>Duration::from_std\<close> on a \<open>std::time::Duration\<close> in nanoseconds;
    \<open>Inl\<close> carries the text of its error.
  \<^item> \<open>x_uuid_str\<close>: \<open>Uuid::to_string\<close>.
  \<^item> \<open>x_cron_parse\<close>: \<open>cron::Schedule::from_str(e).ok()\<close>, giving \<open>after(t).next()\<close>.
  \<^item> \<open>x_json_null\<close>, \<open>x_json_str\<close>: \<open>Value::Null\<close>, \<open>Value::to_string\<close>.
  \<^item> \<open>x_dt_str\<close>, \<open>x_dt_parse\<close>: \<open>to_rfc3339\<close> of a UTC time, \<open>parse_from_rfc3339\<close>; \<open>Inl\<close> of a
    parser carries the text of its error.
  \<^item> \<open>x_uuid_parse\<close>, \<open>x_json_parse\<close>: \<open>Uuid::from_str\<close>, \<open>serde_json::from_str\<close> to a \<open>Value\<close>.
  \<^item> \<open>x_job_json\<close>, \<open>x_job_parse\<close>, \<open>x_status_parse\<close>: serde_json on a \<open>LeylaJob\<close>, and from a quoted
    status name.
  \<^item> \<open>x_sql_spare_vars\<close>, \<open>x_sql_var_error\<close>: SQLite bounds the numbers of a statement's parameters, by
    default by 32766. The program leaves the bound alone, and its largest statement of a fixed shape
    (\<open>insert_run\<close>) has 17: the bound is 17 and the spare ones. The text is that of the error for a
    number above the bound, which depends on the version of rusqlite.
\<close>

record 'j ext =
  x_dt_add :: "time \<Rightarrow> int \<Rightarrow> time option"
  x_dt_sub :: "time \<Rightarrow> int \<Rightarrow> time option"
  x_td_millis :: "int \<Rightarrow> int option"
  x_td_from_std :: "nat \<Rightarrow> string + int"
  x_uuid_str :: "uuid \<Rightarrow> string"
  x_cron_parse :: "string \<Rightarrow> (time \<Rightarrow> time option) option"
  x_json_null :: 'j
  x_json_str :: "'j \<Rightarrow> string"
  x_dt_str :: "time \<Rightarrow> string"
  x_dt_parse :: "string \<Rightarrow> string + time"
  x_uuid_parse :: "string \<Rightarrow> string + uuid"
  x_json_parse :: "string \<Rightarrow> string + 'j"
  x_job_json :: "'j leyla_job \<Rightarrow> string + string"
  x_job_parse :: "string \<Rightarrow> string + 'j leyla_job"
  x_status_parse :: "string \<Rightarrow> string + run_status"
  x_sql_spare_vars :: nat
  x_sql_var_error :: string

definition sql_max_vars :: "'j ext \<Rightarrow> nat" where
  "sql_max_vars E = 17 + x_sql_spare_vars E"

text \<open>
  What the documentation of chrono promises where an operation returns: the exact sum, the
  exact difference, the exact number of nanoseconds.
\<close>

definition chrono_exact :: "'j ext \<Rightarrow> bool" where
  "chrono_exact E \<longleftrightarrow>
    (\<forall>t d u. x_dt_add E t d = Some u \<longrightarrow> u = t + d) \<and>
    (\<forall>t d u. x_dt_sub E t d = Some u \<longrightarrow> u = t - d) \<and>
    (\<forall>m d. x_td_millis E m = Some d \<longrightarrow> d = m * nanos_per_milli) \<and>
    (\<forall>n d. x_td_from_std E n = Inr d \<longrightarrow> d = int n)"

lemma chrono_exact_add: "chrono_exact E \<Longrightarrow> x_dt_add E t d = Some u \<Longrightarrow> u = t + d"
  and chrono_exact_sub: "chrono_exact E \<Longrightarrow> x_dt_sub E t d = Some u \<Longrightarrow> u = t - d"
  and chrono_exact_millis: "chrono_exact E \<Longrightarrow> x_td_millis E m = Some d \<Longrightarrow> d = m * nanos_per_milli"
  and chrono_exact_from_std: "chrono_exact E \<Longrightarrow> x_td_from_std E n = Inr d \<Longrightarrow> d = int n"
  by (simp_all add: chrono_exact_def)

text \<open>
  One concrete choice of these parameters, used to show that the hypotheses made about them
  can hold: timestamps up to about the year 2286, and identifiers written in unary.
\<close>

definition sample_ext :: "string ext" where
  "sample_ext =
    \<lparr>x_dt_add = (\<lambda>t d. if t + d \<le> 10 ^ 19 then Some (t + d) else None),
     x_dt_sub = (\<lambda>t d. Some (t - d)),
     x_td_millis = (\<lambda>m. Some (m * nanos_per_milli)),
     x_td_from_std = (\<lambda>n. Inr (int n)),
     x_uuid_str = (\<lambda>u. replicate (unat u) (CHR ''u'')),
     x_cron_parse = (\<lambda>e. if e = ''* * * * * *'' then Some (\<lambda>t. Some (t + nanos_per_sec)) else None),
     x_json_null = ''null'',
     x_json_str = (\<lambda>v. v),
     x_dt_str = (\<lambda>t. replicate (nat t) (CHR ''t'')), x_dt_parse = (\<lambda>s. Inr (int (length s))),
     x_uuid_parse = (\<lambda>s. Inr (of_nat (length s))), x_json_parse = (\<lambda>s. Inr s),
     x_job_json = (\<lambda>_. Inl ''unsupported''), x_job_parse = (\<lambda>_. Inl ''unsupported''),
     x_status_parse = (\<lambda>s. case find (\<lambda>st. [CHR 0x22] @ status_to_str st @ [CHR 0x22] = s) all_run_status of
       Some st \<Rightarrow> Inr st | None \<Rightarrow> Inl ''unknown variant''),
     x_sql_spare_vars = 32749,
     x_sql_var_error = ''variable number must be between ?1 and ?32766''\<rparr>"

lemma sample_ext_exact: "chrono_exact sample_ext"
  by (simp add: chrono_exact_def sample_ext_def)

end
