(* ===== verification/Lifecycle.thy ===== *)
theory Lifecycle
  imports Leyla_Types
begin

section \<open>The run life cycle (leyla-core/src/lifecycle.rs)\<close>

text \<open>
  \<open>can_transition\<close> is the table of allowed status changes, \<open>transition\<close> its checked form.
  The locale \<open>status_machine\<close> states what the rest of the development relies on: some
  statuses are final, and a rank grows on every change that does not re-enter the queue. Its
  lemmas bound every path; the interpretation discharges the laws for the table.
\<close>

fun can_transition :: "run_status \<Rightarrow> run_status \<Rightarrow> bool" where
  "can_transition Scheduled Leased = True"
| "can_transition Scheduled Cancelled = True"
| "can_transition Leased Dispatched = True"
| "can_transition Leased Scheduled = True"
| "can_transition Dispatched Running = True"
| "can_transition Dispatched Failed = True"
| "can_transition Running Succeeded = True"
| "can_transition Running Failed = True"
| "can_transition Running TimedOut = True"
| "can_transition Running Orphaned = True"
| "can_transition Failed RetryWait = True"
| "can_transition Failed DeadLetter = True"
| "can_transition RetryWait Scheduled = True"
| "can_transition TimedOut RetryWait = True"
| "can_transition TimedOut DeadLetter = True"
| "can_transition Orphaned Scheduled = True"
| "can_transition Orphaned DeadLetter = True"
| "can_transition _ _ = False"

datatype lifecycle_error = InvalidTransition (from_status: run_status) (to_status: run_status)

definition transition :: "run_status \<Rightarrow> run_status \<Rightarrow> (lifecycle_error, run_status) outcome" where
  "transition from_st to_st =
    (if can_transition from_st to_st then Ok to_st else Err (InvalidTransition from_st to_st))"

subsection \<open>Status machines\<close>

locale status_machine =
  fixes allowed :: "'st \<Rightarrow> 'st \<Rightarrow> bool"
    and final :: "'st \<Rightarrow> bool"
    and entry :: 'st
    and rank :: "'st \<Rightarrow> nat"
  assumes final_stuck: "final s \<Longrightarrow> \<not> allowed s t"
    and rank_grows: "allowed s t \<Longrightarrow> t \<noteq> entry \<Longrightarrow> rank s < rank t"
begin

text \<open>A final status is never left again.\<close>

lemma final_absorbing: "allowed\<^sup>*\<^sup>* s t \<Longrightarrow> final s \<Longrightarrow> t = s"
  by (induction rule: rtranclp_induct) (auto dest: final_stuck)

text \<open>A path that does not re-enter the queue is at most as long as the ranks it spans.\<close>

lemma entry_free_rank:
  "successively allowed (s # xs) \<Longrightarrow> entry \<notin> set xs \<Longrightarrow> rank s + length xs \<le> rank (last (s # xs))"
proof (induction xs arbitrary: s)
  case Nil
  then show ?case by simp
next
  case (Cons x xs)
  then have "rank s < rank x" by (intro rank_grows) auto
  moreover have "rank x + length xs \<le> rank (last (x # xs))"
    using Cons by simp
  ultimately show ?case by simp
qed

text \<open>So a cycle passes the entry status.\<close>

lemma cycle_passes_entry:
  assumes "successively allowed (s # xs)" and "xs \<noteq> []" and "last xs = s"
  shows "entry \<in> set xs"
proof (rule ccontr)
  assume "entry \<notin> set xs"
  with assms have "rank s + length xs \<le> rank s"
    using entry_free_rank [of s xs] by simp
  with assms(2) show False by simp
qed

end

definition terminal_status :: "run_status \<Rightarrow> bool" where
  "terminal_status s \<longleftrightarrow> s \<in> {Succeeded, DeadLetter, Cancelled}"

fun status_rank :: "run_status \<Rightarrow> nat" where
  "status_rank Scheduled = 0"
| "status_rank Leased = 1"
| "status_rank Dispatched = 2"
| "status_rank Running = 3"
| "status_rank Succeeded = 4"
| "status_rank Failed = 4"
| "status_rank TimedOut = 4"
| "status_rank Orphaned = 4"
| "status_rank RetryWait = 5"
| "status_rank DeadLetter = 5"
| "status_rank Cancelled = 5"

lemma status_rank_le: "status_rank s \<le> 5"
  by (cases s) simp_all

lemma terminal_no_transition: "terminal_status s \<Longrightarrow> \<not> can_transition s t"
  by (cases s; cases t) (simp_all add: terminal_status_def)

lemma transition_rank: "can_transition s t \<Longrightarrow> t \<noteq> Scheduled \<Longrightarrow> status_rank s < status_rank t"
  by (cases s; cases t) simp_all

interpretation lc: status_machine can_transition terminal_status Scheduled status_rank
  by unfold_locales (simp_all add: terminal_no_transition transition_rank)

lemma transition_Ok [simp]: "transition s t = Ok u \<longleftrightarrow> can_transition s t \<and> u = t"
  by (auto simp: transition_def)

subsection \<open>Properties\<close>

text \<open>
  The terminal statuses \<open>Succeeded\<close>, \<open>DeadLetter\<close> and \<open>Cancelled\<close> are exactly those from
  which no sequence of allowed transitions leads to another status.
\<close>
lemma terminal_iff_absorbing: "{t. can_transition\<^sup>*\<^sup>* s t} = {s} \<longleftrightarrow> terminal_status s"
proof
  assume "terminal_status s"
  then show "{t. can_transition\<^sup>*\<^sup>* s t} = {s}" using lc.final_absorbing by auto
next
  assume *: "{t. can_transition\<^sup>*\<^sup>* s t} = {s}"
  have "\<exists>t. can_transition s t \<and> t \<noteq> s" if "\<not> terminal_status s"
  proof -
    have "can_transition s (case s of Scheduled \<Rightarrow> Leased | Leased \<Rightarrow> Dispatched | Dispatched \<Rightarrow> Running
        | Running \<Rightarrow> Succeeded | RetryWait \<Rightarrow> Scheduled | _ \<Rightarrow> (if s = Orphaned then Scheduled else RetryWait))"
      using that by (cases s) (simp_all add: terminal_status_def)
    moreover have "\<not> can_transition s s" by (cases s) simp_all
    ultimately show ?thesis by metis
  qed
  with * show "terminal_status s" by (metis mem_Collect_eq r_into_rtranclp singletonD)
qed

text \<open>
  A sequence of allowed transitions that does not put the run back into the queue has at
  most five steps (so one attempt always comes to an end), and a sequence that returns to the
  status it started from goes through \<open>Scheduled\<close>.
\<close>
lemma attempt_is_bounded:
  assumes "successively can_transition (s # xs)"
  shows "(Scheduled \<notin> set xs \<longrightarrow> length xs \<le> 5) \<and> (xs \<noteq> [] \<and> last xs = s \<longrightarrow> Scheduled \<in> set xs)"
proof -
  have "length xs \<le> 5" if "Scheduled \<notin> set xs"
    using lc.entry_free_rank [OF assms that] status_rank_le [of "last (s # xs)"] by linarith
  then show ?thesis using lc.cycle_passes_entry [OF assms] by blast
qed

lemma attempt_is_bounded_witness:
  "length [Leased, Dispatched, Running, TimedOut, DeadLetter] \<le> 5 \<and>
    Scheduled \<in> set [Leased, Scheduled]"
  using attempt_is_bounded [of Scheduled "[Leased, Dispatched, Running, TimedOut, DeadLetter]"]
    attempt_is_bounded [of Scheduled "[Leased, Scheduled]"] by simp

text \<open>From every status some terminal status can be reached by allowed transitions.\<close>
lemma reaches_terminal: "\<exists>t. terminal_status t \<and> can_transition\<^sup>*\<^sup>* s t"
proof -
  have step: "can_transition a b \<Longrightarrow> can_transition\<^sup>*\<^sup>* b c \<Longrightarrow> can_transition\<^sup>*\<^sup>* a c" for a b c
    by (rule converse_rtranclp_into_rtranclp)
  have Sch: "can_transition\<^sup>*\<^sup>* Scheduled Cancelled" by (rule r_into_rtranclp) simp
  have Run: "can_transition\<^sup>*\<^sup>* Running Succeeded" by (rule r_into_rtranclp) simp
  have "can_transition\<^sup>*\<^sup>* s Cancelled \<or> can_transition\<^sup>*\<^sup>* s Succeeded \<or> can_transition\<^sup>*\<^sup>* s DeadLetter"
    by (cases s) (auto intro: step [OF _ Sch] step [OF _ Run] step [OF _ step [OF _ Run]])
  then show ?thesis by (auto simp: terminal_status_def)
qed

end
