(* ===== verification/Retry_Policy.thy ===== *)
theory Retry_Policy
  imports Leyla_Types Complex_Main "HOL-Library.Log_Nat"
begin

section \<open>Retry delays (leyla-core/src/policies/retry.rs)\<close>

text \<open>
  \<open>compute_delay\<close> with its integers at their width and its \<open>f64\<close> arithmetic rounded step by
  step. The flag \<open>checks\<close> is the build's overflow checking: on, an overflowing \<open>*\<close> panics;
  off, it wraps. \<open>nanos\<close> is the sub-second part of the system clock \<open>apply_jitter\<close> reads.
\<close>

unbundle bit_operations_syntax

subsection \<open>Machine arithmetic\<close>

definition mul_u64 :: "bool \<Rightarrow> u64 \<Rightarrow> u64 \<Rightarrow> ('e, u64) outcome" where
  "mul_u64 checks a b =
    (if checks \<and> 2 ^ 64 \<le> unat a * unat b then Panic else Ok (a * b))"

text \<open>\<open>2u64.saturating_pow(n)\<close>\<close>

definition saturating_pow2_u64 :: "u32 \<Rightarrow> u64" where
  "saturating_pow2_u64 n = (if unat n < 64 then 2 ^ unat n else - 1)"

text \<open>\<open>a.saturating_sub(b)\<close>\<close>

definition saturating_sub_u32 :: "u32 \<Rightarrow> u32 \<Rightarrow> u32" where
  "saturating_sub_u32 a b = (if a < b then 0 else a - b)"

text \<open>
  Rounding to the nearest \<open>f64\<close>, ties to even, for positive values whose exponent is in the
  normal range; every value below lies between \<open>2 ^ -10\<close> and \<open>2 ^ 65\<close>.
\<close>

definition ilog2 :: "rat \<Rightarrow> int" where
  "ilog2 x = (case quotient_of x of (p, q) \<Rightarrow>
     let k = int (floorlog 2 (nat p)) - int (floorlog 2 (nat q))
     in if 2 powi k \<le> x then k else k - 1)"

definition round_half_even :: "rat \<Rightarrow> int" where
  "round_half_even z =
    (let f = \<lfloor>z\<rfloor>; d = z - of_int f
     in if d < 1 / 2 \<or> (d = 1 / 2 \<and> even f) then f else f + 1)"

definition fl64 :: "rat \<Rightarrow> rat" where
  "fl64 x = (if x = 0 then 0
     else let u = 2 powi (ilog2 x - 52) in of_int (round_half_even (x / u)) * u)"

text \<open>\<open>x as u64\<close> truncates and saturates.\<close>

definition f64_as_u64 :: "rat \<Rightarrow> u64" where
  "f64_as_u64 x = (if 2 ^ 64 \<le> x then - 1 else word_of_int \<lfloor>x\<rfloor>)"

subsection \<open>The operations\<close>

definition apply_jitter :: "u32 \<Rightarrow> u64 \<Rightarrow> u32 \<Rightarrow> u64" where
  "apply_jitter nanos delay attempt =
    (let seed = nanos XOR (attempt * 2654435761);
         factor = fl64 (1 / 2 + fl64 (of_nat (unat seed mod 1000) / 1000))
     in f64_as_u64 (fl64 (fl64 (of_nat (unat delay)) * factor)))"

definition compute_delay :: "bool \<Rightarrow> u32 \<Rightarrow> retry_policy \<Rightarrow> u32 \<Rightarrow> ('e, u64) outcome" where
  "compute_delay checks nanos policy attempt =
    (case (case rp_strategy policy of
        Fixed \<Rightarrow> Ok (rp_base_delay_ms policy)
      | Linear \<Rightarrow> mul_u64 checks (rp_base_delay_ms policy) (ucast attempt)
      | Exponential \<Rightarrow> mul_u64 checks (rp_base_delay_ms policy)
          (saturating_pow2_u64 (saturating_sub_u32 attempt 1))) of
      Ok raw \<Rightarrow>
        (let capped = min raw (rp_max_delay_ms policy)
         in Ok (if rp_jitter policy then apply_jitter nanos capped attempt else capped))
    | Err e \<Rightarrow> Err e
    | Panic \<Rightarrow> Panic)"

definition should_retry :: "retry_policy \<Rightarrow> u32 \<Rightarrow> bool" where
  "should_retry policy current_attempt \<longleftrightarrow> current_attempt < rp_max_attempts policy"

subsection \<open>Rounding lemmas\<close>

lemma ilog2_bounds:
  assumes "0 < x"
  shows "2 powi (ilog2 x) \<le> x" and "x < 2 powi (ilog2 x + 1)"
proof -
  obtain p q where pq: "quotient_of x = (p, q)" by force
  have q: "0 < q" using pq quotient_of_denom_pos by blast
  have x: "x = of_int p / of_int q" using pq quotient_of_div by blast
  have p: "0 < p" using assms q x by (simp add: zero_less_divide_iff)
  define a b where "a = floorlog 2 (nat p)" and "b = floorlog 2 (nat q)"
  have bnd: "(2::rat) ^ (floorlog 2 (nat n) - 1) \<le> of_int n \<and>
      (of_int n :: rat) < 2 ^ floorlog 2 (nat n) \<and> 0 < floorlog 2 (nat n)" if "0 < n" for n :: int
  proof -
    have "2 ^ (floorlog 2 (nat n) - 1) \<le> nat n \<and> nat n < 2 ^ floorlog 2 (nat n)"
      using floorlog_bounds [of "nat n" 2] that by simp
    then have "(of_nat (2 ^ (floorlog 2 (nat n) - 1)) :: rat) \<le> of_nat (nat n)
        \<and> (of_nat (nat n) :: rat) < of_nat (2 ^ floorlog 2 (nat n))"
      by (simp only: of_nat_le_iff of_nat_less_iff)
    moreover have "0 < floorlog 2 (nat n)"
      using that by (simp add: floorlog_def)
    ultimately show ?thesis using that by (simp add: of_nat_nat)
  qed
  have pow: "(2::rat) powi (int a - int b) = 2 ^ a / 2 ^ b"
    by (simp add: power_int_diff)
  have A: "(2::rat) ^ a = 2 * 2 ^ (a - 1)" and B: "(2::rat) ^ b = 2 * 2 ^ (b - 1)"
    using bnd [OF p] bnd [OF q] unfolding a_def [symmetric] b_def [symmetric]
    by (simp_all flip: power_Suc)
  have up: "x < 2 * (2 ^ a / 2 ^ b)"
  proof -
    have "(of_int p :: rat) * 2 ^ (b - 1) < 2 ^ a * of_int q"
      using p q bnd [OF p] bnd [OF q] unfolding a_def [symmetric] b_def [symmetric]
      by (intro mult_less_le_imp_less) auto
    then show ?thesis using q unfolding x B by (simp add: field_simps)
  qed
  have lo: "2 ^ a / 2 ^ b \<le> 2 * x"
  proof -
    have "(2::rat) ^ (a - 1) * of_int q \<le> of_int p * 2 ^ b"
      using p q bnd [OF p] bnd [OF q] unfolding a_def [symmetric] b_def [symmetric]
      by (intro mult_mono) auto
    then show ?thesis using q unfolding x A by (simp add: field_simps)
  qed
  have il: "ilog2 x = (if 2 powi (int a - int b) \<le> x then int a - int b else int a - int b - 1)"
    by (simp add: ilog2_def pq a_def b_def Let_def)
  show "2 powi (ilog2 x) \<le> x" and "x < 2 powi (ilog2 x + 1)"
    using up lo by (auto simp: il pow power_int_diff power_int_add mult.commute)
qed

lemma round_half_even_le: "z \<le> of_int n \<Longrightarrow> round_half_even z \<le> n"
proof -
  assume le: "z \<le> of_int n"
  then have "\<lfloor>z\<rfloor> \<le> n" by linarith
  moreover have "z - of_int \<lfloor>z\<rfloor> < 1 / 2" if "\<lfloor>z\<rfloor> = n" using le that by linarith
  ultimately show ?thesis by (cases "\<lfloor>z\<rfloor> = n") (auto simp: round_half_even_def Let_def)
qed

lemma round_half_even_ge: "of_int n \<le> z \<Longrightarrow> n \<le> round_half_even z"
  by (auto simp: round_half_even_def Let_def le_floor_iff intro: order_trans [of n "\<lfloor>z\<rfloor>"])

text \<open>
  A bound that lies on the grid of \<open>x\<close>'s binade, \<open>m * 2 ^ e\<close> with \<open>x < 2 ^ (e + 53)\<close>, is
  kept by rounding.
\<close>

lemma grid_multiple:
  assumes "0 < x" and "x < 2 powi (e + 53)"
  obtains k :: int where "(2::rat) powi e = of_int k * 2 powi (ilog2 x - 52)"
proof -
  have "(2::rat) powi (ilog2 x) < 2 powi (e + 53)"
    using ilog2_bounds(1) [OF assms(1)] assms(2) by linarith
  then have "ilog2 x < e + 53"
    using power_int_increasing [of "e + 53" "ilog2 x" "2::rat"] by (meson leD leI one_le_numeral)
  then have d: "0 \<le> e - (ilog2 x - 52)" by simp
  have "(2::rat) powi e = 2 powi ((e - (ilog2 x - 52)) + (ilog2 x - 52))"
    by (rule arg_cong [of _ _ "power_int 2"]) simp
  also have "\<dots> = 2 powi (e - (ilog2 x - 52)) * 2 powi (ilog2 x - 52)"
    by (rule power_int_add) simp
  also have "(2::rat) powi (e - (ilog2 x - 52)) = of_int (2 ^ nat (e - (ilog2 x - 52)))"
    using d by (simp add: power_int_def)
  finally show ?thesis by (rule that)
qed

lemma fl64_le:
  assumes "0 < x" and "x \<le> of_int m * 2 powi e" and "x < 2 powi (e + 53)"
  shows "fl64 x \<le> of_int m * 2 powi e"
proof -
  define u :: rat where "u = 2 powi (ilog2 x - 52)"
  obtain k where k: "(2::rat) powi e = of_int k * u"
    using grid_multiple [OF assms(1,3)] unfolding u_def by blast
  have u: "0 < u" by (simp add: u_def)
  have "x / u \<le> of_int (m * k)"
    using assms(2) u by (simp add: k field_simps)
  then have "round_half_even (x / u) \<le> m * k" by (rule round_half_even_le)
  then have "of_int (round_half_even (x / u)) * u \<le> of_int (m * k) * u"
    using u by (intro mult_right_mono) (simp_all only: of_int_le_iff less_imp_le)
  then show ?thesis using assms(1) by (simp add: fl64_def Let_def k flip: u_def)
qed

lemma fl64_ge:
  assumes "0 < x" and "of_int m * 2 powi e \<le> x" and "x < 2 powi (e + 53)"
  shows "of_int m * 2 powi e \<le> fl64 x"
proof -
  define u :: rat where "u = 2 powi (ilog2 x - 52)"
  obtain k where k: "(2::rat) powi e = of_int k * u"
    using grid_multiple [OF assms(1,3)] unfolding u_def by blast
  have u: "0 < u" by (simp add: u_def)
  have "of_int (m * k) \<le> x / u"
    using assms(2) u by (simp add: k field_simps)
  then have "m * k \<le> round_half_even (x / u)" by (rule round_half_even_ge)
  then have "of_int (m * k) * u \<le> of_int (round_half_even (x / u)) * u"
    using u by (intro mult_right_mono) (simp_all only: of_int_le_iff less_imp_le)
  then show ?thesis using assms(1) by (simp add: fl64_def Let_def k flip: u_def)
qed

lemma fl64_zero [simp]: "fl64 0 = 0"
  by (simp add: fl64_def)

lemma fl64_exact:
  assumes "0 < x" and "x = of_int m * 2 powi e" and "x < 2 powi (e + 53)"
  shows "fl64 x = x"
  using fl64_le [OF assms(1) eq_refl [OF assms(2)] assms(3)]
    fl64_ge [OF assms(1) eq_refl [OF assms(2) [symmetric]] assms(3)] assms(2) by simp

subsection \<open>Jitter\<close>

lemma jitter_factor_bounds:
  fixes a :: nat
  assumes "a < 1000"
  shows "1 / 2 \<le> fl64 (1 / 2 + fl64 (of_nat a / 1000))"
    and "fl64 (1 / 2 + fl64 (of_nat a / 1000)) \<le> 3 / 2"
proof -
  let ?b = "fl64 (of_nat a / 1000)"
  have b: "0 \<le> ?b \<and> ?b \<le> 1"
  proof (cases "a = 0")
    case True
    then show ?thesis by simp
  next
    case False
    then have x: "0 < (of_nat a / 1000 :: rat)" by simp
    have le: "(of_nat a / 1000 :: rat) \<le> 1" using assms by simp
    have "?b \<le> of_int 1 * 2 powi 0"
      using x le by (intro fl64_le) (auto simp: power_int_def)
    moreover have "of_int 0 * 2 powi 0 \<le> ?b"
      using x le by (intro fl64_ge) (auto simp: power_int_def)
    ultimately show ?thesis by simp
  qed
  have half: "(2::rat) powi (-1) = 1 / 2" by (simp add: power_int_minus)
  have small: "1 / 2 + ?b < 2 powi (- 1 + 53)"
    using b by (simp add: power_int_def)
  have "of_int 1 * 2 powi (-1) \<le> fl64 (1 / 2 + ?b)"
    using b small by (intro fl64_ge) (auto simp: half)
  then show "1 / 2 \<le> fl64 (1 / 2 + ?b)" by (simp add: half)
  have "fl64 (1 / 2 + ?b) \<le> of_int 3 * 2 powi (-1)"
    using b small by (intro fl64_le) (auto simp: half)
  then show "fl64 (1 / 2 + ?b) \<le> 3 / 2" by (simp add: half)
qed

lemma fl64_scale_bounds:
  fixes n :: nat
  assumes n: "n \<le> 2 ^ 51" and f: "1 / 2 \<le> f" "f \<le> (3 / 2 :: rat)"
  shows "of_nat n / 2 \<le> fl64 (of_nat n * f)" and "fl64 (of_nat n * f) \<le> 3 * of_nat n / 2"
proof -
  have half: "(2::rat) powi (-1) = 1 / 2" by (simp add: power_int_minus)
  have "of_nat n / 2 \<le> fl64 (of_nat n * f) \<and> fl64 (of_nat n * f) \<le> 3 * of_nat n / 2"
  proof (cases "n = 0")
    case True
    then show ?thesis by simp
  next
    case False
    have n': "(of_nat n :: rat) \<le> 2 ^ 51"
      using n by (metis of_nat_le_iff of_nat_numeral of_nat_power)
    have x0: "0 < of_nat n * f" using False f by simp
    have lo: "of_nat n * (1 / 2) \<le> of_nat n * f" and up: "of_nat n * f \<le> of_nat n * (3 / 2)"
      using f by (intro mult_left_mono; simp)+
    have xb: "of_nat n * f < 2 powi (- 1 + 53)"
      using up n' by (simp add: power_int_def)
    have "of_int (int n) * 2 powi (-1) \<le> fl64 (of_nat n * f)"
      using lo by (intro fl64_ge x0 xb) (simp add: half)
    moreover have "fl64 (of_nat n * f) \<le> of_int (3 * int n) * 2 powi (-1)"
      using up by (intro fl64_le x0 xb) (simp add: half)
    ultimately show ?thesis by (simp add: half)
  qed
  then show "of_nat n / 2 \<le> fl64 (of_nat n * f)" and "fl64 (of_nat n * f) \<le> 3 * of_nat n / 2"
    by simp_all
qed

lemma fl64_of_nat:
  assumes "n < 2 ^ 53"
  shows "fl64 (of_nat n) = of_nat n"
proof (cases "n = 0")
  case False
  have "(of_nat n :: rat) < 2 ^ 53"
    using assms by (metis of_nat_less_iff of_nat_numeral of_nat_power)
  then show ?thesis
    using False by (intro fl64_exact [where m = "int n" and e = 0]) (auto simp: power_int_def)
qed simp

lemma unat_f64_as_u64:
  assumes "0 \<le> x" and "x < 2 ^ 64"
  shows "unat (f64_as_u64 x) = nat \<lfloor>x\<rfloor>"
proof -
  have "0 \<le> \<lfloor>x\<rfloor>" and "\<lfloor>x\<rfloor> < 2 ^ 64"
    using assms by (simp_all add: floor_less_iff)
  then have "uint (word_of_int \<lfloor>x\<rfloor> :: u64) = \<lfloor>x\<rfloor>"
    by (simp add: uint_word_of_int take_bit_int_eq_self)
  then show ?thesis using assms by (simp add: f64_as_u64_def unat_eq_nat_uint)
qed

lemma apply_jitter_bounds:
  assumes "unat delay \<le> 2 ^ 51"
  shows "unat delay div 2 \<le> unat (apply_jitter nanos delay attempt)"
    and "2 * unat (apply_jitter nanos delay attempt) \<le> 3 * unat delay"
proof -
  define a where "a = unat (nanos XOR (attempt * 2654435761)) mod 1000"
  define f where "f = fl64 (1 / 2 + fl64 (of_nat a / 1000))"
  define x where "x = fl64 (of_nat (unat delay) * f)"
  have "a < 1000" by (simp add: a_def)
  note f = jitter_factor_bounds [OF this, folded f_def]
  note x = fl64_scale_bounds [OF assms f, folded x_def]
  have d: "(of_nat (unat delay) :: rat) \<le> 2 ^ 51"
    using assms by (metis of_nat_le_iff of_nat_numeral of_nat_power)
  have "0 \<le> x" using x(1) by (rule order_trans [rotated]) (simp only: divide_nonneg_nonneg of_nat_0_le_iff zero_le_numeral)
  moreover have "3 * of_nat (unat delay) / 2 < (2 ^ 64 :: rat)" using d by simp
  then have "x < 2 ^ 64" using x(2) by (rule le_less_trans [rotated])
  moreover have "apply_jitter nanos delay attempt = f64_as_u64 x"
    unfolding apply_jitter_def Let_def x_def f_def a_def
    by (subst fl64_of_nat [of "unat delay"]) (use assms in simp, rule refl)
  ultimately have j: "unat (apply_jitter nanos delay attempt) = nat \<lfloor>x\<rfloor>"
    by (simp only: unat_f64_as_u64)
  show "unat delay div 2 \<le> unat (apply_jitter nanos delay attempt)"
    unfolding j using x(1) by linarith
  show "2 * unat (apply_jitter nanos delay attempt) \<le> 3 * unat delay"
    unfolding j using x(2) by linarith
qed

subsection \<open>The delay before the cap, as a number\<close>

text \<open>
  The delay the strategy prescribes, on natural numbers: this is what \<open>compute_delay\<close>
  computes modulo \<open>2 ^ 64\<close>. The power saturates at \<open>u64::MAX\<close>, the product does not.
\<close>

fun strategy_delay :: "retry_strategy \<Rightarrow> nat \<Rightarrow> nat \<Rightarrow> nat" where
  "strategy_delay Fixed base attempt = base"
| "strategy_delay Linear base attempt = base * attempt"
| "strategy_delay Exponential base attempt = base * min (2 ^ (attempt - 1)) (2 ^ 64 - 1)"

definition raw_delay :: "retry_policy \<Rightarrow> u32 \<Rightarrow> nat" where
  "raw_delay p attempt =
    strategy_delay (rp_strategy p) (unat (rp_base_delay_ms p)) (unat attempt)"

lemma strategy_delay_mono:
  assumes "a \<le> b"
  shows "strategy_delay s base a \<le> strategy_delay s base b"
proof (cases s)
  case Exponential
  have "(2::nat) ^ (a - 1) \<le> 2 ^ (b - 1)" using assms by (intro power_increasing) auto
  then have "min ((2::nat) ^ (a - 1)) (2 ^ 64 - 1) \<le> min (2 ^ (b - 1)) (2 ^ 64 - 1)"
    by (rule min.mono) simp
  then show ?thesis by (simp only: Exponential strategy_delay.simps mult_le_mono2)
qed (use assms in auto)

lemma unat_saturating_sub: "unat (saturating_sub_u32 a b) = unat a - unat b"
  by (auto simp: saturating_sub_u32_def unat_sub not_less word_le_nat_alt word_less_nat_alt)

lemma unat_saturating_pow2: "unat (saturating_pow2_u64 n) = min (2 ^ unat n) (2 ^ 64 - 1)"
proof (cases "unat n < 64")
  case True
  then have "(2::nat) ^ unat n \<le> 2 ^ 63" by (intro power_increasing) auto
  then have lt: "(2::nat) ^ unat n < 2 ^ 64" by simp
  have "unat (2 ^ unat n :: u64) = unat (word_of_nat (2 ^ unat n) :: u64)" by simp
  also have "\<dots> = 2 ^ unat n"
    using True lt by (subst unsigned_of_nat) (simp add: take_bit_nat_eq_self)
  finally show ?thesis
    using True lt by (simp add: saturating_pow2_u64_def)
next
  case False
  then have "(2::nat) ^ 64 \<le> 2 ^ unat n" by (intro power_increasing) auto
  with False show ?thesis
    by (simp add: saturating_pow2_u64_def unsigned_minus_1_eq_mask mask_eq_exp_minus_1 min_def)
qed

lemma mul_u64_word:
  "mul_u64 checks a b =
    (if checks \<and> 2 ^ 64 \<le> unat a * unat b then Panic else Ok (word_of_nat (unat a * unat b)))"
  by (simp add: mul_u64_def)

lemma compute_delay_raw:
  "compute_delay checks nanos p attempt =
    (if checks \<and> 2 ^ 64 \<le> raw_delay p attempt then Panic
     else let capped = min (word_of_nat (raw_delay p attempt)) (rp_max_delay_ms p)
       in Ok (if rp_jitter p then apply_jitter nanos capped attempt else capped))"
proof (cases "rp_strategy p")
  case Fixed
  then show ?thesis
    using unsigned_less [where 'a = nat, of "rp_base_delay_ms p"] by (simp add: compute_delay_def raw_delay_def not_le)
next
  case Linear
  have "unat (ucast attempt :: u64) = unat attempt"
    using unsigned_less [where 'a = nat, of attempt]
    by (simp add: unsigned_ucast_eq take_bit_nat_eq_self)
  with Linear show ?thesis
    by (simp add: compute_delay_def raw_delay_def mul_u64_word Let_def del: of_nat_mult)
next
  case Exponential
  then show ?thesis
    by (simp add: compute_delay_def raw_delay_def mul_u64_word Let_def unat_saturating_pow2
        unat_saturating_sub del: of_nat_mult)
qed

lemma min_word_of_nat:
  "min (word_of_nat n) c = (word_of_nat (min (n mod 2 ^ 64) (unat c)) :: u64)"
  "unat (min (word_of_nat n) c) = min (n mod 2 ^ 64) (unat (c :: u64))"
proof -
  have n: "unat (word_of_nat n :: u64) = n mod 2 ^ 64"
    by (simp add: unsigned_of_nat take_bit_eq_mod)
  show "unat (min (word_of_nat n) c) = min (n mod 2 ^ 64) (unat c)"
    by (simp add: min_def word_le_nat_alt n)
  then show "min (word_of_nat n) c = (word_of_nat (min (n mod 2 ^ 64) (unat c)) :: u64)"
    by (metis of_nat_unat ucast_id)
qed

subsection \<open>Properties\<close>



text \<open>
  While the prescribed delay fits a \<open>u64\<close>, a later attempt never waits less than an
  earlier one.
\<close>
lemma compute_delay_backoff_mono:
  assumes "\<not> rp_jitter p" and "a \<le> b" and "raw_delay p b < 2 ^ 64"
    and "compute_delay checks n1 p a = Ok d" and "compute_delay checks n2 p b = Ok d'"
  shows "d \<le> d'"
proof -
  have "raw_delay p a \<le> raw_delay p b"
    using assms(2) by (simp add: raw_delay_def strategy_delay_mono word_le_nat_alt)
  with assms(1,3-5) show ?thesis
    by (auto simp: compute_delay_raw Let_def min_word_of_nat(2) word_le_nat_alt min_le_iff_disj
        split: if_splits)
qed

lemma compute_delay_backoff_mono_witness:
  "(4000 :: u64) \<le> 8000 \<and>
   compute_delay True 0 (retry_policy_default\<lparr>rp_jitter := False\<rparr>) 4 = (Ok 8000 :: (unit, u64) outcome)"
proof -
  let ?p = "retry_policy_default\<lparr>rp_jitter := False\<rparr>"
  have a: "compute_delay True 0 ?p 3 = (Ok 4000 :: (unit, u64) outcome)"
    and b: "compute_delay True 0 ?p 4 = (Ok 8000 :: (unit, u64) outcome)"
    by (simp_all add: compute_delay_raw raw_delay_def retry_policy_default_def min_def)
  have "(4000 :: u64) \<le> 8000"
    by (rule compute_delay_backoff_mono [OF _ _ _ a b])
      (simp_all add: raw_delay_def retry_policy_default_def)
  with b show ?thesis by simp
qed

text \<open>
  With jitter, the delay stays within half and one and a half times the capped delay (for
  caps up to \<open>2 ^ 51\<close> ms, where the \<open>f64\<close> arithmetic is exact enough).
\<close>
lemma compute_delay_jitter_band:
  assumes "rp_jitter p" and "unat (rp_max_delay_ms p) \<le> 2 ^ 51"
    and "raw_delay p attempt < 2 ^ 64"
  shows "\<exists>d. compute_delay checks nanos p attempt = Ok d \<and>
    min (raw_delay p attempt) (unat (rp_max_delay_ms p)) div 2 \<le> unat d \<and>
    2 * unat d \<le> 3 * min (raw_delay p attempt) (unat (rp_max_delay_ms p))"
proof -
  let ?c = "min (word_of_nat (raw_delay p attempt)) (rp_max_delay_ms p)"
  have c: "unat ?c = min (raw_delay p attempt) (unat (rp_max_delay_ms p))"
    using assms(3) by (simp add: min_word_of_nat(2))
  then have "unat ?c \<le> 2 ^ 51" using assms(2) by simp
  note apply_jitter_bounds [OF this, of nanos attempt, unfolded c]
  then show ?thesis using assms(1,3) by (simp add: compute_delay_raw Let_def)
qed

lemma compute_delay_jitter_band_witness:
  "\<exists>d. compute_delay True 123456789 retry_policy_default 7 = (Ok d :: (unit, u64) outcome) \<and>
    30000 \<le> unat d \<and> unat d \<le> 90000"
  using compute_delay_jitter_band [of retry_policy_default 7 True 123456789]
  by (simp add: raw_delay_def retry_policy_default_def)

text \<open>
  The jitter is applied after the cap, so a delay can exceed \<open>max_delay_ms\<close>: with the
  default policy (cap 60000 ms), attempt 10 and 774554116 ns on the clock, it is 75000 ms.
\<close>
lemma jitter_exceeds_cap:
  "compute_delay True 774554116 retry_policy_default 10 = (Ok 75000 :: (unit, u64) outcome) \<and>
   rp_max_delay_ms retry_policy_default = 60000"
proof -
  have q: "(2::rat) powi (-2) = 1 / 4" by (simp add: power_int_minus)
  have p: "(2::rat) powi (-2 + 53) = 2 ^ 51" by (simp add: power_int_def)
  have f3: "fl64 (3 / 4) = 3 / 4"
    by (rule fl64_exact [where m = 3 and e = "-2"]) (simp_all only: q p, simp_all)
  have f5: "fl64 (5 / 4) = 5 / 4"
    by (rule fl64_exact [where m = 5 and e = "-2"]) (simp_all only: q p, simp_all)
  have n: "fl64 60000 = 60000" "fl64 75000 = 75000"
    using fl64_of_nat [of 60000] fl64_of_nat [of 75000] by simp_all
  have seed: "unat ((774554116 :: u32) XOR (10 * 2654435761)) mod 1000 = 750"
    by simp
  have "apply_jitter 774554116 60000 10 = f64_as_u64 (fl64 (fl64 60000 * fl64 (1 / 2 + fl64 (750 / 1000))))"
    unfolding apply_jitter_def Let_def seed by simp
  also have "\<dots> = 75000"
    by (simp add: f3 f5 n f64_as_u64_def)
  finally have "apply_jitter 774554116 60000 10 = 75000" .
  then show ?thesis
    by (simp add: compute_delay_raw raw_delay_def retry_policy_default_def min_def)
qed

text \<open>
  \<open>saturating_pow\<close> saturates but the multiplication after it does not: without overflow
  checks the default exponential backoff collapses to no delay at all at attempt 62, with them
  the call panics.
\<close>
lemma exponential_backoff_collapses:
  "compute_delay False nanos (retry_policy_default\<lparr>rp_jitter := False, rp_max_attempts := 100\<rparr>) 62
     = (Ok 0 :: (unit, u64) outcome) \<and>
   compute_delay True nanos (retry_policy_default\<lparr>rp_jitter := False, rp_max_attempts := 100\<rparr>) 62
     = (Panic :: (unit, u64) outcome)"
  by (simp add: compute_delay_raw raw_delay_def retry_policy_default_def)

end
