(* ===== verification/Dispatch_Policies.thy ===== *)
theory Dispatch_Policies
  imports Leyla_Types
begin

section \<open>Misfire and concurrency policies (leyla-core/src/policies)\<close>

text \<open>
  \<open>resolve_misfires\<close> (misfire.rs) chooses which overdue slots to run, \<open>can_dispatch\<close>
  (concurrency.rs) whether a job may start another run. \<open>sort\<close> is \<open>slice::sort\<close>,
  \<open>Max\<close> is \<open>iter().max().unwrap()\<close> on a list known to be non-empty.
\<close>

definition resolve_misfires :: "misfire_policy \<Rightarrow> time list \<Rightarrow> time \<Rightarrow> time list" where
  "resolve_misfires policy overdue now =
    (if overdue = [] then []
     else case policy of
       Skip \<Rightarrow> []
     | RunImmediately \<Rightarrow> overdue
     | Coalesce \<Rightarrow> [Max (set overdue)]
     | ReplayAll catchup \<Rightarrow>
         (let sorted = sort overdue
          in case catchup of
            Some m \<Rightarrow> rev (take (unat m) (rev sorted))
          | None \<Rightarrow> sorted))"

definition can_dispatch :: "concurrency_policy \<Rightarrow> nat \<Rightarrow> bool" where
  "can_dispatch policy active_count =
    (case policy of
       Allow \<Rightarrow> True
     | ReplaceRunning \<Rightarrow> True
     | ForbidOverlap \<Rightarrow> active_count = 0
     | QueueOne \<Rightarrow> active_count = 0)"

subsection \<open>The latest slots of a sorted list\<close>

definition latest :: "nat \<Rightarrow> time list \<Rightarrow> time list" where
  "latest n ts = drop (length ts - n) (sort ts)"

lemma rev_take_rev: "rev (take n (rev xs)) = drop (length xs - n) xs"
  by (simp add: rev_take)

lemma replay_latest: "resolve_misfires (ReplayAll (Some m)) ts now = latest (unat m) ts"
  by (simp add: resolve_misfires_def latest_def rev_take_rev Let_def)

lemma sorted_latest: "sorted (latest n ts)"
  by (simp add: latest_def sorted_wrt_drop)

lemma length_latest: "length (latest n ts) = min n (length ts)"
  by (simp add: latest_def)

lemma latest_split:
  "mset ts = mset (take (length ts - n) (sort ts)) + mset (latest n ts)"
  by (metis append_take_drop_id latest_def mset_append mset_sort)

lemma latest_upper:
  assumes "x \<in> set (take (length ts - n) (sort ts))" and "y \<in> set (latest n ts)"
  shows "x \<le> y"
proof -
  have "sorted (take (length ts - n) (sort ts) @ latest n ts)"
    by (simp add: latest_def)
  with assms show ?thesis by (auto simp: sorted_append)
qed

lemma set_latest: "set (latest n ts) \<subseteq> set ts"
  unfolding latest_def by (metis set_drop_subset set_sort)

lemma sorted_last_upper: "sorted xs \<Longrightarrow> x \<in> set xs \<Longrightarrow> x \<le> last xs"
  by (induction xs) auto

lemma Max_last_sort:
  assumes "ts \<noteq> []"
  shows "Max (set ts) = last (sort ts)"
proof (rule Max_eqI)
  show "last (sort ts) \<in> set ts"
    using assms by (metis last_in_set set_empty set_sort)
  show "y \<le> last (sort ts)" if "y \<in> set ts" for y
    using that by (intro sorted_last_upper) auto
qed simp

lemma latest_one:
  assumes "ts \<noteq> []"
  shows "latest 1 ts = [Max (set ts)]"
proof -
  obtain xs x where xs: "sort ts = xs @ [x]"
    using assms by (metis rev_exhaust set_empty set_sort)
  then have "length ts = length xs + 1"
    by (metis length_append_singleton length_sort Suc_eq_plus1)
  with xs assms show ?thesis by (simp add: latest_def Max_last_sort)
qed

subsection \<open>Properties\<close>

text \<open>
  C27: Replaying with a catch-up limit runs the latest overdue slots, oldest first: the result
  is sorted, has as many slots as the limit allows, and every slot it drops is no later than
  every slot it keeps.
\<close>
lemma replay_keeps_latest:
  "sorted (resolve_misfires (ReplayAll (Some m)) ts now) \<and>
   length (resolve_misfires (ReplayAll (Some m)) ts now) = min (unat m) (length ts) \<and>
   (\<exists>dropped. mset ts = mset dropped + mset (resolve_misfires (ReplayAll (Some m)) ts now) \<and>
     list_all (\<lambda>d. list_all (\<lambda>k. d \<le> k) (resolve_misfires (ReplayAll (Some m)) ts now)) dropped)"
  unfolding replay_latest
  by (intro conjI exI [of _ "take (length ts - unat m) (sort ts)"] sorted_latest length_latest
      latest_split) (auto simp: list_all_iff intro: latest_upper)

text \<open>
  \<open>Coalesce\<close> is \<open>ReplayAll\<close> limited to one slot, and an unlimited \<open>ReplayAll\<close> runs every
  overdue slot exactly once, as \<open>RunImmediately\<close> does in the given order.
\<close>
lemma coalesce_is_replay_one:
  "resolve_misfires Coalesce ts now = resolve_misfires (ReplayAll (Some 1)) ts now \<and>
   mset (resolve_misfires (ReplayAll None) ts now) = mset ts \<and>
   sorted (resolve_misfires (ReplayAll None) ts now) \<and>
   resolve_misfires RunImmediately ts now = ts \<and>
   resolve_misfires Skip ts now = []"
proof -
  have "resolve_misfires Coalesce ts now = latest 1 ts"
    by (cases "ts = []") (simp_all add: resolve_misfires_def latest_one [unfolded One_nat_def], simp add: latest_def)
  then show ?thesis
    by (simp add: replay_latest) (simp add: resolve_misfires_def)
qed

end
