(* ===== verification/Leyla_Store.thy ===== *)
theory Leyla_Store
  imports Leyla_Types
begin

section \<open>The store interface (leyla-core/src/store/mod.rs)\<close>

text \<open>
  \<open>RunPatch\<close>, \<open>RunFilter\<close>, \<open>StoreError\<close>, and the trait \<open>LeylaStore\<close> twice: as the record
  \<open>store_ops\<close> of its methods, which is the \<open>dyn LeylaStore\<close> the schedulers are given, and as
  the locale \<open>leyla_store\<close> of the laws its implementations promise over an abstract view of
  their contents. Every client lemma that does not depend on the implementation is proved in
  the locale, once.
\<close>

record 'j run_patch =
  p_status :: "run_status option"
  p_lease_owner :: "string option"
  p_lease_expires_at :: "time option"
  p_dispatched_at :: "time option"
  p_started_at :: "time option"
  p_heartbeat_at :: "time option"
  p_finished_at :: "time option"
  p_attempt :: "u32 option"
  p_output_json :: "'j option"
  p_error_json :: "'j option"

text \<open>\<open>RunPatch::default()\<close>\<close>

definition run_patch_default :: "'j run_patch" where
  "run_patch_default =
    \<lparr>p_status = None, p_lease_owner = None, p_lease_expires_at = None, p_dispatched_at = None,
     p_started_at = None, p_heartbeat_at = None, p_finished_at = None, p_attempt = None,
     p_output_json = None, p_error_json = None\<rparr>"

record run_filter =
  f_job_id :: "string option"
  f_status :: "run_status option"
  f_limit :: "u32 option"

definition run_filter_default :: run_filter where
  "run_filter_default = \<lparr>f_job_id = None, f_status = None, f_limit = None\<rparr>"

datatype store_error = NotFound string | Conflict string | Internal string

text \<open>
  The methods of the trait. \<open>op_update_run\<close> takes first the reading of \<open>Utc::now()\<close> the method
  makes; \<open>op_get_stale_runs\<close> takes the threshold in nanoseconds.
\<close>

record ('s, 'j) store_ops =
  op_upsert_job :: "'j leyla_job \<Rightarrow> ('s, store_error, unit) prog"
  op_get_job :: "string \<Rightarrow> ('s, store_error, 'j leyla_job) prog"
  op_list_jobs :: "('s, store_error, 'j leyla_job list) prog"
  op_remove_job :: "string \<Rightarrow> ('s, store_error, unit) prog"
  op_insert_run :: "'j job_run \<Rightarrow> ('s, store_error, unit) prog"
  op_claim_due_runs :: "time \<Rightarrow> string \<Rightarrow> nat \<Rightarrow> ('s, store_error, 'j job_run list) prog"
  op_update_run :: "time \<Rightarrow> string \<Rightarrow> 'j run_patch \<Rightarrow> ('s, store_error, unit) prog"
  op_get_run :: "string \<Rightarrow> ('s, store_error, 'j job_run) prog"
  op_list_runs :: "run_filter \<Rightarrow> ('s, store_error, 'j job_run list) prog"
  op_get_stale_runs :: "time \<Rightarrow> nat \<Rightarrow> ('s, store_error, 'j job_run list) prog"
  op_get_dead_letters :: "('s, store_error, 'j dead_letter list) prog"
  op_count_active_runs :: "string \<Rightarrow> ('s, store_error, nat) prog"
  op_migrate :: "('s, store_error, unit) prog"

subsection \<open>The abstract view and what an operation means on it\<close>

text \<open>What a store holds, whatever its representation: jobs and runs by key, dead letters.\<close>

record 'j store_view =
  v_jobs :: "string \<rightharpoonup> 'j leyla_job"
  v_runs :: "string \<rightharpoonup> 'j job_run"
  v_dead :: "'j dead_letter list"

definition run_due :: "time \<Rightarrow> 'j job_run \<Rightarrow> bool" where
  "run_due now r \<longleftrightarrow> r_status r = Scheduled \<and> r_scheduled_for r \<le> now"

definition due_keys :: "time \<Rightarrow> 'j store_view \<Rightarrow> string set" where
  "due_keys now v = {k. \<exists>r. v_runs v k = Some r \<and> run_due now r}"

definition lease_run :: "time \<Rightarrow> string \<Rightarrow> time \<Rightarrow> 'j job_run \<Rightarrow> 'j job_run" where
  "lease_run now owner exp r = r\<lparr>r_status := Leased, r_lease_owner := Some owner,
     r_lease_expires_at := Some exp, r_updated_at := now\<rparr>"

definition run_stale :: "time \<Rightarrow> time \<Rightarrow> 'j job_run \<Rightarrow> bool" where
  "run_stale now cutoff r \<longleftrightarrow> r_status r \<in> {Leased, Running} \<and>
    ((case r_lease_expires_at r of Some exp \<Rightarrow> exp < now | None \<Rightarrow> False) \<or> r_updated_at r < cutoff)"

definition run_active :: "run_status \<Rightarrow> bool" where
  "run_active s \<longleftrightarrow> s \<in> {Leased, Dispatched, Running}"

definition filter_matches :: "run_filter \<Rightarrow> 'j job_run \<Rightarrow> bool" where
  "filter_matches f r \<longleftrightarrow>
    (case f_job_id f of Some jid \<Rightarrow> r_job_id r = jid | None \<Rightarrow> True) \<and>
    (case f_status f of Some st \<Rightarrow> r_status r = st | None \<Rightarrow> True)"

text \<open>The fields a patch names are replaced, and the update is stamped.\<close>

definition apply_patch :: "time \<Rightarrow> 'j run_patch \<Rightarrow> 'j job_run \<Rightarrow> 'j job_run" where
  "apply_patch now p r = r\<lparr>
     r_status := case_option (r_status r) id (p_status p),
     r_attempt := case_option (r_attempt r) id (p_attempt p),
     r_lease_owner := case_option (r_lease_owner r) Some (p_lease_owner p),
     r_lease_expires_at := case_option (r_lease_expires_at r) Some (p_lease_expires_at p),
     r_dispatched_at := case_option (r_dispatched_at r) Some (p_dispatched_at p),
     r_started_at := case_option (r_started_at r) Some (p_started_at p),
     r_heartbeat_at := case_option (r_heartbeat_at r) Some (p_heartbeat_at p),
     r_finished_at := case_option (r_finished_at r) Some (p_finished_at p),
     r_output_json := case_option (r_output_json r) Some (p_output_json p),
     r_error_json := case_option (r_error_json r) Some (p_error_json p),
     r_updated_at := now\<rparr>"

text \<open>
  Values a store can keep: a representation may restrict the timestamps and the JSON payloads
  it can hold (\<open>okt\<close>, \<open>okv\<close>); these lift the restriction to the records.
\<close>

definition opt_ok :: "('a \<Rightarrow> bool) \<Rightarrow> 'a option \<Rightarrow> bool" where
  "opt_ok P x = (case x of Some v \<Rightarrow> P v | None \<Rightarrow> True)"

lemma opt_ok_simps [simp]: "opt_ok P None" "opt_ok P (Some v) = P v"
  by (simp_all add: opt_ok_def)

lemma opt_ok_True [simp]: "opt_ok (\<lambda>_. True) x"
  by (cases x) simp_all

definition run_ok :: "(time \<Rightarrow> bool) \<Rightarrow> ('j \<Rightarrow> bool) \<Rightarrow> 'j job_run \<Rightarrow> bool" where
  "run_ok okt okv r \<longleftrightarrow> okt (r_scheduled_for r) \<and> opt_ok okt (r_lease_expires_at r) \<and>
    opt_ok okt (r_dispatched_at r) \<and> opt_ok okt (r_started_at r) \<and> opt_ok okt (r_heartbeat_at r) \<and>
    opt_ok okt (r_finished_at r) \<and> opt_ok okv (r_input_json r) \<and> opt_ok okv (r_output_json r) \<and>
    opt_ok okv (r_error_json r) \<and> okt (r_created_at r) \<and> okt (r_updated_at r)"

definition patch_ok :: "(time \<Rightarrow> bool) \<Rightarrow> ('j \<Rightarrow> bool) \<Rightarrow> 'j run_patch \<Rightarrow> bool" where
  "patch_ok okt okv p \<longleftrightarrow> opt_ok okt (p_lease_expires_at p) \<and>
    opt_ok okt (p_dispatched_at p) \<and> opt_ok okt (p_started_at p) \<and> opt_ok okt (p_heartbeat_at p) \<and>
    opt_ok okt (p_finished_at p) \<and> opt_ok okv (p_output_json p) \<and> opt_ok okv (p_error_json p)"

definition schedule_ok :: "(time \<Rightarrow> bool) \<Rightarrow> schedule \<Rightarrow> bool" where
  "schedule_ok okt s = (case s of Once t \<Rightarrow> okt t | _ \<Rightarrow> True)"

definition executor_ok :: "('j \<Rightarrow> bool) \<Rightarrow> 'j executor_spec \<Rightarrow> bool" where
  "executor_ok okv x = (case x of ClaudeTask _ v \<Rightarrow> opt_ok okv v | _ \<Rightarrow> True)"

definition job_ok :: "(time \<Rightarrow> bool) \<Rightarrow> ('j \<Rightarrow> bool) \<Rightarrow> 'j leyla_job \<Rightarrow> bool" where
  "job_ok okt okv j \<longleftrightarrow> schedule_ok okt (j_schedule j) \<and> executor_ok okv (j_executor j) \<and>
    okv (j_metadata j) \<and> opt_ok okt (j_next_run_at j) \<and> opt_ok okt (j_last_run_at j) \<and>
    opt_ok okt (j_last_success_at j) \<and> opt_ok okt (j_last_failure_at j) \<and>
    okt (j_created_at j) \<and> okt (j_updated_at j)"

lemma run_ok_True [simp]: "run_ok (\<lambda>_. True) (\<lambda>_. True) r"
  by (simp add: run_ok_def)

lemma patch_ok_True [simp]: "patch_ok (\<lambda>_. True) (\<lambda>_. True) p"
  by (simp add: patch_ok_def)

lemma job_ok_True [simp]: "job_ok (\<lambda>_. True) (\<lambda>_. True) j"
  by (auto simp: job_ok_def schedule_ok_def executor_ok_def split: schedule.splits executor_spec.splits)

lemma apply_patch_ok:
  "run_ok okt okv r \<Longrightarrow> patch_ok okt okv p \<Longrightarrow> okt t \<Longrightarrow> run_ok okt okv (apply_patch t p r)"
  by (auto simp: run_ok_def patch_ok_def apply_patch_def split: option.splits)

lemma lease_run_ok:
  "run_ok okt okv r \<Longrightarrow> okt now \<Longrightarrow> okt exp \<Longrightarrow> run_ok okt okv (lease_run now owner exp r)"
  by (simp add: run_ok_def lease_run_def)

lemma apply_patch_simps [simp]:
  "r_run_id (apply_patch t p r) = r_run_id r" "r_job_id (apply_patch t p r) = r_job_id r"
  "r_scheduled_for (apply_patch t p r) = r_scheduled_for r"
  "r_max_attempts (apply_patch t p r) = r_max_attempts r"
  "r_status (apply_patch t p r) = case_option (r_status r) id (p_status p)"
  "r_attempt (apply_patch t p r) = case_option (r_attempt r) id (p_attempt p)"
  "r_created_at (apply_patch t p r) = r_created_at r"
  "r_updated_at (apply_patch t p r) = t"
  "r_finished_at (apply_patch t p r) = case_option (r_finished_at r) Some (p_finished_at p)"
  by (simp_all add: apply_patch_def)

lemma lease_run_simps [simp]:
  "r_run_id (lease_run t ow e r) = r_run_id r" "r_job_id (lease_run t ow e r) = r_job_id r"
  "r_status (lease_run t ow e r) = Leased" "r_attempt (lease_run t ow e r) = r_attempt r"
  "r_max_attempts (lease_run t ow e r) = r_max_attempts r"
  "r_lease_owner (lease_run t ow e r) = Some ow" "r_lease_expires_at (lease_run t ow e r) = Some e"
  by (simp_all add: lease_run_def)

text \<open>Leasing the runs of a set of keys.\<close>

definition lease_keys :: "time \<Rightarrow> string \<Rightarrow> time \<Rightarrow> string set \<Rightarrow> 'j store_view \<Rightarrow> 'j store_view" where
  "lease_keys now owner exp K v = v\<lparr>v_runs := \<lambda>k.
     if k \<in> K then map_option (lease_run now owner exp) (v_runs v k) else v_runs v k\<rparr>"

lemma lease_keys_simps [simp]:
  "v_jobs (lease_keys now ow e K v) = v_jobs v" "v_dead (lease_keys now ow e K v) = v_dead v"
  "v_runs (lease_keys now ow e K v) k =
    (if k \<in> K then map_option (lease_run now ow e) (v_runs v k) else v_runs v k)"
  by (simp_all add: lease_keys_def)

subsection \<open>The laws of the interface\<close>

text \<open>
  \<open>invar\<close> is the representation invariant of an implementation, \<open>view\<close> its abstraction.
  The laws are total: under the invariant an operation returns the stated outcome, and the
  state it leaves satisfies the invariant and has the stated view.
\<close>

locale leyla_store =
  fixes S :: "('s, 'j) store_ops"
    and E :: "'j ext"
    and invar :: "'s \<Rightarrow> bool"
    and view :: "'s \<Rightarrow> 'j store_view"
    and okt :: "time \<Rightarrow> bool"
    and okv :: "'j \<Rightarrow> bool"
    and okn :: "nat \<Rightarrow> bool"
  assumes view_finite: "invar s \<Longrightarrow> finite (dom (v_runs (view s)))"
    and view_run_key: "invar s \<Longrightarrow> v_runs (view s) k = Some r \<Longrightarrow> x_uuid_str E (r_run_id r) = k"
    and view_run_ok: "invar s \<Longrightarrow> v_runs (view s) k = Some r \<Longrightarrow> run_ok okt okv r"
    and view_job_key: "invar s \<Longrightarrow> v_jobs (view s) k = Some j \<Longrightarrow> j_id j = k"
    and view_job_ok: "invar s \<Longrightarrow> v_jobs (view s) k = Some j \<Longrightarrow> job_ok okt okv j"
    and upsert_job_law: "invar s \<Longrightarrow> job_ok okt okv j \<Longrightarrow>
      \<exists>s'. op_upsert_job S j s = (Ok (), s') \<and> invar s' \<and>
        view s' = (view s)\<lparr>v_jobs := (v_jobs (view s))(j_id j \<mapsto> j)\<rparr>"
    and get_job_law: "invar s \<Longrightarrow> op_get_job S k s =
      (case v_jobs (view s) k of Some j \<Rightarrow> Ok j | None \<Rightarrow> Err (NotFound k), s)"
    and list_jobs_law: "invar s \<Longrightarrow> \<exists>js. op_list_jobs S s = (Ok js, s) \<and>
      distinct (map j_id js) \<and> set js = ran (v_jobs (view s))"
    and remove_job_None: "invar s \<Longrightarrow> v_jobs (view s) k = None \<Longrightarrow>
      op_remove_job S k s = (Err (NotFound k), s)"
    and remove_job_Some: "invar s \<Longrightarrow> v_jobs (view s) k = Some j \<Longrightarrow>
      \<exists>s'. op_remove_job S k s = (Ok (), s') \<and> invar s' \<and>
        view s' = (view s)\<lparr>v_jobs := (v_jobs (view s))(k := None)\<rparr>"
    and insert_run_Some: "invar s \<Longrightarrow> v_runs (view s) (x_uuid_str E (r_run_id r)) = Some r' \<Longrightarrow>
      op_insert_run S r s = (Err (Conflict (x_uuid_str E (r_run_id r))), s)"
    and insert_run_None: "invar s \<Longrightarrow> run_ok okt okv r \<Longrightarrow>
      v_runs (view s) (x_uuid_str E (r_run_id r)) = None \<Longrightarrow>
      \<exists>s'. op_insert_run S r s = (Ok (), s') \<and> invar s' \<and>
        view s' = (view s)\<lparr>v_runs := (v_runs (view s))(x_uuid_str E (r_run_id r) \<mapsto> r)\<rparr>"
    and claim_law: "invar s \<Longrightarrow> okn limit \<Longrightarrow> okt now \<Longrightarrow>
      x_dt_add E now (30 * nanos_per_sec) = Some exp \<Longrightarrow> okt exp \<Longrightarrow>
      \<exists>ks s'. op_claim_due_runs S now owner limit s =
          (Ok (map (\<lambda>k. lease_run now owner exp (the (v_runs (view s) k))) ks), s') \<and>
        invar s' \<and> distinct ks \<and> set ks \<subseteq> due_keys now (view s) \<and>
        length ks = min limit (card (due_keys now (view s))) \<and>
        view s' = lease_keys now owner exp (set ks) (view s)"
    and update_run_None: "invar s \<Longrightarrow> v_runs (view s) k = None \<Longrightarrow>
      op_update_run S now k p s = (Err (NotFound k), s)"
    and update_run_Some: "invar s \<Longrightarrow> v_runs (view s) k = Some r \<Longrightarrow> p \<noteq> run_patch_default \<Longrightarrow>
      patch_ok okt okv p \<Longrightarrow> okt now \<Longrightarrow>
      \<exists>s'. op_update_run S now k p s = (Ok (), s') \<and> invar s' \<and>
        view s' = (view s)\<lparr>v_runs := (v_runs (view s))(k \<mapsto> apply_patch now p r)\<rparr>"
    and get_run_law: "invar s \<Longrightarrow> op_get_run S k s =
      (case v_runs (view s) k of Some r \<Rightarrow> Ok r | None \<Rightarrow> Err (NotFound k), s)"
    and list_runs_law: "invar s \<Longrightarrow> \<exists>rs. op_list_runs S f s =
        (Ok (case f_limit f of Some n \<Rightarrow> take (unat n) rs | None \<Rightarrow> rs), s) \<and>
      distinct (map r_run_id rs) \<and> set rs = {r \<in> ran (v_runs (view s)). filter_matches f r} \<and>
      sorted_wrt (\<lambda>a b. r_created_at b \<le> r_created_at a) rs"
    and stale_runs_law: "invar s \<Longrightarrow> okt now \<Longrightarrow> x_td_from_std E thr = Inr d \<Longrightarrow>
      x_dt_sub E now d = Some cutoff \<Longrightarrow> okt cutoff \<Longrightarrow>
      \<exists>rs. op_get_stale_runs S now thr s = (Ok rs, s) \<and> distinct (map r_run_id rs) \<and>
        set rs = {r \<in> ran (v_runs (view s)). run_stale now cutoff r}"
    and stale_runs_Inl: "invar s \<Longrightarrow> x_td_from_std E thr = Inl e \<Longrightarrow>
      op_get_stale_runs S now thr s = (Err (Internal e), s)"
    and dead_letters_law: "invar s \<Longrightarrow> \<exists>ds. op_get_dead_letters S s = (Ok ds, s) \<and>
      mset ds = mset (v_dead (view s))"
    and count_active_law: "invar s \<Longrightarrow> op_count_active_runs S jid s =
      (Ok (card {k. \<exists>r. v_runs (view s) k = Some r \<and> r_job_id r = jid \<and> run_active (r_status r)}), s)"
    and migrate_law: "invar s \<Longrightarrow> op_migrate S s = (Ok (), s)"
begin

lemma due_keys_finite: "invar s \<Longrightarrow> finite (due_keys now (view s))"
  by (rule finite_subset [OF _ view_finite]) (auto simp: due_keys_def)

text \<open>Whatever a key lookup finds after an insertion is what the insertion stored.\<close>

lemma insert_then_get:
  assumes "invar s" "run_ok okt okv r" "v_runs (view s) (x_uuid_str E (r_run_id r)) = None"
  shows "\<exists>s'. op_insert_run S r s = (Ok (), s') \<and>
    op_get_run S (x_uuid_str E (r_run_id r)) s' = (Ok r, s') \<and>
    op_insert_run S r s' = (Err (Conflict (x_uuid_str E (r_run_id r))), s')"
  using insert_run_None [OF assms]
  by (auto simp: get_run_law insert_run_Some)

text \<open>A run that one claim returned is not due any more.\<close>

lemma claim_disjoint:
  assumes "invar s" "okn n" "okn n'" "okt now" "x_dt_add E now (30 * nanos_per_sec) = Some exp" "okt exp"
    and "okt now'" "x_dt_add E now' (30 * nanos_per_sec) = Some exp'" "okt exp'"
  shows "\<exists>rs s' rs' s''. op_claim_due_runs S now owner n s = (Ok rs, s') \<and>
    op_claim_due_runs S now' owner' n' s' = (Ok rs', s'') \<and>
    r_run_id ` set rs \<inter> r_run_id ` set rs' = {}"
proof -
  obtain ks s' where 1: "op_claim_due_runs S now owner n s =
        (Ok (map (\<lambda>k. lease_run now owner exp (the (v_runs (view s) k))) ks), s')"
      "invar s'" "set ks \<subseteq> due_keys now (view s)" "view s' = lease_keys now owner exp (set ks) (view s)"
    using claim_law [OF assms(1,2,4-6)] by blast
  obtain ks' s'' where 2: "op_claim_due_runs S now' owner' n' s' =
        (Ok (map (\<lambda>k. lease_run now' owner' exp' (the (v_runs (view s') k))) ks'), s'')"
      "set ks' \<subseteq> due_keys now' (view s')"
    using claim_law [OF 1(2) assms(3,7-9)] by blast
  have "set ks \<inter> set ks' = {}"
    using 2(2) 1(3) by (auto simp: 1(4) due_keys_def run_due_def split: if_splits)
  moreover have "x_uuid_str E (r_run_id (the (v_runs (view s) k))) = k" if "k \<in> set ks" for k
    using that 1(3) view_run_key [OF assms(1)] by (auto simp: due_keys_def)
  moreover have "x_uuid_str E (r_run_id (the (v_runs (view s') k))) = k" if "k \<in> set ks'" for k
    using that 2(2) view_run_key [OF 1(2)] by (auto simp: due_keys_def)
  ultimately have "r_run_id ` set (map (\<lambda>k. lease_run now owner exp (the (v_runs (view s) k))) ks) \<inter>
      r_run_id ` set (map (\<lambda>k. lease_run now' owner' exp' (the (v_runs (view s') k))) ks') = {}"
    by (auto simp: disjoint_iff image_iff) metis
  with 1(1) 2(1) show ?thesis by blast
qed

end

end
