(* ===== verification/Memory_Store.thy ===== *)
theory Memory_Store
  imports Leyla_Store
begin

section \<open>The in-memory store (leyla-core/src/store/memory.rs)\<close>

text \<open>
  \<open>MemoryStore\<close>: three hash maps behind one mutex. Every method locks, works on the maps and
  unlocks; a panic on the way poisons the mutex for good. \<open>slice::sort_by_key\<close> and
  \<open>slice::sort_by\<close> are stable, as \<open>sort_key\<close> is. The last part interprets the interface
  locale on these definitions.
\<close>

record 'j inner =
  jobs :: "(string \<times> 'j leyla_job) list"
  runs :: "(string \<times> 'j job_run) list"
  dead_letters :: "(string \<times> 'j dead_letter) list"

type_synonym 'j memory_store = "'j inner mutex"

definition memory_store_new :: "'j memory_store" where
  "memory_store_new = new_mutex \<lparr>jobs = [], runs = [], dead_letters = []\<rparr>"

definition mem_upsert_job :: "'j leyla_job \<Rightarrow> ('j memory_store, store_error, unit) prog" where
  "mem_upsert_job job = with_lock (\<lambda>g. (Ok (), g\<lparr>jobs := hm_insert (j_id job) job (jobs g)\<rparr>))"

definition mem_get_job :: "string \<Rightarrow> ('j memory_store, store_error, 'j leyla_job) prog" where
  "mem_get_job job_id = with_lock (\<lambda>g.
    (case map_of (jobs g) job_id of Some j \<Rightarrow> Ok j | None \<Rightarrow> Err (NotFound job_id), g))"

definition mem_list_jobs :: "('j memory_store, store_error, 'j leyla_job list) prog" where
  "mem_list_jobs = with_lock (\<lambda>g. (Ok (sort_key j_created_at (hm_values (jobs g))), g))"

definition mem_remove_job :: "string \<Rightarrow> ('j memory_store, store_error, unit) prog" where
  "mem_remove_job job_id = with_lock (\<lambda>g.
    if map_of (jobs g) job_id = None then (Err (NotFound job_id), g)
    else (Ok (), g\<lparr>jobs := hm_remove job_id (jobs g)\<rparr>))"

definition mem_insert_run :: "'j ext \<Rightarrow> 'j job_run \<Rightarrow> ('j memory_store, store_error, unit) prog" where
  "mem_insert_run E run = with_lock (\<lambda>g.
    let key = x_uuid_str E (r_run_id run)
    in if map_of (runs g) key \<noteq> None then (Err (Conflict key), g)
       else (Ok (), g\<lparr>runs := hm_insert key run (runs g)\<rparr>))"

fun claim_each ::
  "time \<Rightarrow> string \<Rightarrow> time \<Rightarrow> string list \<Rightarrow> (string \<times> 'j job_run) list \<Rightarrow> 'j job_run list
    \<Rightarrow> (string \<times> 'j job_run) list \<times> 'j job_run list" where
  "claim_each now owner exp [] rs claimed = (rs, claimed)"
| "claim_each now owner exp (rid # ids) rs claimed =
    (case map_of rs rid of
       Some run \<Rightarrow>
         (let run' = run\<lparr>r_status := Leased, r_lease_owner := Some owner,
                r_lease_expires_at := Some exp, r_updated_at := now\<rparr>
          in claim_each now owner exp ids (hm_insert rid run' rs) (claimed @ [run']))
     | None \<Rightarrow> claim_each now owner exp ids rs claimed)"

definition mem_claim_due_runs ::
  "'j ext \<Rightarrow> time \<Rightarrow> string \<Rightarrow> nat \<Rightarrow> ('j memory_store, store_error, 'j job_run list) prog" where
  "mem_claim_due_runs E now owner limit = with_lock (\<lambda>g.
    case x_dt_add E now (30 * nanos_per_sec) of
      None \<Rightarrow> (Panic, g)
    | Some lease_expires_at \<Rightarrow>
        (let due_ids = map (\<lambda>r. x_uuid_str E (r_run_id r))
               (take limit (filter (\<lambda>r. r_status r = Scheduled \<and> r_scheduled_for r \<le> now)
                 (hm_values (runs g))));
             (rs, claimed) = claim_each now owner lease_expires_at due_ids (runs g) []
         in (Ok claimed, g\<lparr>runs := rs\<rparr>)))"

text \<open>The chain of \<open>if let Some(v) = patch.f { run.f = .. }\<close>, in the source's order.\<close>

definition mem_patch_run :: "time \<Rightarrow> 'j run_patch \<Rightarrow> 'j job_run \<Rightarrow> 'j job_run" where
  "mem_patch_run now patch run =
    (let run = (case p_status patch of Some v \<Rightarrow> run\<lparr>r_status := v\<rparr> | None \<Rightarrow> run);
         run = (case p_lease_owner patch of Some v \<Rightarrow> run\<lparr>r_lease_owner := Some v\<rparr> | None \<Rightarrow> run);
         run = (case p_lease_expires_at patch of
                  Some v \<Rightarrow> run\<lparr>r_lease_expires_at := Some v\<rparr> | None \<Rightarrow> run);
         run = (case p_dispatched_at patch of Some v \<Rightarrow> run\<lparr>r_dispatched_at := Some v\<rparr> | None \<Rightarrow> run);
         run = (case p_started_at patch of Some v \<Rightarrow> run\<lparr>r_started_at := Some v\<rparr> | None \<Rightarrow> run);
         run = (case p_heartbeat_at patch of Some v \<Rightarrow> run\<lparr>r_heartbeat_at := Some v\<rparr> | None \<Rightarrow> run);
         run = (case p_finished_at patch of Some v \<Rightarrow> run\<lparr>r_finished_at := Some v\<rparr> | None \<Rightarrow> run);
         run = (case p_attempt patch of Some v \<Rightarrow> run\<lparr>r_attempt := v\<rparr> | None \<Rightarrow> run);
         run = (case p_output_json patch of Some v \<Rightarrow> run\<lparr>r_output_json := Some v\<rparr> | None \<Rightarrow> run);
         run = (case p_error_json patch of Some v \<Rightarrow> run\<lparr>r_error_json := Some v\<rparr> | None \<Rightarrow> run)
     in run\<lparr>r_updated_at := now\<rparr>)"

definition mem_update_run ::
  "time \<Rightarrow> string \<Rightarrow> 'j run_patch \<Rightarrow> ('j memory_store, store_error, unit) prog" where
  "mem_update_run utc_now run_id patch = with_lock (\<lambda>g.
    case map_of (runs g) run_id of
      None \<Rightarrow> (Err (NotFound run_id), g)
    | Some run \<Rightarrow> (Ok (), g\<lparr>runs := hm_insert run_id (mem_patch_run utc_now patch run) (runs g)\<rparr>))"

definition mem_get_run :: "string \<Rightarrow> ('j memory_store, store_error, 'j job_run) prog" where
  "mem_get_run run_id = with_lock (\<lambda>g.
    (case map_of (runs g) run_id of Some r \<Rightarrow> Ok r | None \<Rightarrow> Err (NotFound run_id), g))"

definition mem_list_runs :: "run_filter \<Rightarrow> ('j memory_store, store_error, 'j job_run list) prog" where
  "mem_list_runs f = with_lock (\<lambda>g.
    let matching = filter (\<lambda>r.
          (case f_job_id f of Some jid \<Rightarrow> r_job_id r = jid | None \<Rightarrow> True) \<and>
          (case f_status f of Some st \<Rightarrow> r_status r = st | None \<Rightarrow> True)) (hm_values (runs g));
        sorted = sort_key (\<lambda>r. - r_created_at r) matching
    in (Ok (case f_limit f of
              Some limit \<Rightarrow> if unat limit < length sorted then take (unat limit) sorted else sorted
            | None \<Rightarrow> sorted), g))"

definition mem_get_stale_runs ::
  "'j ext \<Rightarrow> time \<Rightarrow> nat \<Rightarrow> ('j memory_store, store_error, 'j job_run list) prog" where
  "mem_get_stale_runs E now stale_threshold = with_lock (\<lambda>g.
    case x_td_from_std E stale_threshold of
      Inl e \<Rightarrow> (Err (Internal e), g)
    | Inr threshold \<Rightarrow>
        (case x_dt_sub E now threshold of
           None \<Rightarrow> (Panic, g)
         | Some cutoff \<Rightarrow>
             (Ok (filter (\<lambda>r.
                 if r_status r \<notin> {Leased, Running} then False
                 else (case r_lease_expires_at r of Some exp \<Rightarrow> exp < now | None \<Rightarrow> False)
                   \<or> r_updated_at r < cutoff) (hm_values (runs g))), g)))"

definition mem_get_dead_letters :: "('j memory_store, store_error, 'j dead_letter list) prog" where
  "mem_get_dead_letters =
    with_lock (\<lambda>g. (Ok (sort_key d_created_at (hm_values (dead_letters g))), g))"

definition mem_count_active_runs :: "string \<Rightarrow> ('j memory_store, store_error, nat) prog" where
  "mem_count_active_runs job_id = with_lock (\<lambda>g.
    (Ok (length (filter (\<lambda>r. r_job_id r = job_id \<and> r_status r \<in> {Leased, Dispatched, Running})
       (hm_values (runs g)))), g))"

definition mem_migrate :: "('j memory_store, store_error, unit) prog" where
  "mem_migrate = ret ()"

definition memory_ops :: "'j ext \<Rightarrow> ('j memory_store, 'j) store_ops" where
  "memory_ops E =
    \<lparr>op_upsert_job = mem_upsert_job, op_get_job = mem_get_job, op_list_jobs = mem_list_jobs,
     op_remove_job = mem_remove_job, op_insert_run = mem_insert_run E,
     op_claim_due_runs = mem_claim_due_runs E, op_update_run = mem_update_run,
     op_get_run = mem_get_run, op_list_runs = mem_list_runs,
     op_get_stale_runs = mem_get_stale_runs E, op_get_dead_letters = mem_get_dead_letters,
     op_count_active_runs = mem_count_active_runs, op_migrate = mem_migrate\<rparr>"

lemma memory_ops_simps [simp]:
  "op_upsert_job (memory_ops E) = mem_upsert_job" "op_get_job (memory_ops E) = mem_get_job"
  "op_list_jobs (memory_ops E) = mem_list_jobs" "op_remove_job (memory_ops E) = mem_remove_job"
  "op_insert_run (memory_ops E) = mem_insert_run E"
  "op_claim_due_runs (memory_ops E) = mem_claim_due_runs E"
  "op_update_run (memory_ops E) = mem_update_run" "op_get_run (memory_ops E) = mem_get_run"
  "op_list_runs (memory_ops E) = mem_list_runs"
  "op_get_stale_runs (memory_ops E) = mem_get_stale_runs E"
  "op_get_dead_letters (memory_ops E) = mem_get_dead_letters"
  "op_count_active_runs (memory_ops E) = mem_count_active_runs"
  "op_migrate (memory_ops E) = mem_migrate"
  by (simp_all add: memory_ops_def)

subsection \<open>Representation invariant and abstraction\<close>

definition mem_inv :: "'j ext \<Rightarrow> 'j memory_store \<Rightarrow> bool" where
  "mem_inv E m \<longleftrightarrow> \<not> poisoned m \<and> hm_ok (jobs (guarded m)) \<and> hm_ok (runs (guarded m)) \<and>
    list_all (\<lambda>(k, j). j_id j = k) (jobs (guarded m)) \<and>
    list_all (\<lambda>(k, r). x_uuid_str E (r_run_id r) = k) (runs (guarded m))"

definition mem_view :: "'j memory_store \<Rightarrow> 'j store_view" where
  "mem_view m = \<lparr>v_jobs = map_of (jobs (guarded m)), v_runs = map_of (runs (guarded m)),
     v_dead = hm_values (dead_letters (guarded m))\<rparr>"

lemma mem_inv_new: "mem_inv E memory_store_new"
  by (simp add: mem_inv_def memory_store_new_def)

lemma mem_view_new: "mem_view memory_store_new = \<lparr>v_jobs = Map.empty, v_runs = Map.empty, v_dead = []\<rparr>"
  by (simp add: mem_view_def memory_store_new_def)

lemma patch_field:
  "(case x0 of Some v \<Rightarrow> run\<lparr>r_status := v\<rparr> | None \<Rightarrow> run) =
    run\<lparr>r_status := case_option (r_status run) id x0\<rparr>"
  "(case x1 of Some v \<Rightarrow> run\<lparr>r_lease_owner := Some v\<rparr> | None \<Rightarrow> run) =
    run\<lparr>r_lease_owner := case_option (r_lease_owner run) Some x1\<rparr>"
  "(case x2 of Some v \<Rightarrow> run\<lparr>r_lease_expires_at := Some v\<rparr> | None \<Rightarrow> run) =
    run\<lparr>r_lease_expires_at := case_option (r_lease_expires_at run) Some x2\<rparr>"
  "(case x3 of Some v \<Rightarrow> run\<lparr>r_dispatched_at := Some v\<rparr> | None \<Rightarrow> run) =
    run\<lparr>r_dispatched_at := case_option (r_dispatched_at run) Some x3\<rparr>"
  "(case x4 of Some v \<Rightarrow> run\<lparr>r_started_at := Some v\<rparr> | None \<Rightarrow> run) =
    run\<lparr>r_started_at := case_option (r_started_at run) Some x4\<rparr>"
  "(case x5 of Some v \<Rightarrow> run\<lparr>r_heartbeat_at := Some v\<rparr> | None \<Rightarrow> run) =
    run\<lparr>r_heartbeat_at := case_option (r_heartbeat_at run) Some x5\<rparr>"
  "(case x6 of Some v \<Rightarrow> run\<lparr>r_finished_at := Some v\<rparr> | None \<Rightarrow> run) =
    run\<lparr>r_finished_at := case_option (r_finished_at run) Some x6\<rparr>"
  "(case x7 of Some v \<Rightarrow> run\<lparr>r_attempt := v\<rparr> | None \<Rightarrow> run) =
    run\<lparr>r_attempt := case_option (r_attempt run) id x7\<rparr>"
  "(case x8 of Some v \<Rightarrow> run\<lparr>r_output_json := Some v\<rparr> | None \<Rightarrow> run) =
    run\<lparr>r_output_json := case_option (r_output_json run) Some x8\<rparr>"
  "(case x9 of Some v \<Rightarrow> run\<lparr>r_error_json := Some v\<rparr> | None \<Rightarrow> run) =
    run\<lparr>r_error_json := case_option (r_error_json run) Some x9\<rparr>"
  by (simp_all split: option.split)

lemma mem_patch_run_apply: "mem_patch_run now p r = apply_patch now p r"
  by (simp add: mem_patch_run_def apply_patch_def Let_def patch_field cong: option.case_cong)

lemma list_all_hm_insert:
  "list_all P xs \<Longrightarrow> P (k, v) \<Longrightarrow> list_all P (hm_insert k v xs)"
  by (induction xs) auto

lemma list_all_hm_remove: "list_all P xs \<Longrightarrow> list_all P (hm_remove k xs)"
  by (auto simp: list_all_iff AList.delete_eq)

lemma claim_each_correct:
  "distinct ks \<Longrightarrow> set ks \<subseteq> dom (map_of rs) \<Longrightarrow> hm_ok rs \<Longrightarrow>
    list_all (\<lambda>(k, r). x_uuid_str E (r_run_id r) = k) rs \<Longrightarrow>
    claim_each now owner exp ks rs cl = (rs', cl') \<Longrightarrow>
    cl' = cl @ map (\<lambda>k. lease_run now owner exp (the (map_of rs k))) ks \<and>
    map_of rs' = (\<lambda>k. if k \<in> set ks then map_option (lease_run now owner exp) (map_of rs k)
      else map_of rs k) \<and>
    hm_ok rs' \<and> list_all (\<lambda>(k, r). x_uuid_str E (r_run_id r) = k) rs'"
proof (induction ks arbitrary: rs cl)
  case Nil
  then show ?case by auto
next
  case (Cons k ks)
  from Cons.prems(2) obtain r where r: "map_of rs k = Some r" by auto
  let ?rs = "hm_insert k (lease_run now owner exp r) rs"
  have rk: "x_uuid_str E (r_run_id r) = k"
    using Cons.prems(4) map_of_SomeD [OF r] by (auto simp: list_all_iff)
  have step: "claim_each now owner exp ks ?rs (cl @ [lease_run now owner exp r]) = (rs', cl')"
    using Cons.prems(5) r by (simp add: Let_def lease_run_def)
  have "distinct ks" "set ks \<subseteq> dom (map_of ?rs)" "hm_ok ?rs"
    "list_all (\<lambda>(k, r). x_uuid_str E (r_run_id r) = k) ?rs"
    using Cons.prems rk by (auto intro: list_all_hm_insert)
  note IH = Cons.IH [OF this step]
  have "\<forall>x\<in>set ks. x \<noteq> k" using Cons.prems(1) by auto
  then have "map (\<lambda>x. lease_run now owner exp (the (map_of ?rs x))) ks
      = map (\<lambda>x. lease_run now owner exp (the (map_of rs x))) ks" by simp
  with IH r Cons.prems(1) show ?case by (auto simp: fun_eq_iff)
qed

subsection \<open>The laws of the interface hold\<close>

lemmas mem_unfold = mem_inv_def mem_view_def with_lock_def

lemma ran_map_of: "hm_ok xs \<Longrightarrow> ran (map_of xs) = snd ` set xs"
  by (simp add: ran_distinct)

text \<open>Filtering the values of the run map: distinct runs, exactly those that satisfy the test.\<close>

lemma mem_filter_runs:
  assumes "mem_inv E m"
  shows "distinct (map r_run_id (filter P (hm_values (runs (guarded m)))))"
    and "set (filter P (hm_values (runs (guarded m)))) = {r \<in> ran (v_runs (mem_view m)). P r}"
    and "distinct (map (\<lambda>r. x_uuid_str E (r_run_id r)) (filter P (hm_values (runs (guarded m)))))"
proof -
  have ok: "hm_ok (runs (guarded m))"
    and key: "\<And>k r. (k, r) \<in> set (runs (guarded m)) \<Longrightarrow> x_uuid_str E (r_run_id r) = k"
    using assms by (auto simp: mem_inv_def list_all_iff)
  show d: "distinct (map (\<lambda>r. x_uuid_str E (r_run_id r)) (filter P (hm_values (runs (guarded m)))))"
    by (rule filter_hm_values_distinct [OF ok]) (rule key)
  then have "distinct (map (x_uuid_str E) (map r_run_id (filter P (hm_values (runs (guarded m))))))"
    by (simp add: comp_def)
  then show "distinct (map r_run_id (filter P (hm_values (runs (guarded m)))))"
    by (simp only: distinct_map)
  show "set (filter P (hm_values (runs (guarded m)))) = {r \<in> ran (v_runs (mem_view m)). P r}"
    using ok by (auto simp: mem_view_def ran_map_of)
qed

lemma mem_claim_law:
  assumes "mem_inv E s" and "x_dt_add E now (30 * nanos_per_sec) = Some exp"
  shows "\<exists>ks s'. mem_claim_due_runs E now owner limit s =
      (Ok (map (\<lambda>k. lease_run now owner exp (the (v_runs (mem_view s) k))) ks), s') \<and>
    mem_inv E s' \<and> distinct ks \<and> set ks \<subseteq> due_keys now (mem_view s) \<and>
    length ks = min limit (card (due_keys now (mem_view s))) \<and>
    mem_view s' = lease_keys now owner exp (set ks) (mem_view s)"
proof -
  let ?g = "guarded s"
  let ?due = "filter (\<lambda>r. r_status r = Scheduled \<and> r_scheduled_for r \<le> now) (hm_values (runs ?g))"
  define ks where "ks = map (\<lambda>r. x_uuid_str E (r_run_id r)) (take limit ?due)"
  obtain rs cl where c: "claim_each now owner exp ks (runs ?g) [] = (rs, cl)" by force
  have ok: "hm_ok (runs ?g)" "list_all (\<lambda>(k, r). x_uuid_str E (r_run_id r) = k) (runs ?g)"
    using assms(1) by (auto simp: mem_inv_def)
  have dist: "distinct ks"
    using mem_filter_runs(3) [OF assms(1)] by (simp add: ks_def distinct_map_filter flip: take_map)
  have due: "set ks \<subseteq> due_keys now (mem_view s)"
  proof
    fix k assume "k \<in> set ks"
    then obtain r where "r \<in> set ?due" "k = x_uuid_str E (r_run_id r)"
      by (auto simp: ks_def dest: in_set_takeD)
    then obtain k' where k': "(k', r) \<in> set (runs ?g)" and due: "run_due now r"
      by (auto simp: run_due_def)
    have "k' = k" using ok(2) k' \<open>k = _\<close> by (auto simp: list_all_iff)
    with k' have "map_of (runs ?g) k = Some r" using ok(1) by (simp add: map_of_is_SomeI)
    with due show "k \<in> due_keys now (mem_view s)"
      by (simp add: due_keys_def mem_view_def)
  qed
  have dom: "set ks \<subseteq> dom (map_of (runs ?g))"
    using due by (auto simp: due_keys_def mem_view_def)
  have "length ?due = card (due_keys now (mem_view s))"
    by (rule trans [OF length_filter_hm_values [OF ok(1)]])
      (simp add: due_keys_def run_due_def mem_view_def)
  then have len: "length ks = min limit (card (due_keys now (mem_view s)))"
    by (simp add: ks_def)
  note cl = claim_each_correct [OF dist dom ok c]
  define s' where "s' = s\<lparr>guarded := ?g\<lparr>runs := rs\<rparr>, poisoned := False\<rparr>"
  have run: "mem_claim_due_runs E now owner limit s = (Ok cl, s')"
    using assms c [unfolded ks_def]
    by (simp add: mem_claim_due_runs_def with_lock_def mem_inv_def Let_def s'_def)
  have inv: "mem_inv E s'" and v: "mem_view s' = lease_keys now owner exp (set ks) (mem_view s)"
    using cl assms(1) by (simp_all add: mem_inv_def mem_view_def s'_def lease_keys_def cong: if_cong)
  show ?thesis
    using run inv v dist due len cl by (intro exI [of _ ks] exI [of _ s']) (simp add: mem_view_def)
qed

lemma mem_list_runs_law:
  assumes "mem_inv E s"
  shows "\<exists>rs. mem_list_runs f s = (Ok (case f_limit f of Some n \<Rightarrow> take (unat n) rs | None \<Rightarrow> rs), s) \<and>
    distinct (map r_run_id rs) \<and> set rs = {r \<in> ran (v_runs (mem_view s)). filter_matches f r} \<and>
    sorted_wrt (\<lambda>a b. r_created_at b \<le> r_created_at a) rs"
proof -
  let ?ms = "filter (filter_matches f) (hm_values (runs (guarded s)))"
  let ?rs = "sort_key (\<lambda>r. - r_created_at r) ?ms"
  have "distinct (map r_run_id ?rs)"
    using mem_filter_runs(1) [OF assms] by (simp only: distinct_map_sort_key)
  moreover have "set ?rs = {r \<in> ran (v_runs (mem_view s)). filter_matches f r}"
    using mem_filter_runs(2) [OF assms] by (simp only: set_sort)
  moreover have "sorted (map (\<lambda>r. - r_created_at r) ?rs)" by (rule sorted_sort_key)
  then have "sorted_wrt (\<lambda>a b. r_created_at b \<le> r_created_at a) ?rs"
    by (simp add: sorted_map)
  moreover have "mem_list_runs f s =
      (Ok (case f_limit f of Some n \<Rightarrow> take (unat n) ?rs | None \<Rightarrow> ?rs), s)"
    using assms by (simp add: mem_list_runs_def with_lock_def mem_inv_def Let_def
        filter_matches_def [abs_def] split: option.split)
  ultimately show ?thesis by blast
qed

interpretation mem: leyla_store "memory_ops E" E "mem_inv E" mem_view "\<lambda>_. True" "\<lambda>_. True" "\<lambda>_. True" for E
proof (unfold_locales, unfold memory_ops_simps, goal_cases)
  case (1 s) then show ?case by (simp add: mem_view_def finite_dom_map_of)
next
  case (2 s k r) then show ?case
    by (auto simp: mem_view_def mem_inv_def list_all_iff dest: map_of_SomeD)
next
  case 3 then show ?case by simp
next
  case (4 s k j) then show ?case
    by (auto simp: mem_view_def mem_inv_def list_all_iff dest: map_of_SomeD)
next
  case 5 then show ?case by simp
next
  case (6 s j) then show ?case
    by (auto simp: mem_upsert_job_def mem_unfold list_all_hm_insert)
next
  case (7 s k) then show ?case
    by (auto simp: mem_get_job_def mem_unfold split: option.split)
next
  case (8 s)
  have "distinct (map j_id (filter (\<lambda>_. True) (hm_values (jobs (guarded s)))))"
    using 8 by (intro filter_hm_values_distinct) (auto simp: mem_inv_def list_all_iff)
  then have "distinct (map j_id (sort_key j_created_at (hm_values (jobs (guarded s)))))"
    by (simp add: distinct_map_sort_key)
  with 8 show ?case by (simp add: mem_list_jobs_def mem_unfold ran_map_of)
next
  case (9 s k) then show ?case by (simp add: mem_remove_job_def mem_unfold)
next
  case (10 s k j) then show ?case
    by (auto simp: mem_remove_job_def mem_unfold list_all_hm_remove)
next
  case (11 s r r') then show ?case by (auto simp: mem_insert_run_def mem_unfold Let_def)
next
  case (12 s r) then show ?case
    by (auto simp: mem_insert_run_def mem_unfold Let_def list_all_hm_insert)
next
  case (13 s now exp owner limit) then show ?case by (intro mem_claim_law)
next
  case (14 s k now p) then show ?case by (simp add: mem_update_run_def mem_unfold)
next
  case (15 s k r p now)
  then have "x_uuid_str E (r_run_id r) = k"
    by (auto simp: mem_view_def mem_inv_def list_all_iff dest: map_of_SomeD)
  with 15 show ?case
    by (auto simp: mem_update_run_def mem_unfold mem_patch_run_apply intro: list_all_hm_insert)
next
  case (16 s k) then show ?case
    by (auto simp: mem_get_run_def mem_unfold split: option.split)
next
  case (17 s f) then show ?case by (rule mem_list_runs_law)
next
  case (18 s now thr d cutoff)
  have stale: "(\<lambda>r. if r_status r \<notin> {Leased, Running} then False
      else (case r_lease_expires_at r of Some exp \<Rightarrow> exp < now | None \<Rightarrow> False)
        \<or> r_updated_at r < c) = run_stale now c" for c :: time
    by (auto simp: run_stale_def fun_eq_iff)
  have "mem_get_stale_runs E now thr s =
      (Ok (filter (run_stale now cutoff) (hm_values (runs (guarded s)))), s)"
    unfolding mem_get_stale_runs_def stale using 18 by (simp add: with_lock_def mem_inv_def)
  then show ?case using mem_filter_runs [OF 18(1)] by blast
next
  case (19 s thr e now) then show ?case
    by (simp add: mem_get_stale_runs_def mem_unfold)
next
  case (20 s) then show ?case by (simp add: mem_get_dead_letters_def mem_unfold)
next
  case (21 s jid)
  then have "hm_ok (runs (guarded s))" by (simp add: mem_inv_def)
  note len = length_filter_hm_values [OF this]
  from 21 show ?case
    unfolding mem_count_active_runs_def with_lock_def mem_inv_def mem_view_def len
    by (simp add: run_active_def)
next
  case 22 then show ?case by (simp add: mem_migrate_def)
qed

subsection \<open>Properties\<close>

text \<open>The invariant of the data alone, which a panic that poisons the mutex leaves intact.\<close>

definition inner_ok :: "'j ext \<Rightarrow> 'j inner \<Rightarrow> bool" where
  "inner_ok E g \<longleftrightarrow> hm_ok (jobs g) \<and> hm_ok (runs g) \<and>
    list_all (\<lambda>(k, j). j_id j = k) (jobs g) \<and> list_all (\<lambda>(k, r). x_uuid_str E (r_run_id r) = k) (runs g)"

lemma mem_inv_inner: "mem_inv E m \<longleftrightarrow> \<not> poisoned m \<and> inner_ok E (guarded m)"
  by (simp add: mem_inv_def inner_ok_def)

lemma with_lock_keeps:
  "preserves (inner_ok E) f \<Longrightarrow> preserves (\<lambda>m. inner_ok E (guarded m)) (with_lock f)"
  by (auto simp: preserves_def with_lock_def split: prod.splits)

lemma claim_each_keeps:
  "hm_ok rs \<Longrightarrow> list_all (\<lambda>(k, r). x_uuid_str E (r_run_id r) = k) rs \<Longrightarrow>
    hm_ok (fst (claim_each now owner exp ids rs cl)) \<and>
    list_all (\<lambda>(k, r). x_uuid_str E (r_run_id r) = k) (fst (claim_each now owner exp ids rs cl))"
proof (induction ids arbitrary: rs cl)
  case Nil then show ?case by simp
next
  case (Cons i ids)
  show ?case
  proof (cases "map_of rs i")
    case None with Cons show ?thesis by simp
  next
    case (Some r)
    then have "x_uuid_str E (r_run_id r) = i"
      using Cons.prems(2) by (auto simp: list_all_iff dest: map_of_SomeD)
    with Some Cons show ?thesis by (simp add: Let_def list_all_hm_insert)
  qed
qed

lemma claim_each_fst:
  assumes "claim_each now owner exp ids rs cl = (rs', cl')" "hm_ok rs"
    and "list_all (\<lambda>(k, r). x_uuid_str E (r_run_id r) = k) rs"
  shows "hm_ok rs'" "list_all (\<lambda>(k, r). x_uuid_str E (r_run_id r) = k) rs'"
  using claim_each_keeps [OF assms(2,3), of now owner exp ids cl] by (simp_all add: assms(1))

text \<open>
  C24: Every operation of the memory store, whatever its arguments and however it ends (an
  error or a panic included), keeps the maps keyed: each job is stored once, under its own
  id, and each run once, under its run id.
\<close>
lemma memory_ops_keep_keys:
  "preserves (\<lambda>m. inner_ok E (guarded m)) (mem_upsert_job job) \<and>
   preserves (\<lambda>m. inner_ok E (guarded m)) (mem_get_job jid) \<and>
   preserves (\<lambda>m. inner_ok E (guarded m)) mem_list_jobs \<and>
   preserves (\<lambda>m. inner_ok E (guarded m)) (mem_remove_job jid) \<and>
   preserves (\<lambda>m. inner_ok E (guarded m)) (mem_insert_run E run) \<and>
   preserves (\<lambda>m. inner_ok E (guarded m)) (mem_claim_due_runs E now owner n) \<and>
   preserves (\<lambda>m. inner_ok E (guarded m)) (mem_update_run now rid patch) \<and>
   preserves (\<lambda>m. inner_ok E (guarded m)) (mem_get_run rid) \<and>
   preserves (\<lambda>m. inner_ok E (guarded m)) (mem_list_runs f) \<and>
   preserves (\<lambda>m. inner_ok E (guarded m)) (mem_get_stale_runs E now thr) \<and>
   preserves (\<lambda>m. inner_ok E (guarded m)) mem_get_dead_letters \<and>
   preserves (\<lambda>m. inner_ok E (guarded m)) (mem_count_active_runs jid) \<and>
   preserves (\<lambda>m. inner_ok E (guarded m)) mem_migrate"
proof (intro conjI)
  have upd: "inner_ok E (g\<lparr>runs := hm_insert rid (mem_patch_run now patch r) (runs g)\<rparr>)"
    if "inner_ok E g" "map_of (runs g) rid = Some r" for g r
  proof -
    have "x_uuid_str E (r_run_id r) = rid"
      using that by (auto simp: inner_ok_def list_all_iff dest: map_of_SomeD)
    with that(1) show ?thesis
      by (simp add: inner_ok_def mem_patch_run_apply list_all_hm_insert)
  qed
  show "preserves (\<lambda>m. inner_ok E (guarded m)) (mem_update_run now rid patch)"
    unfolding mem_update_run_def
    by (rule with_lock_keeps) (auto simp: preserves_def upd split: option.splits)
  show "preserves (\<lambda>m. inner_ok E (guarded m)) (mem_claim_due_runs E now owner n)"
    unfolding mem_claim_due_runs_def
    by (rule with_lock_keeps)
      (auto simp: preserves_def inner_ok_def Let_def split: option.splits prod.splits
        intro: claim_each_fst)
  show "preserves (\<lambda>m. inner_ok E (guarded m)) (mem_upsert_job job)"
    unfolding mem_upsert_job_def
    by (rule with_lock_keeps) (simp add: preserves_def inner_ok_def list_all_hm_insert)
  show "preserves (\<lambda>m. inner_ok E (guarded m)) (mem_remove_job jid)"
    unfolding mem_remove_job_def
    by (rule with_lock_keeps) (simp add: preserves_def inner_ok_def list_all_hm_remove)
  show "preserves (\<lambda>m. inner_ok E (guarded m)) (mem_insert_run E run)"
    unfolding mem_insert_run_def
    by (rule with_lock_keeps) (simp add: preserves_def inner_ok_def Let_def list_all_hm_insert)
qed (simp_all add: preserves_def with_lock_def mem_get_job_def mem_list_jobs_def mem_get_run_def
    mem_list_runs_def mem_get_stale_runs_def mem_get_dead_letters_def mem_count_active_runs_def
    mem_migrate_def Let_def split: option.splits sum.splits)

text \<open>
  A run inserted under a fresh id is what \<open>get_run\<close> then returns, and a second insertion
  under the same id is refused as a conflict and changes nothing.
\<close>
lemma memory_insert_get:
  assumes "mem_inv E m" "v_runs (mem_view m) (x_uuid_str E (r_run_id r)) = None"
  shows "\<exists>m'. mem_insert_run E r m = (Ok (), m') \<and>
    mem_get_run (x_uuid_str E (r_run_id r)) m' = (Ok r, m') \<and>
    mem_insert_run E r m' = (Err (Conflict (x_uuid_str E (r_run_id r))), m')"
  using mem.insert_then_get [OF assms(1) run_ok_True assms(2)] by simp

lemma memory_insert_get_witness:
  "\<exists>m'. mem_insert_run sample_ext (job_run_new_scheduled 0 1 ''a'' 7 3) memory_store_new = (Ok (), m') \<and>
    mem_get_run ''u'' m' = (Ok (job_run_new_scheduled 0 1 ''a'' 7 3), m')"
  using memory_insert_get [OF mem_inv_new, of sample_ext "job_run_new_scheduled 0 1 ''a'' 7 3"]
  by (auto simp: mem_view_new) (auto simp: sample_ext_def job_run_new_scheduled_def)

text \<open>
  \<open>list_runs\<close> returns the runs that match the filter, each once, newest first, cut to
  the limit when one is given; the store stays as it is.
\<close>
lemma memory_list_runs:
  assumes "mem_inv E m"
  shows "\<exists>rs. mem_list_runs f m =
      (Ok (case f_limit f of Some n \<Rightarrow> take (unat n) rs | None \<Rightarrow> rs), m) \<and>
    distinct (map r_run_id rs) \<and> set rs = {r \<in> ran (v_runs (mem_view m)). filter_matches f r} \<and>
    sorted_wrt (\<lambda>a b. r_created_at b \<le> r_created_at a) rs"
  using mem_list_runs_law [OF assms] .

lemma memory_list_runs_witness:
  "\<exists>rs. mem_list_runs run_filter_default (memory_store_new :: string memory_store) = (Ok rs, memory_store_new) \<and>
    rs = []"
  using memory_list_runs [OF mem_inv_new [of sample_ext], of run_filter_default]
  by (auto simp: mem_view_new run_filter_default_def)

text \<open>
  A claim whose lease would end outside chrono's range panics with the lock held: it
  changes no run, but it poisons the store, and from then on every operation panics.
\<close>
lemma memory_claim_poisons:
  assumes "\<not> poisoned m" "x_dt_add E now (30 * nanos_per_sec) = None"
  shows "\<exists>m'. mem_claim_due_runs E now owner n m = (Panic, m') \<and> guarded m' = guarded m \<and>
    mem_list_jobs m' = (Panic, m') \<and> mem_list_runs f m' = (Panic, m') \<and>
    mem_insert_run E r m' = (Panic, m') \<and> mem_upsert_job j m' = (Panic, m')"
  using assms
  by (simp add: mem_claim_due_runs_def mem_list_jobs_def mem_list_runs_def mem_insert_run_def
      mem_upsert_job_def with_lock_def)

lemma memory_claim_poisons_witness:
  "\<exists>m'. mem_claim_due_runs sample_ext (10 ^ 19) ''i'' 1 memory_store_new = (Panic, m') \<and>
    mem_list_jobs m' = (Panic, m')"
proof -
  have "\<not> poisoned (memory_store_new :: string memory_store)" by (simp add: memory_store_new_def)
  moreover have "x_dt_add sample_ext (10 ^ 19) (30 * nanos_per_sec) = None" by (simp add: sample_ext_def)
  ultimately show ?thesis using memory_claim_poisons by blast
qed

end
