(* ===== verification/Leyla_Clock.thy ===== *)
theory Leyla_Clock
  imports Leyla_Store
begin

section \<open>The running program's state and its clocks (leyla-core/src/clock.rs)\<close>

text \<open>
  \<open>sys\<close> is the state a program over a store \<open>'s\<close> works on: the store, what the environment
  will answer to each reading of \<open>Utc::now()\<close> and each draw of \<open>Uuid::new_v4()\<close>, the cell of
  the fake clock, the lines printed, and whether the engine's \<open>CancellationToken\<close> is cancelled. \<open>clock_now\<close> is the method of the trait \<open>Clock\<close> for
  its two implementations; the locale \<open>clock_source\<close> is what the schedulers rely on.
\<close>

record 's sys =
  db :: 's
  utc_src :: "nat \<Rightarrow> time"
  utc_idx :: nat
  uuid_src :: "nat \<Rightarrow> uuid"
  uuid_idx :: nat
  fake_clock :: "time mutex"
  stdout :: "string list"
  cancelled :: bool

definition utc_now :: "('s sys, 'e, time) prog" where
  "utc_now w = (Ok (utc_src w (utc_idx w)), w\<lparr>utc_idx := Suc (utc_idx w)\<rparr>)"

definition uuid_new_v4 :: "('s sys, 'e, uuid) prog" where
  "uuid_new_v4 w = (Ok (uuid_src w (uuid_idx w)), w\<lparr>uuid_idx := Suc (uuid_idx w)\<rparr>)"

definition on_db :: "('s, 'e, 'a) prog \<Rightarrow> ('s sys, 'e, 'a) prog" where
  "on_db m w = (case m (db w) of (r, d) \<Rightarrow> (r, w\<lparr>db := d\<rparr>))"

text \<open>\<open>store.update_run(id, patch)\<close>, with the reading of the system clock it makes.\<close>

definition store_update_run ::
  "('s, 'j) store_ops \<Rightarrow> string \<Rightarrow> 'j run_patch \<Rightarrow> ('s sys, store_error, unit) prog" where
  "store_update_run S run_id patch = andthen utc_now (\<lambda>t. on_db (op_update_run S t run_id patch))"

text \<open>\<open>JobRun::new_scheduled\<close> with its reading of the clock and its fresh identifier.\<close>

definition new_scheduled_run :: "string \<Rightarrow> time \<Rightarrow> u32 \<Rightarrow> ('s sys, 'e, 'j job_run) prog" where
  "new_scheduled_run job_id scheduled_for max_attempts =
    andthen utc_now (\<lambda>now. andthen uuid_new_v4 (\<lambda>u.
      ret (job_run_new_scheduled now u job_id scheduled_for max_attempts)))"

datatype clock = SystemClock | FakeClock

definition fake_clock_new :: "time \<Rightarrow> time mutex" where
  "fake_clock_new now = new_mutex now"

definition fake_clock_now :: "(time mutex, 'e, time) prog" where
  "fake_clock_now = with_lock (\<lambda>t. (Ok t, t))"

definition fake_clock_advance :: "'j ext \<Rightarrow> int \<Rightarrow> (time mutex, 'e, unit) prog" where
  "fake_clock_advance E delta = with_lock (\<lambda>t.
    case x_dt_add E t delta of Some u \<Rightarrow> (Ok (), u) | None \<Rightarrow> (Panic, t))"

definition fake_clock_set :: "time \<Rightarrow> (time mutex, 'e, unit) prog" where
  "fake_clock_set time = with_lock (\<lambda>t. (Ok (), time))"

definition clock_now :: "clock \<Rightarrow> ('s sys, 'e, time) prog" where
  "clock_now c = (case c of
      SystemClock \<Rightarrow> utc_now
    | FakeClock \<Rightarrow> (\<lambda>w. case fake_clock_now (fake_clock w) of (r, m) \<Rightarrow> (r, w\<lparr>fake_clock := m\<rparr>)))"

lemma utc_now_simp [simp]: "utc_now w = (Ok (utc_src w (utc_idx w)), w\<lparr>utc_idx := Suc (utc_idx w)\<rparr>)"
  by (simp add: utc_now_def)

lemma uuid_new_v4_simp [simp]:
  "uuid_new_v4 w = (Ok (uuid_src w (uuid_idx w)), w\<lparr>uuid_idx := Suc (uuid_idx w)\<rparr>)"
  by (simp add: uuid_new_v4_def)

lemma on_db_eq [outcome_simps]: "m (db w) = (r, d) \<Longrightarrow> on_db m w = (r, w\<lparr>db := d\<rparr>)"
  by (simp add: on_db_def)

lemma new_scheduled_run_simp [simp]:
  "new_scheduled_run jid t n w =
    (Ok (job_run_new_scheduled (utc_src w (utc_idx w)) (uuid_src w (uuid_idx w)) jid t n),
     w\<lparr>utc_idx := Suc (utc_idx w), uuid_idx := Suc (uuid_idx w)\<rparr>)"
  by (simp add: new_scheduled_run_def andthen_def)

lemma store_update_run_simp:
  "store_update_run S k p w =
    on_db (op_update_run S (utc_src w (utc_idx w)) k p) (w\<lparr>utc_idx := Suc (utc_idx w)\<rparr>)"
  by (simp add: store_update_run_def andthen_def)

lemma preserves_on_db: "preserves P m \<Longrightarrow> preserves (\<lambda>w. P (db w)) (on_db m)"
  by (auto simp: preserves_def on_db_def split: prod.splits)

lemma preserves_utc_now [preserve_intros]: "preserves (\<lambda>w. P (db w)) utc_now"
  by (simp add: preserves_def)

lemma preserves_uuid [preserve_intros]: "preserves (\<lambda>w. P (db w)) uuid_new_v4"
  by (simp add: preserves_def)

lemma andthen_clock:
  "clock_now c w = ((Ok t :: ('e, time) outcome), w1) \<Longrightarrow>
    andthen (clock_now c :: ('s sys, 'e, time) prog) f w = f t w1"
  by (rule andthen_Ok)

subsection \<open>What a scheduler relies on of its clock\<close>

locale clock_source =
  fixes now :: "('s sys, store_error, time) prog"
  assumes now_frame: "now w = (r, w') \<Longrightarrow>
      db w' = db w \<and> utc_src w' = utc_src w \<and> uuid_src w' = uuid_src w \<and>
      uuid_idx w' = uuid_idx w \<and> stdout w' = stdout w \<and> cancelled w' = cancelled w"
    and now_no_error: "\<not> is_Err (fst (now w))"
begin

text \<open>Reading the clock is invisible to the store: what holds of it before holds after.\<close>

lemma now_preserves: "preserves (\<lambda>w. P (db w)) now"
proof
  fix w :: "'s sys" assume "P (db w)"
  then show "P (db (snd (now w)))" using now_frame [of w "fst (now w)" "snd (now w)"] by simp
qed

end

interpretation clk: clock_source "clock_now c" for c
  by unfold_locales
    (auto simp: clock_now_def fake_clock_now_def with_lock_def split: clock.splits if_splits prod.splits)

subsection \<open>Properties\<close>

text \<open>
  The fake clock only moves when told to: a reading returns what \<open>new\<close> or \<open>set\<close> put
  there, \<open>advance\<close> adds the delta exactly when the sum is in chrono's range, and otherwise
  panics and poisons the clock, so that every later reading panics.
\<close>
lemma fake_clock_behaviour:
  assumes "chrono_exact E"
  shows "fake_clock_now (fake_clock_new t) = ((Ok t :: (unit, time) outcome), fake_clock_new t) \<and>
    (case x_dt_add E t d of
       Some u \<Rightarrow> fake_clock_advance E d (fake_clock_new t) = ((Ok () :: (unit, unit) outcome), fake_clock_new (t + d))
     | None \<Rightarrow> (\<exists>m. fake_clock_advance E d (fake_clock_new t) = ((Panic :: (unit, unit) outcome), m) \<and>
         fake_clock_now m = ((Panic :: (unit, time) outcome), m))) \<and>
    fake_clock_set u (fake_clock_new t) = ((Ok () :: (unit, unit) outcome), fake_clock_new u)"
  using chrono_exact_add [OF assms]
  by (auto simp: fake_clock_now_def fake_clock_new_def fake_clock_advance_def fake_clock_set_def
      with_lock_def new_mutex_def split: option.splits)

lemma fake_clock_behaviour_witness:
  "fake_clock_advance sample_ext 5 (fake_clock_new 100) =
    ((Ok () :: (unit, unit) outcome), fake_clock_new 105)"
  using fake_clock_behaviour [OF sample_ext_exact, of 100 5 0]
  by (simp add: sample_ext_def)

end
