(* ===== verification/Due_Runs.thy ===== *)
theory Due_Runs
  imports Leyla_Clock Memory_Store
begin

section \<open>Materialising due runs (leyla-core/src/scheduler/due.rs)\<close>

text \<open>
  \<open>compute_next_run\<close>, and the loop of \<open>DueRunMaterializer::materialize\<close> over the jobs of the
  store. The effect of a whole call is proved in the context of the store interface: one new
  run per due job, every due job advanced, nothing else touched.
\<close>

record ('s, 'j) due_run_materializer =
  dm_store :: "('s, 'j) store_ops"
  dm_clock :: clock

text \<open>\<open>*every_ms as i64\<close> reinterprets the \<open>u64\<close>: it is negative from \<open>2 ^ 63\<close> on.\<close>

definition compute_next_run :: "'j ext \<Rightarrow> schedule \<Rightarrow> time \<Rightarrow> ('e, time option) outcome" where
  "compute_next_run E sched after =
    (case sched of
       Manual \<Rightarrow> Ok None
     | Once _ \<Rightarrow> Ok None
     | Interval every _ \<Rightarrow>
         (case x_td_millis E (sint every) of
            None \<Rightarrow> Panic
          | Some delta \<Rightarrow>
              (case x_dt_add E after delta of None \<Rightarrow> Panic | Some t \<Rightarrow> Ok (Some t)))
     | Cron expression _ \<Rightarrow>
         (case x_cron_parse E expression of
            None \<Rightarrow> Ok None
          | Some f \<Rightarrow> Ok (f after)))"

text \<open>One turn of the loop: the four \<open>continue\<close>s, then insert, advance, store back.\<close>

definition materialize_job ::
  "'j ext \<Rightarrow> ('s, 'j) store_ops \<Rightarrow> time \<Rightarrow> 'j leyla_job \<Rightarrow> nat \<Rightarrow> ('s sys, store_error, nat) prog" where
  "materialize_job E S now job cnt =
    (if \<not> j_enabled job then ret cnt
     else if j_schedule job = Manual then ret cnt
     else case j_next_run_at job of
       None \<Rightarrow> ret cnt
     | Some next_run_at \<Rightarrow>
         (if now < next_run_at then ret cnt
          else
            andthen (new_scheduled_run (j_id job) next_run_at (rp_max_attempts (j_retry job))) (\<lambda>run.
            andthen (on_db (op_insert_run S run)) (\<lambda>_.
            andthen (lift_outcome (compute_next_run E (j_schedule job) now)) (\<lambda>nxt.
            andthen (on_db (op_upsert_job S
              (job\<lparr>j_next_run_at := nxt, j_last_run_at := Some now, j_updated_at := now\<rparr>))) (\<lambda>_.
            ret (cnt + 1)))))))"

definition materialize ::
  "'j ext \<Rightarrow> ('s, 'j) due_run_materializer \<Rightarrow> ('s sys, store_error, nat) prog" where
  "materialize E m =
    andthen (clock_now (dm_clock m)) (\<lambda>now.
    andthen (on_db (op_list_jobs (dm_store m))) (\<lambda>jobs.
    for_each (materialize_job E (dm_store m) now) jobs 0))"

subsection \<open>What a turn means\<close>

definition job_due :: "time \<Rightarrow> 'j leyla_job \<Rightarrow> bool" where
  "job_due now j \<longleftrightarrow> j_enabled j \<and> j_schedule j \<noteq> Manual \<and>
    (case j_next_run_at j of Some t \<Rightarrow> t \<le> now | None \<Rightarrow> False)"

definition next_run :: "'j ext \<Rightarrow> time \<Rightarrow> 'j leyla_job \<Rightarrow> time option" where
  "next_run E now j = ok_val (compute_next_run E (j_schedule j) now :: (unit, time option) outcome)"

definition advance_job :: "'j ext \<Rightarrow> time \<Rightarrow> 'j leyla_job \<Rightarrow> 'j leyla_job" where
  "advance_job E now j =
    j\<lparr>j_next_run_at := next_run E now j, j_last_run_at := Some now, j_updated_at := now\<rparr>"

text \<open>The next run of a due job can be computed, and its time can be stored.\<close>

definition advances :: "'j ext \<Rightarrow> (time \<Rightarrow> bool) \<Rightarrow> time \<Rightarrow> 'j leyla_job \<Rightarrow> bool" where
  "advances E okt now j \<longleftrightarrow>
    is_Ok (compute_next_run E (j_schedule j) now :: (unit, time option) outcome) \<and>
    opt_ok okt (next_run E now j)"

text \<open>
  The environment after \<open>n\<close> draws of an identifier with a reading of the clock each; the next
  \<open>n\<close> identifiers, in the form the store keys them by; the run a due job is given.
\<close>

definition draw :: "nat \<Rightarrow> 's sys \<Rightarrow> 's sys" where
  "draw n w = w\<lparr>utc_idx := utc_idx w + n, uuid_idx := uuid_idx w + n\<rparr>"

definition drawn_keys :: "'j ext \<Rightarrow> 's sys \<Rightarrow> nat \<Rightarrow> string list" where
  "drawn_keys E w n = map (\<lambda>i. x_uuid_str E (uuid_src w i)) [uuid_idx w ..< uuid_idx w + n]"

definition new_run :: "'s sys \<Rightarrow> 'j leyla_job \<Rightarrow> 'j job_run" where
  "new_run w j = job_run_new_scheduled (utc_src w (utc_idx w)) (uuid_src w (uuid_idx w)) (j_id j)
     (the (j_next_run_at j)) (rp_max_attempts (j_retry j))"

fun new_runs :: "'j ext \<Rightarrow> 's sys \<Rightarrow> 'j leyla_job list \<Rightarrow> (string \<times> 'j job_run) list" where
  "new_runs E w [] = []"
| "new_runs E w (j # js) =
    (x_uuid_str E (uuid_src w (uuid_idx w)), new_run w j) # new_runs E (draw 1 w) js"

text \<open>The specification of a call on the due jobs \<open>js\<close>: one run each, and each advanced.\<close>

definition materialized ::
  "'j ext \<Rightarrow> time \<Rightarrow> 's sys \<Rightarrow> 'j leyla_job list \<Rightarrow> 'j store_view \<Rightarrow> 'j store_view" where
  "materialized E now w js v = v\<lparr>
     v_runs := v_runs v ++ map_of (new_runs E w js),
     v_jobs := v_jobs v ++ map_of (map (\<lambda>j. (j_id j, advance_job E now j)) js)\<rparr>"

definition utc_ok :: "(time \<Rightarrow> bool) \<Rightarrow> 's sys \<Rightarrow> bool" where
  "utc_ok okt w \<longleftrightarrow> (\<forall>i. okt (utc_src w i))"

lemma utc_ok_True [simp]: "utc_ok (\<lambda>_. True) w"
  by (simp add: utc_ok_def)

lemma draw_simps [simp]:
  "db (draw n w) = db w" "utc_src (draw n w) = utc_src w" "uuid_src (draw n w) = uuid_src w"
  "utc_idx (draw n w) = utc_idx w + n" "uuid_idx (draw n w) = uuid_idx w + n" "draw 0 w = w"
  "stdout (draw n w) = stdout w" "cancelled (draw n w) = cancelled w" "fake_clock (draw n w) = fake_clock w"
  "draw m (draw n w) = draw (n + m) w" "draw n (w\<lparr>db := d\<rparr>) = draw n w\<lparr>db := d\<rparr>"
  by (simp_all add: draw_def ac_simps)

lemma drawn_keys_0 [simp]: "drawn_keys E w 0 = []"
  by (simp add: drawn_keys_def)

lemma drawn_keys_Suc:
  "drawn_keys E w (Suc n) = x_uuid_str E (uuid_src w (uuid_idx w)) # drawn_keys E (draw 1 w) n"
  by (simp add: drawn_keys_def upt_conv_Cons del: upt_Suc)

lemma drawn_keys_frame [simp]: "drawn_keys E (w\<lparr>db := d\<rparr>) n = drawn_keys E w n"
  by (simp add: drawn_keys_def)

lemma new_run_frame [simp]: "new_run (w\<lparr>db := d\<rparr>) j = new_run w j"
  by (simp add: new_run_def)

lemma new_runs_frame [simp]: "new_runs E (w\<lparr>db := d\<rparr>) js = new_runs E w js"
  by (induction js arbitrary: w) simp_all

lemma new_runs_keys: "map fst (new_runs E w js) = drawn_keys E w (length js)"
  by (induction js arbitrary: w) (simp_all add: drawn_keys_Suc)

lemma new_runs_dom: "dom (map_of (new_runs E w js)) = set (drawn_keys E w (length js))"
  using arg_cong [OF new_runs_keys, of set] by (simp add: dom_map_of_conv_image_fst)

lemma materialized_Nil [simp]: "materialized E now w [] v = v"
  by (simp add: materialized_def)

lemma materialized_Cons:
  assumes "j_id j \<notin> j_id ` set js"
    and "x_uuid_str E (uuid_src w (uuid_idx w)) \<notin> set (drawn_keys E (draw 1 w) (length js))"
  shows "materialized E now (draw 1 w\<lparr>db := d\<rparr>) js (materialized E now w [j] v) =
    materialized E now w (j # js) v"
proof -
  have "j_id j \<notin> dom (map_of (map (\<lambda>j. (j_id j, advance_job E now j)) js))"
    using assms(1) by (auto simp: dom_map_of_conv_image_fst)
  with assms(2) show ?thesis
    by (simp add: materialized_def map_add_upd_left new_runs_dom)
qed

lemma compute_next_run_unit:
  "is_Ok (compute_next_run E s t :: (unit, time option) outcome) \<Longrightarrow>
    compute_next_run E s t = (Ok (ok_val (compute_next_run E s t :: (unit, time option) outcome)))"
  by (auto simp: compute_next_run_def split: schedule.splits option.splits)

lemma materialize_job_skip: "\<not> job_due now j \<Longrightarrow> materialize_job E S now j n w = (Ok n, w)"
  by (auto simp: materialize_job_def job_due_def split: option.splits)

lemma advance_job_ok:
  "job_ok okt okv j \<Longrightarrow> okt now \<Longrightarrow> advances E okt now j \<Longrightarrow> job_ok okt okv (advance_job E now j)"
  by (simp add: job_ok_def advance_job_def advances_def)

lemma advance_job_id [simp]: "j_id (advance_job E now j) = j_id j"
  by (simp add: advance_job_def)

subsection \<open>The effect of a call, over any store\<close>

context leyla_store
begin

text \<open>
  One turn, on a copy \<open>j\<close> of a job that was due when it was listed, whatever the store holds of that
  job by now.
\<close>

lemma materialize_job_listed:
  assumes "invar (db w)" "utc_ok okt w" "okt now" "job_due now j" "advances E okt now j"
    and job: "job_ok okt okv j"
    and fresh: "v_runs (view (db w)) (x_uuid_str E (uuid_src w (uuid_idx w))) = None"
  shows "\<exists>d. materialize_job E S now j n w = (Ok (n + 1), draw 1 w\<lparr>db := d\<rparr>) \<and>
    invar d \<and> view d = materialized E now w [j] (view (db w))"
proof -
  obtain t where t: "j_next_run_at j = Some t" "t \<le> now" "j_enabled j" "j_schedule j \<noteq> Manual"
    using assms(4) by (auto simp: job_due_def split: option.splits)
  define run :: "'j job_run" where "run = new_run w j"
  have key: "x_uuid_str E (r_run_id run) = x_uuid_str E (uuid_src w (uuid_idx w))"
    by (simp add: run_def new_run_def job_run_new_scheduled_def)
  have "run_ok okt okv run"
    using job t(1) assms(2)
    by (simp add: run_def new_run_def job_run_new_scheduled_def run_ok_def utc_ok_def job_ok_def)
  then obtain d1 where ins: "op_insert_run S run (db w) = (Ok (), d1)" "invar d1"
      "view d1 = (view (db w))\<lparr>v_runs := (v_runs (view (db w)))(x_uuid_str E (r_run_id run) \<mapsto> run)\<rparr>"
    using insert_run_None [OF assms(1), of run] fresh unfolding key by blast
  obtain d2 where ups: "op_upsert_job S (advance_job E now j) d1 = (Ok (), d2)" "invar d2"
      "view d2 = (view d1)\<lparr>v_jobs := (v_jobs (view d1))(j_id j \<mapsto> advance_job E now j)\<rparr>"
    using upsert_job_law [OF ins(2) advance_job_ok [OF job assms(3,5)]] by auto
  have nxt: "compute_next_run E (j_schedule j) now = (Ok (next_run E now j) :: (store_error, time option) outcome)"
    using assms(5) compute_next_run_unit by (auto simp: advances_def next_run_def)
  have "materialize_job E S now j n w = (Ok (n + 1), draw 1 w\<lparr>db := d2\<rparr>)"
    using t ins(1) ups(1) nxt
    by (simp add: materialize_job_def andthen_def on_db_def run_def new_run_def draw_def advance_job_def)
  moreover have "view d2 = materialized E now w [j] (view (db w))"
    by (simp add: ups(3) ins(3) materialized_def key) (simp add: run_def)
  ultimately show ?thesis using ups(2) by blast
qed

lemma materialize_job_due:
  assumes "invar (db w)" "utc_ok okt w" "okt now" "job_due now j" "advances E okt now j"
    and "v_jobs (view (db w)) (j_id j) = Some j"
    and fresh: "v_runs (view (db w)) (x_uuid_str E (uuid_src w (uuid_idx w))) = None"
  shows "\<exists>d. materialize_job E S now j n w = (Ok (n + 1), draw 1 w\<lparr>db := d\<rparr>) \<and>
    invar d \<and> view d = materialized E now w [j] (view (db w))"
  by (rule materialize_job_listed [OF assms(1-5) view_job_ok [OF assms(1,6)] fresh])

lemma materialize_loop:
  assumes "invar (db w)" "utc_ok okt w" "okt now" "distinct (map j_id js)"
    and "\<And>j. j \<in> set js \<Longrightarrow> v_jobs (view (db w)) (j_id j) = Some j"
    and "\<And>j. j \<in> set js \<Longrightarrow> job_due now j \<Longrightarrow> advances E okt now j"
    and "distinct (drawn_keys E w (length (filter (job_due now) js)))"
    and "set (drawn_keys E w (length (filter (job_due now) js))) \<inter> dom (v_runs (view (db w))) = {}"
  shows "\<exists>d. for_each (materialize_job E S now) js n w =
      (Ok (n + length (filter (job_due now) js)),
       draw (length (filter (job_due now) js)) w\<lparr>db := d\<rparr>) \<and>
    invar d \<and> view d = materialized E now w (filter (job_due now) js) (view (db w))"
  using assms
proof (induction js arbitrary: n w)
  case Nil
  then show ?case by (auto intro: exI [of _ "db w"])
next
  case (Cons j js)
  show ?case
  proof (cases "job_due now j")
    case False
    with Cons show ?thesis
      by (simp add: andthen_Ok [OF materialize_job_skip [OF False]])
  next
    case True
    let ?key = "x_uuid_str E (uuid_src w (uuid_idx w))"
    let ?due = "filter (job_due now) js"
    have dk: "drawn_keys E w (length (filter (job_due now) (j # js))) =
        ?key # drawn_keys E (draw 1 w) (length ?due)"
      using True by (simp add: drawn_keys_Suc)
    note fresh = Cons.prems(7,8) [unfolded dk]
    have fresh_key: "v_runs (view (db w)) ?key = None"
      using fresh(2) by auto
    obtain d where step: "materialize_job E S now j n w = (Ok (n + 1), draw 1 w\<lparr>db := d\<rparr>)"
      and d: "invar d" and v: "view d = materialized E now w [j] (view (db w))"
      using materialize_job_due [OF Cons.prems(1-3) True _ _ fresh_key] Cons.prems(5,6) True
      by (metis list.set_intros(1))
    have nj: "j_id j \<notin> j_id ` set js" using Cons.prems(4) by simp
    let ?w = "draw 1 w\<lparr>db := d\<rparr>"
    have keep: "v_jobs (view d) (j_id j') = Some j'" if "j' \<in> set js" for j'
    proof -
      have "j_id j' \<noteq> j_id j" using that nj by (metis image_eqI)
      then show ?thesis using that Cons.prems(5) by (simp add: v materialized_def)
    qed
    have new_fresh: "set (drawn_keys E (draw 1 w) (length ?due)) \<inter> dom (v_runs (view d)) = {}"
      using fresh by (auto simp: v materialized_def)
    obtain d' where IH: "for_each (materialize_job E S now) js (n + 1) ?w =
        (Ok (n + 1 + length ?due), draw (length ?due) ?w\<lparr>db := d'\<rparr>)" "invar d'"
      "view d' = materialized E now ?w ?due (view d)"
      using Cons.IH [of ?w "n + 1"] Cons.prems(2-4,6) fresh(1) d keep new_fresh
      by (auto simp: utc_ok_def)
    have "for_each (materialize_job E S now) (j # js) n w =
        (Ok (n + 1 + length ?due), draw (length ?due) ?w\<lparr>db := d'\<rparr>)"
      using IH(1) step by (simp add: andthen_def)
    moreover have "view d' = materialized E now w (j # ?due) (view (db w))"
      unfolding IH(3) v using nj fresh(1) by (intro materialized_Cons) auto
    ultimately show ?thesis using True IH(2) by auto
  qed
qed

text \<open>
  A whole call: the due jobs, in the order the store lists them, are given one run each and
  are advanced; every other job and every run that was there stays as it was.
\<close>

lemma materialize_effect:
  assumes "invar (db w)" "utc_ok okt w" "okt now" "dm_store m = S"
    and clock: "clock_now (dm_clock m) w = ((Ok now :: (store_error, time) outcome), w1)" "db w1 = db w" "utc_src w1 = utc_src w"
    and adv: "\<And>k j. v_jobs (view (db w)) k = Some j \<Longrightarrow> job_due now j \<Longrightarrow> advances E okt now j"
    and fresh: "distinct (drawn_keys E w1 (card {k. \<exists>j. v_jobs (view (db w)) k = Some j \<and> job_due now j}))"
      "set (drawn_keys E w1 (card {k. \<exists>j. v_jobs (view (db w)) k = Some j \<and> job_due now j})) \<inter>
        dom (v_runs (view (db w))) = {}"
  shows "\<exists>js d. distinct (map j_id js) \<and>
    set js = {j \<in> ran (v_jobs (view (db w))). job_due now j} \<and>
    materialize E m w = (Ok (length js), draw (length js) w1\<lparr>db := d\<rparr>) \<and> invar d \<and>
    view d = materialized E now w1 js (view (db w))"
proof -
  obtain js where js: "op_list_jobs S (db w) = (Ok js, db w)" "distinct (map j_id js)"
      "set js = ran (v_jobs (view (db w)))"
    using list_jobs_law [OF assms(1)] by blast
  let ?due = "filter (job_due now) js"
  have in_js: "v_jobs (view (db w)) (j_id j) = Some j" if "j \<in> set js" for j
    using that view_job_key [OF assms(1)] by (fastforce simp: js(3) ran_def)
  have dist: "distinct (map j_id ?due)" using js(2) by (rule distinct_map_filter)
  have "{k. \<exists>j. v_jobs (view (db w)) k = Some j \<and> job_due now j} = j_id ` set ?due"
    using in_js view_job_key [OF assms(1)] js(3) by (force simp: ran_def)
  then have card: "card {k. \<exists>j. v_jobs (view (db w)) k = Some j \<and> job_due now j} = length ?due"
    using distinct_card [OF dist] by simp
  have adv_js: "advances E okt now j" if "j \<in> set js" "job_due now j" for j
    using adv [OF in_js [OF that(1)] that(2)] .
  obtain d where "for_each (materialize_job E S now) js 0 w1 =
      (Ok (0 + length ?due), draw (length ?due) w1\<lparr>db := d\<rparr>)" "invar d"
      "view d = materialized E now w1 ?due (view (db w1))"
    using materialize_loop [of w1 now js 0] assms(1-3) clock(2,3) js(2) in_js adv_js fresh
    unfolding card by (auto simp: utc_ok_def)
  moreover have "materialize E m w = for_each (materialize_job E S now) js 0 w1"
    using clock(1,2) js(1) by (simp add: materialize_def andthen_def on_db_def assms(4) flip: clock(2))
  ultimately show ?thesis using dist js(3) clock(2) by (intro exI [of _ ?due]) auto
qed

text \<open>When the next run cannot be computed the run is in the store and the job is not advanced.\<close>

lemma materialize_job_panics:
  assumes "invar (db w)" "utc_ok okt w" "job_due now j" "v_jobs (view (db w)) (j_id j) = Some j"
    and fresh: "v_runs (view (db w)) (x_uuid_str E (uuid_src w (uuid_idx w))) = None"
    and pan: "compute_next_run E (j_schedule j) now = (Panic :: (store_error, time option) outcome)"
  shows "\<exists>d. materialize_job E S now j n w = (Panic, draw 1 w\<lparr>db := d\<rparr>) \<and> invar d \<and>
    view d = (view (db w))\<lparr>v_runs := (v_runs (view (db w)))
      (x_uuid_str E (uuid_src w (uuid_idx w)) \<mapsto> new_run w j)\<rparr>"
proof -
  obtain t where t: "j_next_run_at j = Some t" "t \<le> now" "j_enabled j" "j_schedule j \<noteq> Manual"
    using assms(3) by (auto simp: job_due_def split: option.splits)
  have run: "run_ok okt okv (new_run w j)"
      "x_uuid_str E (r_run_id (new_run w j)) = x_uuid_str E (uuid_src w (uuid_idx w))"
    using view_job_ok [OF assms(1,4)] t(1) assms(2)
    by (simp_all add: new_run_def job_run_new_scheduled_def run_ok_def utc_ok_def job_ok_def)
  obtain d where "op_insert_run S (new_run w j) (db w) = (Ok (), d)" "invar d"
      "view d = (view (db w))\<lparr>v_runs := (v_runs (view (db w)))
        (x_uuid_str E (uuid_src w (uuid_idx w)) \<mapsto> new_run w j)\<rparr>"
    using insert_run_None [OF assms(1) run(1)] fresh unfolding run(2) by blast
  with t pan show ?thesis
    by (intro exI [of _ d])
      (simp add: materialize_job_def andthen_def on_db_def new_run_def draw_def)
qed

end

subsection \<open>Properties\<close>

text \<open>
  C2: \<open>materialize\<close> on the memory store inserts exactly one scheduled run for every job that
  is enabled, not manual and due (its \<open>scheduled_for\<close> the job's \<open>next_run_at\<close>, however long
  ago that was and whatever the misfire policy says), advances exactly these jobs to their
  next run after \<open>now\<close>, changes no other job and no existing run, and returns their number.
\<close>
lemma materialize_memory:
  assumes "mem_inv E (db w)" "dm_store m = memory_ops E"
    and "clock_now (dm_clock m) w = ((Ok now :: (store_error, time) outcome), w1)"
    and "\<And>k j. v_jobs (mem_view (db w)) k = Some j \<Longrightarrow> job_due now j \<Longrightarrow>
      \<exists>t. compute_next_run E (j_schedule j) now = (Ok t :: (unit, time option) outcome)"
    and "distinct (drawn_keys E w1 (card {k. \<exists>j. v_jobs (mem_view (db w)) k = Some j \<and> job_due now j}))"
    and "set (drawn_keys E w1 (card {k. \<exists>j. v_jobs (mem_view (db w)) k = Some j \<and> job_due now j})) \<inter>
        dom (v_runs (mem_view (db w))) = {}"
  shows "\<exists>js d. distinct (map j_id js) \<and>
    set js = {j \<in> ran (v_jobs (mem_view (db w))). job_due now j} \<and>
    materialize E m w = (Ok (length js), draw (length js) w1\<lparr>db := d\<rparr>) \<and> mem_inv E d \<and>
    mem_view d = materialized E now w1 js (mem_view (db w))"
proof (rule mem.materialize_effect [OF assms(1) utc_ok_True _ assms(2,3) _ _ _ assms(5,6)])
  show "advances E (\<lambda>_. True) now j" if "v_jobs (mem_view (db w)) k = Some j" "job_due now j" for k j
    using assms(4) [OF that] by (auto simp: advances_def)
qed (use clk.now_frame [OF assms(3)] in auto)

definition sample_job :: "string \<Rightarrow> schedule \<Rightarrow> time option \<Rightarrow> string leyla_job" where
  "sample_job k sched t = (leyla_job_new ''null'' 0 k sched (Shell ''true'' []))\<lparr>j_next_run_at := t\<rparr>"

definition sample_sys :: "'s \<Rightarrow> 's sys" where
  "sample_sys d = \<lparr>db = d, utc_src = (\<lambda>n. int n), utc_idx = 0, uuid_src = of_nat, uuid_idx = 0,
     fake_clock = fake_clock_new 1000, stdout = [], cancelled = False\<rparr>"

definition sample_jobs :: "string leyla_job list \<Rightarrow> string memory_store" where
  "sample_jobs js = new_mutex \<lparr>jobs = map (\<lambda>j. (j_id j, j)) js, runs = [], dead_letters = []\<rparr>"

lemma sample_job_fields:
  "j_id (sample_job k s t) = k" "j_enabled (sample_job k s t)" "j_schedule (sample_job k s t) = s"
  "j_next_run_at (sample_job k s t) = t"
  by (simp_all add: sample_job_def leyla_job_new_def)

lemma sample_clock: "clock_now FakeClock (sample_sys d) = (Ok 1000, sample_sys d)"
  by (simp add: clock_now_def fake_clock_now_def with_lock_def fake_clock_new_def new_mutex_def sample_sys_def)

lemma sample_store:
  "distinct (map j_id js) \<Longrightarrow> mem_inv E (sample_jobs js)"
  "mem_view (sample_jobs js) = \<lparr>v_jobs = map_of (map (\<lambda>j. (j_id j, j)) js), v_runs = Map.empty, v_dead = []\<rparr>"
  by (simp_all add: mem_inv_def mem_view_def sample_jobs_def list_all_iff comp_def)

lemma materialize_memory_witness:
  "\<exists>js w. materialize sample_ext \<lparr>dm_store = memory_ops sample_ext, dm_clock = FakeClock\<rparr>
      (sample_sys (sample_jobs [sample_job ''a'' (Interval 5 Start) (Some 7), sample_job ''b'' Manual (Some 7)])) =
    (Ok (length js), w) \<and> set js = {sample_job ''a'' (Interval 5 Start) (Some 7)}"
proof -
  let ?a = "sample_job ''a'' (Interval 5 Start) (Some 7)" and ?b = "sample_job ''b'' Manual (Some 7)"
  let ?w = "sample_sys (sample_jobs [?a, ?b])"
  let ?m = "\<lparr>dm_store = memory_ops sample_ext, dm_clock = FakeClock\<rparr>"
  note defs = sample_job_def leyla_job_new_def sample_ext_def
  have db: "db ?w = sample_jobs [?a, ?b]" by (simp add: sample_sys_def)
  have ids: "j_id ?a = ''a''" "j_id ?b = ''b''" by (simp_all add: defs)
  have view: "mem_view (db ?w) = \<lparr>v_jobs = [''a'' \<mapsto> ?a, ''b'' \<mapsto> ?b], v_runs = Map.empty, v_dead = []\<rparr>"
    by (auto simp: db sample_store ids)
  have due: "job_due 1000 ?a" "\<not> job_due 1000 ?b" by (simp_all add: job_due_def defs)
  have keys: "{k. \<exists>j. v_jobs (mem_view (db ?w)) k = Some j \<and> job_due 1000 j} = {''a''}"
    using due by (auto simp: view split: if_splits)
  have ran: "{j \<in> ran (v_jobs (mem_view (db ?w))). job_due 1000 j} = {?a}"
    using due by (auto simp: view ran_def)
  have "compute_next_run sample_ext (j_schedule ?a) 1000 = (Ok (Some 5001000) :: (unit, time option) outcome)"
    by (simp add: compute_next_run_def defs)
  then have nxt: "\<exists>t. compute_next_run sample_ext (j_schedule j) 1000 = (Ok t :: (unit, time option) outcome)"
    if "v_jobs (mem_view (db ?w)) k = Some j" "job_due 1000 j" for k j
    using that due by (auto simp: view split: if_splits)
  have inv: "mem_inv sample_ext (db ?w)" unfolding db by (rule sample_store) (simp add: ids)
  have "\<exists>js d. distinct (map j_id js) \<and>
    set js = {j \<in> ran (v_jobs (mem_view (db ?w))). job_due 1000 j} \<and>
    materialize sample_ext ?m ?w = (Ok (length js), draw (length js) ?w\<lparr>db := d\<rparr>) \<and> mem_inv sample_ext d \<and>
    mem_view d = materialized sample_ext 1000 ?w js (mem_view (db ?w))"
    by (rule materialize_memory [OF inv _ _ nxt])
      (simp_all add: sample_clock keys drawn_keys_def, simp add: view)
  then show ?thesis unfolding ran by blast
qed

text \<open>
  The next run of an interval schedule is the current time plus the interval read as a
  signed 64-bit number of milliseconds: it lies in the future exactly for intervals from 1 to
  \<open>2 ^ 63 - 1\<close>; for a larger interval it lies in the past, so the job is due again at once.
\<close>
lemma interval_next_run:
  assumes "chrono_exact E"
    and "compute_next_run E (Interval every a) after = (Ok nxt :: (unit, time option) outcome)"
  shows "nxt = Some (after + sint every * nanos_per_milli) \<and>
    (after < the nxt \<longleftrightarrow> 0 < unat every \<and> unat every < 2 ^ 63) \<and>
    (unat every \<ge> 2 ^ 63 \<longrightarrow> the nxt < after)"
proof -
  obtain d u where "x_td_millis E (sint every) = Some d" "x_dt_add E after d = Some u" "nxt = Some u"
    using assms(2) by (auto simp: compute_next_run_def split: option.splits) (metis that)
  then have *: "nxt = Some (after + sint every * nanos_per_milli)"
    using chrono_exact_add [OF assms(1)] chrono_exact_millis [OF assms(1)] by blast
  have "sint every = int (unat every) - 2 ^ 64 * of_bool (bit (uint every) 63)"
    by (simp add: sint_uint signed_take_bit_eq_take_bit_minus bintr_uint)
  moreover have "- (2 ^ 63) \<le> sint every" "sint every < 2 ^ 63"
    using sint_ge [of every] sint_lt [of every] by simp_all
  moreover have "unat every < 2 ^ 64"
    using unsigned_less [where 'a = nat, of every] by simp
  moreover have "(s < 0 \<longleftrightarrow> u \<ge> 2 ^ 63) \<and> (s = 0 \<longleftrightarrow> u = 0)"
    if "s = int u - 2 ^ 64 * of_bool b" "- (2 ^ 63) \<le> s" "s < 2 ^ 63" "u < 2 ^ 64" for s u b
    using that by (cases b) auto
  ultimately have "sint every < 0 \<longleftrightarrow> unat every \<ge> 2 ^ 63" "sint every = 0 \<longleftrightarrow> unat every = 0"
    by blast+
  then show ?thesis using * by (auto simp: zero_less_mult_iff mult_less_0_iff)
qed

lemma interval_next_run_witness:
  "(-9223372036854775808 * nanos_per_milli :: int) < 0 \<and>
    compute_next_run sample_ext (Interval (2 ^ 63) Start) 0 =
      (Ok (Some (-9223372036854775808 * nanos_per_milli)) :: (unit, time option) outcome)"
  using interval_next_run [OF sample_ext_exact, of "2 ^ 63" Start 0]
  by (simp add: compute_next_run_def sample_ext_def)

text \<open>
  A job whose next run cannot be computed (an interval that leaves chrono's range) makes
  the turn panic after its run was inserted: the store holds the new run, and the job still
  has its old \<open>next_run_at\<close>, so the next call inserts another run for the same time.
\<close>
lemma materialize_panic_leaves_run:
  assumes "mem_inv E (db w)" "job_due now j" "v_jobs (mem_view (db w)) (j_id j) = Some j"
    and "v_runs (mem_view (db w)) (x_uuid_str E (uuid_src w (uuid_idx w))) = None"
    and "compute_next_run E (j_schedule j) now = (Panic :: (store_error, time option) outcome)"
  shows "\<exists>d. materialize_job E (memory_ops E) now j n w = (Panic, draw 1 w\<lparr>db := d\<rparr>) \<and> mem_inv E d \<and>
    mem_view d = (mem_view (db w))\<lparr>v_runs := (v_runs (mem_view (db w)))
      (x_uuid_str E (uuid_src w (uuid_idx w)) \<mapsto> new_run w j)\<rparr>"
  by (rule mem.materialize_job_panics [OF assms(1) utc_ok_True assms(2-5)])

lemma materialize_panic_leaves_run_witness:
  "fst (materialize_job sample_ext (memory_ops sample_ext) 1000
      (sample_job ''a'' (Interval (2 ^ 62) Start) (Some 7)) 0
      (sample_sys (sample_jobs [sample_job ''a'' (Interval (2 ^ 62) Start) (Some 7)]))) = Panic"
proof -
  let ?a = "sample_job ''a'' (Interval (2 ^ 62) Start) (Some 7)"
  let ?w = "sample_sys (sample_jobs [?a])"
  have db: "db ?w = sample_jobs [?a]" by (simp add: sample_sys_def)
  have "mem_inv sample_ext (db ?w)" unfolding db by (rule sample_store) simp
  moreover have "job_due 1000 ?a" by (simp add: job_due_def sample_job_def leyla_job_new_def)
  moreover have "compute_next_run sample_ext (j_schedule ?a) 1000 = (Panic :: (store_error, time option) outcome)"
    by (simp add: compute_next_run_def sample_ext_def sample_job_def leyla_job_new_def)
  ultimately show ?thesis
    using materialize_panic_leaves_run [of sample_ext ?w 1000 ?a 0]
    by (fastforce simp only: db sample_store list.map map_of.simps fst_conv snd_conv
        store_view.select_convs fun_upd_same simp_thms)
qed

end
