(* ===== verification/Lease_Claim.thy ===== *)
theory Lease_Claim
  imports Due_Runs Dispatch_Policies
begin

section \<open>Claiming due runs (leyla-core/src/scheduler/claim.rs)\<close>

text \<open>
  \<open>LeaseManager\<close>: \<open>claim_batch\<close>, proved over any store, and \<open>filter_by_concurrency\<close>, compared
  with \<open>can_dispatch\<close> of the policies.
\<close>

record ('s, 'j) lease_manager =
  lm_store :: "('s, 'j) store_ops"
  lm_clock :: clock
  lm_instance_id :: string
  lm_batch_size :: u32
  lm_lease_ttl_ms :: u64

definition lease_manager_new ::
  "('s, 'j) store_ops \<Rightarrow> clock \<Rightarrow> string \<Rightarrow> u32 \<Rightarrow> u64 \<Rightarrow> ('s, 'j) lease_manager" where
  "lease_manager_new store c instance_id batch_size lease_ttl_ms =
    \<lparr>lm_store = store, lm_clock = c, lm_instance_id = instance_id, lm_batch_size = batch_size,
     lm_lease_ttl_ms = lease_ttl_ms\<rparr>"

definition claim_batch :: "('s, 'j) lease_manager \<Rightarrow> ('s sys, store_error, 'j job_run list) prog" where
  "claim_batch m = andthen (clock_now (lm_clock m)) (\<lambda>now.
    on_db (op_claim_due_runs (lm_store m) now (lm_instance_id m) (unat (lm_batch_size m))))"

definition filter_by_concurrency ::
  "('s, 'j) lease_manager \<Rightarrow> 'j job_run list \<Rightarrow> concurrency_policy \<Rightarrow> string \<Rightarrow>
    ('s sys, store_error, 'j job_run list) prog" where
  "filter_by_concurrency m rs policy job_id =
    (case policy of
       Allow \<Rightarrow> ret rs
     | ForbidOverlap \<Rightarrow>
         andthen (on_db (op_count_active_runs (lm_store m) job_id)) (\<lambda>active.
           if active > 0 then ret [] else ret rs)
     | QueueOne \<Rightarrow>
         andthen (on_db (op_count_active_runs (lm_store m) job_id)) (\<lambda>active.
           if active > 0 then ret (take 1 rs) else ret rs)
     | ReplaceRunning \<Rightarrow> ret rs)"

definition active_count :: "'j store_view \<Rightarrow> string \<Rightarrow> nat" where
  "active_count v jid =
    card {k. \<exists>r. v_runs v k = Some r \<and> r_job_id r = jid \<and> run_active (r_status r)}"

context leyla_store
begin

lemma claim_batch_effect:
  assumes "invar (db w)" "lm_store m = S" "okt now" "okn (unat (lm_batch_size m))"
    and clock: "clock_now (lm_clock m) w = ((Ok now :: (store_error, time) outcome), w1)"
    and lend: "x_dt_add E now (30 * nanos_per_sec) = Some exp" "okt exp"
  shows "\<exists>ks d. claim_batch m w =
      (Ok (map (\<lambda>k. lease_run now (lm_instance_id m) exp (the (v_runs (view (db w)) k))) ks), w1\<lparr>db := d\<rparr>) \<and>
    invar d \<and> distinct ks \<and> set ks \<subseteq> due_keys now (view (db w)) \<and>
    length ks = min (unat (lm_batch_size m)) (card (due_keys now (view (db w)))) \<and>
    view d = lease_keys now (lm_instance_id m) exp (set ks) (view (db w))"
proof -
  have "db w1 = db w" using clk.now_frame [OF clock] by simp
  with claim_law [OF assms(1,4,3) lend, of "lm_instance_id m"] show ?thesis
    unfolding claim_batch_def andthen_clock [OF clock] assms(2) on_db_def by fastforce
qed

lemma filter_by_concurrency_eq:
  assumes "invar (db w)" "lm_store m = S"
  shows "filter_by_concurrency m rs policy jid w =
    (Ok (if can_dispatch policy (active_count (view (db w)) jid) then rs
         else if policy = QueueOne then take 1 rs else []), w)"
  using count_active_law [OF assms(1), of jid]
  by (cases policy) (simp_all add: filter_by_concurrency_def can_dispatch_def andthen_def on_db_def
      assms(2) active_count_def)

text \<open>Of two claims in a row, whoever makes them, the second gets none of the first's runs.\<close>

lemma claim_batches_disjoint:
  assumes "invar (db w)" "lm_store m = S" "lm_store m' = S" "okt now" "okt now'"
    and okn: "okn (unat (lm_batch_size m))" "okn (unat (lm_batch_size m'))"
    and "clock_now (lm_clock m) w = ((Ok now :: (store_error, time) outcome), w1)"
    and "x_dt_add E now (30 * nanos_per_sec) = Some exp" "okt exp"
    and "claim_batch m w = (Ok rs, w2)"
    and "clock_now (lm_clock m') w2 = ((Ok now' :: (store_error, time) outcome), w3)"
    and "x_dt_add E now' (30 * nanos_per_sec) = Some exp'" "okt exp'"
  shows "\<exists>rs' w4. claim_batch m' w2 = (Ok rs', w4) \<and> r_run_id ` set rs \<inter> r_run_id ` set rs' = {}"
proof -
  have db1: "db w1 = db w" and db3: "db w3 = db w2"
    using clk.now_frame [OF assms(8)] clk.now_frame [OF assms(12)] by simp_all
  obtain d rs1 rs2 d2 where c: "op_claim_due_runs S now (lm_instance_id m) (unat (lm_batch_size m)) (db w) = (Ok rs1, d)"
    "op_claim_due_runs S now' (lm_instance_id m') (unat (lm_batch_size m')) d = (Ok rs2, d2)"
    "r_run_id ` set rs1 \<inter> r_run_id ` set rs2 = {}"
    using claim_disjoint [OF assms(1,6,7,4,9,10,5,13,14)] by blast
  have "rs = rs1" "db w2 = d"
    using assms(11) c(1) by (auto simp: claim_batch_def andthen_clock [OF assms(8)] on_db_def assms(2) db1)
  with c show ?thesis
    by (simp add: claim_batch_def andthen_clock [OF assms(12)] on_db_def assms(3) db3)
qed

end

subsection \<open>Properties\<close>

text \<open>
  C3: \<open>claim_batch\<close> on the memory store leases exactly \<open>min(batch_size, number of due runs)\<close>
  distinct due runs to this instance for 30 seconds (the configured lease time is not used),
  returns them as it stored them, and changes nothing else.
\<close>
lemma claim_batch_memory:
  assumes "mem_inv E (db w)" "lm_store m = memory_ops E"
    and "clock_now (lm_clock m) w = ((Ok now :: (store_error, time) outcome), w1)"
    and "x_dt_add E now (30 * nanos_per_sec) = Some exp"
  shows "\<exists>ks d. claim_batch m w =
      (Ok (map (\<lambda>k. lease_run now (lm_instance_id m) exp (the (v_runs (mem_view (db w)) k))) ks), w1\<lparr>db := d\<rparr>) \<and>
    mem_inv E d \<and> distinct ks \<and> set ks \<subseteq> due_keys now (mem_view (db w)) \<and>
    length ks = min (unat (lm_batch_size m)) (card (due_keys now (mem_view (db w)))) \<and>
    mem_view d = lease_keys now (lm_instance_id m) exp (set ks) (mem_view (db w))"
  by (rule mem.claim_batch_effect [OF assms(1,2) TrueI TrueI assms(3,4) TrueI])

definition sample_run :: "uuid \<Rightarrow> run_status \<Rightarrow> u32 \<Rightarrow> string job_run" where
  "sample_run u st n = (job_run_new_scheduled 0 u ''a'' 7 n)\<lparr>r_status := st\<rparr>"

definition sample_runs :: "string job_run list \<Rightarrow> string memory_store" where
  "sample_runs rs = new_mutex \<lparr>jobs = [], runs = map (\<lambda>r. (x_uuid_str sample_ext (r_run_id r), r)) rs,
     dead_letters = []\<rparr>"

lemma sample_run_fields:
  "r_run_id (sample_run u st n) = u" "r_job_id (sample_run u st n) = ''a''"
  "r_status (sample_run u st n) = st" "r_attempt (sample_run u st n) = 1"
  "r_max_attempts (sample_run u st n) = n" "r_scheduled_for (sample_run u st n) = 7"
  "r_updated_at (sample_run u st n) = 0" "r_lease_expires_at (sample_run u st n) = None"
  "r_finished_at (sample_run u st n) = None"
  by (simp_all add: sample_run_def job_run_new_scheduled_def)

lemma sample_runs_store:
  "distinct (map (\<lambda>r. x_uuid_str sample_ext (r_run_id r)) rs) \<Longrightarrow> mem_inv sample_ext (sample_runs rs)"
  "mem_view (sample_runs rs) = \<lparr>v_jobs = Map.empty,
     v_runs = map_of (map (\<lambda>r. (x_uuid_str sample_ext (r_run_id r), r)) rs), v_dead = []\<rparr>"
  by (simp_all add: mem_inv_def mem_view_def sample_runs_def list_all_iff comp_def)

lemma replicate_numeral: "replicate (numeral n) x = x # replicate (pred_numeral n) x"
  by (simp add: numeral_eq_Suc)

lemma sample_uuid [simp]: "x_uuid_str sample_ext u = replicate (unat u) (CHR ''u'')"
  by (simp add: sample_ext_def)

lemma claim_batch_memory_witness:
  "\<exists>rs w. claim_batch (lease_manager_new (memory_ops sample_ext) FakeClock ''i'' 1 5)
      (sample_sys (sample_runs [sample_run 1 Scheduled 3, sample_run 2 Scheduled 3])) = (Ok rs, w) \<and>
    length rs = 1"
proof -
  let ?w = "sample_sys (sample_runs [sample_run 1 Scheduled 3, sample_run 2 Scheduled 3])"
  let ?m = "lease_manager_new (memory_ops sample_ext) FakeClock ''i'' 1 5"
  have db: "db ?w = sample_runs [sample_run 1 Scheduled 3, sample_run 2 Scheduled 3]"
    by (simp add: sample_sys_def)
  note id = sample_run_fields
  have inv: "mem_inv sample_ext (db ?w)" unfolding db by (rule sample_runs_store) (simp add: id replicate_numeral)
  have "due_keys 1000 (mem_view (db ?w)) = {''u'', ''uu''}"
    by (auto simp: due_keys_def db sample_runs_store id run_due_def replicate_numeral split: if_splits)
  then have due: "card (due_keys 1000 (mem_view (db ?w))) = 2" by simp
  have one: "unat (lm_batch_size ?m) = 1" by (simp add: lease_manager_new_def)
  have "\<exists>ks d. claim_batch ?m ?w =
      (Ok (map (\<lambda>k. lease_run 1000 (lm_instance_id ?m) 30000001000 (the (v_runs (mem_view (db ?w)) k))) ks), ?w\<lparr>db := d\<rparr>) \<and>
    mem_inv sample_ext d \<and> distinct ks \<and> set ks \<subseteq> due_keys 1000 (mem_view (db ?w)) \<and>
    length ks = min (unat (lm_batch_size ?m)) (card (due_keys 1000 (mem_view (db ?w)))) \<and>
    mem_view d = lease_keys 1000 (lm_instance_id ?m) 30000001000 (set ks) (mem_view (db ?w))"
    by (rule claim_batch_memory [OF inv])
      (simp_all add: lease_manager_new_def sample_clock, simp add: sample_ext_def)
  then obtain ks d where "claim_batch ?m ?w =
      (Ok (map (\<lambda>k. lease_run 1000 (lm_instance_id ?m) 30000001000 (the (v_runs (mem_view (db ?w)) k))) ks), d)"
    "length ks = min (unat (lm_batch_size ?m)) (card (due_keys 1000 (mem_view (db ?w))))"
    by blast
  moreover from this(2) have "length ks = 1" unfolding due one by simp
  ultimately show ?thesis by (intro exI conjI) (assumption, simp only: length_map)
qed

text \<open>
  C4: Of two claims in a row on one memory store, by any two schedulers at any times, the
  second returns no run that the first returned.
\<close>
lemma claims_never_share_a_run:
  assumes "mem_inv E (db w)" "lm_store m = memory_ops E" "lm_store m' = memory_ops E"
    and "clock_now (lm_clock m) w = ((Ok now :: (store_error, time) outcome), w1)"
    and "x_dt_add E now (30 * nanos_per_sec) = Some exp"
    and "claim_batch m w = (Ok rs, w2)"
    and "clock_now (lm_clock m') w2 = ((Ok now' :: (store_error, time) outcome), w3)"
    and "x_dt_add E now' (30 * nanos_per_sec) = Some exp'"
  shows "\<exists>rs' w4. claim_batch m' w2 = (Ok rs', w4) \<and> r_run_id ` set rs \<inter> r_run_id ` set rs' = {}"
  by (rule mem.claim_batches_disjoint [OF assms(1-3) TrueI TrueI TrueI TrueI assms(4,5) TrueI assms(6-8) TrueI])

lemma claims_never_share_a_run_witness:
  "\<exists>rs w2. claim_batch (lease_manager_new (memory_ops sample_ext) FakeClock ''i'' 1 5)
      (sample_sys (sample_runs [sample_run 1 Scheduled 3])) = (Ok rs, w2) \<and>
    (\<exists>rs' w4. claim_batch (lease_manager_new (memory_ops sample_ext) SystemClock ''j'' 9 5) w2 = (Ok rs', w4) \<and>
      r_run_id ` set rs \<inter> r_run_id ` set rs' = {})"
proof -
  let ?w = "sample_sys (sample_runs [sample_run 1 Scheduled 3])"
  let ?m = "lease_manager_new (memory_ops sample_ext) FakeClock ''i'' 1 5"
  let ?m' = "lease_manager_new (memory_ops sample_ext) SystemClock ''j'' 9 5"
  have db: "db ?w = sample_runs [sample_run 1 Scheduled 3]" by (simp add: sample_sys_def)
  have inv: "mem_inv sample_ext (db ?w)" unfolding db by (rule sample_runs_store) simp
  have clock: "clock_now (lm_clock ?m) ?w = ((Ok 1000 :: (store_error, time) outcome), ?w)"
    by (simp add: lease_manager_new_def sample_clock)
  have exp: "x_dt_add sample_ext 1000 (30 * nanos_per_sec) = Some 30000001000"
    by (simp add: sample_ext_def)
  obtain rs d where 1: "claim_batch ?m ?w = (Ok rs, ?w\<lparr>db := d\<rparr>)"
    using mem.claim_batch_effect [OF inv _ TrueI TrueI clock exp TrueI] by (auto simp: lease_manager_new_def)
  have clock': "clock_now (lm_clock ?m') (?w\<lparr>db := d\<rparr>) =
      ((Ok 0 :: (store_error, time) outcome), ?w\<lparr>db := d, utc_idx := 1\<rparr>)"
    by (simp add: lease_manager_new_def clock_now_def sample_sys_def)
  have exp': "x_dt_add sample_ext 0 (30 * nanos_per_sec) = Some 30000000000"
    by (simp add: sample_ext_def)
  show ?thesis
    using 1 claims_never_share_a_run [OF inv _ _ clock exp 1 clock' exp']
    by (simp add: lease_manager_new_def)
qed

text \<open>
  C28: \<open>filter_by_concurrency\<close> on the memory store passes the whole batch exactly when
  \<open>can_dispatch\<close> allows a dispatch at the number of active runs of the job; otherwise it
  passes nothing under \<open>ForbidOverlap\<close>, and one run under \<open>QueueOne\<close>, which \<open>can_dispatch\<close>
  forbids.
\<close>
lemma filter_by_concurrency_memory:
  assumes "mem_inv E (db w)" "lm_store m = memory_ops E"
  shows "filter_by_concurrency m rs policy jid w =
    (Ok (if can_dispatch policy (active_count (mem_view (db w)) jid) then rs
         else if policy = QueueOne then take 1 rs else []), w)"
  by (rule mem.filter_by_concurrency_eq [OF assms])

lemma filter_by_concurrency_memory_witness:
  "filter_by_concurrency (lease_manager_new (memory_ops sample_ext) FakeClock ''i'' 1 5)
      [sample_run 2 Scheduled 3, sample_run 3 Scheduled 3] QueueOne ''a''
      (sample_sys (sample_runs [sample_run 1 Running 3])) =
    (Ok [sample_run 2 Scheduled 3], sample_sys (sample_runs [sample_run 1 Running 3]))"
proof -
  let ?w = "sample_sys (sample_runs [sample_run 1 Running 3])"
  let ?m = "lease_manager_new (memory_ops sample_ext) FakeClock ''i'' 1 5"
  have db: "db ?w = sample_runs [sample_run 1 Running 3]" by (simp add: sample_sys_def)
  have inv: "mem_inv sample_ext (db ?w)" unfolding db by (rule sample_runs_store) simp
  note id = sample_run_fields
  have "{k. \<exists>r. v_runs (mem_view (db ?w)) k = Some r \<and> r_job_id r = ''a'' \<and> run_active (r_status r)} = {''u''}"
    by (auto simp: db sample_runs_store id run_active_def split: if_splits)
  then have "active_count (mem_view (db ?w)) ''a'' = 1" by (simp add: active_count_def)
  then show ?thesis
    using filter_by_concurrency_memory [OF inv, of ?m "[sample_run 2 Scheduled 3, sample_run 3 Scheduled 3]" QueueOne "''a''"]
    by (simp add: lease_manager_new_def can_dispatch_def)
qed

end
