(* ===== verification/Recovery.thy ===== *)
theory Recovery
  imports Lease_Claim Lifecycle
begin

section \<open>Recovery (leyla-core/src/scheduler/recovery.rs)\<close>

text \<open>
  \<open>RecoveryManager::recover\<close>: the loop over the stale runs, then the loop over the runs in
  \<open>RetryWait\<close>. The specification is a function of one run, \<open>recovery_action\<close>; the whole call
  is proved to apply it to every run of any store.
\<close>

record ('s, 'j) recovery_manager =
  rm_store :: "('s, 'j) store_ops"
  rm_clock :: clock
  rm_stale_threshold :: nat

definition status_patch :: "run_status \<Rightarrow> 'j run_patch" where
  "status_patch st = run_patch_default\<lparr>p_status := Some st\<rparr>"

definition release_patch :: "time \<Rightarrow> 'j run_patch" where
  "release_patch now = run_patch_default\<lparr>p_status := Some Scheduled, p_lease_owner := Some [],
     p_lease_expires_at := Some now\<rparr>"

text \<open>One turn of the first loop, and one of the second.\<close>

definition recover_stale_run ::
  "'j ext \<Rightarrow> ('s, 'j) store_ops \<Rightarrow> time \<Rightarrow> 'j job_run \<Rightarrow> nat \<Rightarrow> ('s sys, store_error, nat) prog" where
  "recover_stale_run E S now run n =
    (let run_id = x_uuid_str E (r_run_id run);
         exhausted = r_max_attempts run \<le> r_attempt run
     in if r_status run = Running \<and> can_transition (r_status run) Orphaned then
          andthen (store_update_run S run_id (status_patch Orphaned)) (\<lambda>_.
          andthen (if exhausted then store_update_run S run_id (status_patch DeadLetter)
                   else store_update_run S run_id (status_patch Scheduled)) (\<lambda>_.
          ret (n + 1)))
        else if r_status run = Leased then
          (if exhausted then
             andthen (store_update_run S run_id (release_patch now)) (\<lambda>_. ret (n + 1))
           else
             andthen (store_update_run S run_id (release_patch now)) (\<lambda>_. ret (n + 1)))
        else ret n)"

definition recover_retry_run ::
  "'j ext \<Rightarrow> ('s, 'j) store_ops \<Rightarrow> time \<Rightarrow> 'j job_run \<Rightarrow> nat \<Rightarrow> ('s sys, store_error, nat) prog" where
  "recover_retry_run E S now run n =
    (if can_transition (r_status run) Scheduled then
       andthen (lift_outcome (case r_finished_at run of
            Some fa \<Rightarrow> (case x_dt_add E fa nanos_per_sec of Some t \<Rightarrow> Ok (t \<le> now) | None \<Rightarrow> Panic)
          | None \<Rightarrow> Ok True)) (\<lambda>ready.
       if \<not> ready then ret n
       else andthen (store_update_run S (x_uuid_str E (r_run_id run)) (status_patch Scheduled)) (\<lambda>_.
         ret (n + 1)))
     else ret n)"

definition recover :: "'j ext \<Rightarrow> ('s, 'j) recovery_manager \<Rightarrow> ('s sys, store_error, nat) prog" where
  "recover E m =
    andthen (clock_now (rm_clock m)) (\<lambda>now.
    andthen (on_db (op_get_stale_runs (rm_store m) now (rm_stale_threshold m))) (\<lambda>stale_runs.
    andthen (for_each (recover_stale_run E (rm_store m) now) stale_runs 0) (\<lambda>n.
    andthen (on_db (op_list_runs (rm_store m) (run_filter_default\<lparr>f_status := Some RetryWait\<rparr>))) (\<lambda>retry_runs.
    for_each (recover_retry_run E (rm_store m) now) retry_runs n))))"

subsection \<open>What recovery does to one run\<close>

definition stale_action :: "time \<Rightarrow> time \<Rightarrow> 'j job_run \<Rightarrow> 'j job_run option" where
  "stale_action now cutoff r =
    (if \<not> run_stale now cutoff r then None
     else if r_status r = Running then
       Some (r\<lparr>r_status := if r_max_attempts r \<le> r_attempt r then DeadLetter else Scheduled\<rparr>)
     else Some (r\<lparr>r_status := Scheduled, r_lease_owner := Some [], r_lease_expires_at := Some now\<rparr>))"

definition retry_ready :: "'j ext \<Rightarrow> time \<Rightarrow> 'j job_run \<Rightarrow> bool" where
  "retry_ready E now r = (case r_finished_at r of None \<Rightarrow> True
     | Some fa \<Rightarrow> (case x_dt_add E fa nanos_per_sec of Some t \<Rightarrow> t \<le> now | None \<Rightarrow> False))"

definition retry_action :: "'j ext \<Rightarrow> time \<Rightarrow> 'j job_run \<Rightarrow> 'j job_run option" where
  "retry_action E now r =
    (if r_status r = RetryWait \<and> retry_ready E now r then Some (r\<lparr>r_status := Scheduled\<rparr>) else None)"

definition recovery_action :: "'j ext \<Rightarrow> time \<Rightarrow> time \<Rightarrow> 'j job_run \<Rightarrow> 'j job_run option" where
  "recovery_action E now cutoff r =
    (case stale_action now cutoff r of Some r' \<Rightarrow> Some r' | None \<Rightarrow> retry_action E now r)"

text \<open>The check of the retry delay does not leave chrono's range.\<close>

definition retry_computable :: "'j ext \<Rightarrow> 'j job_run \<Rightarrow> bool" where
  "retry_computable E r \<longleftrightarrow> (case r_finished_at r of None \<Rightarrow> True
     | Some fa \<Rightarrow> x_dt_add E fa nanos_per_sec \<noteq> None)"

text \<open>\<open>r'\<close> is \<open>r\<close> after the action \<open>a\<close>, up to the time stamp of the update.\<close>

definition run_updated :: "'j job_run option \<Rightarrow> 'j job_run \<Rightarrow> 'j job_run \<Rightarrow> bool" where
  "run_updated a r r' \<longleftrightarrow> (case a of None \<Rightarrow> r' = r | Some x \<Rightarrow> \<exists>t. r' = x\<lparr>r_updated_at := t\<rparr>)"

text \<open>Every run whose key satisfies \<open>K\<close> has had its action, the rest of the store is as before.\<close>

definition runs_updated ::
  "('j job_run \<Rightarrow> 'j job_run option) \<Rightarrow> (string \<Rightarrow> bool) \<Rightarrow> 'j store_view \<Rightarrow> 'j store_view \<Rightarrow> bool" where
  "runs_updated a K v v' \<longleftrightarrow> v_jobs v' = v_jobs v \<and> v_dead v' = v_dead v \<and>
    dom (v_runs v') = dom (v_runs v) \<and>
    (\<forall>k r. v_runs v k = Some r \<longrightarrow> (\<exists>r'. v_runs v' k = Some r' \<and>
      run_updated (if K k then a r else None) r r'))"

lemma runs_updated_refl: "(\<And>k. \<not> K k) \<Longrightarrow> runs_updated a K v v"
  by (simp add: runs_updated_def run_updated_def)

lemma runs_updated_Cons:
  assumes "v_runs v (key r) = Some r" "run_updated (a r) r r'"
    and v1: "v1 = v\<lparr>v_runs := (v_runs v)(key r \<mapsto> r')\<rparr>"
    and "key r \<notin> key ` set rs" "runs_updated a (\<lambda>k. k \<in> key ` set rs) v1 v2"
  shows "runs_updated a (\<lambda>k. k \<in> key ` set (r # rs)) v v2"
proof -
  have d: "dom (v_runs v1) = dom (v_runs v)" using assms(1) by (auto simp: v1)
  have "\<exists>q'. v_runs v2 k = Some q' \<and> run_updated (if k \<in> key ` set (r # rs) then a q else None) q q'"
    if "v_runs v k = Some q" for k q
  proof (cases "k = key r")
    case True
    then have "v_runs v1 k = Some r'" "q = r" using assms(1) that by (simp_all add: v1)
    moreover obtain q' where "v_runs v2 k = Some q'"
        "run_updated (if k \<in> key ` set rs then a r' else None) r' q'"
      using assms(5) \<open>v_runs v1 k = Some r'\<close> unfolding runs_updated_def by blast
    ultimately have "v_runs v2 k = Some r'" "q = r"
      using assms(4) True by (simp_all add: run_updated_def)
    with True assms(2) show ?thesis by simp
  next
    case False
    then have "v_runs v1 k = Some q" using that by (simp add: v1)
    with False assms(5) show ?thesis by (auto simp: runs_updated_def)
  qed
  with assms(5) d show ?thesis by (simp add: runs_updated_def v1)
qed

lemma runs_updatedE:
  assumes "runs_updated a K v v'" "v_runs v k = Some r"
  shows "\<exists>r'. v_runs v' k = Some r' \<and> run_updated (if K k then a r else None) r r'"
  using assms unfolding runs_updated_def by blast

lemma runs_updated_total:
  assumes "runs_updated a K v v'" "\<And>k r. v_runs v k = Some r \<Longrightarrow> \<not> K k \<Longrightarrow> a r = None"
  shows "runs_updated a (\<lambda>_. True) v v'"
proof -
  have "\<exists>r'. v_runs v' k = Some r' \<and> run_updated (a r) r r'" if "v_runs v k = Some r" for k r
    using runs_updatedE [OF assms(1) that] assms(2) [OF that] by (cases "K k") auto
  with assms(1) show ?thesis by (simp add: runs_updated_def)
qed

lemma runs_updatedD:
  assumes "runs_updated a (\<lambda>_. True) v v'" "v_runs v k = Some r"
  shows "\<exists>r'. v_runs v' k = Some r' \<and> run_updated (a r) r r'"
  using runs_updatedE [OF assms] by simp

lemma runs_updated_origin:
  assumes "runs_updated a (\<lambda>_. True) v v'" "v_runs v' k = Some r'"
  shows "\<exists>r. v_runs v k = Some r \<and> run_updated (a r) r r'"
proof -
  have "k \<in> dom (v_runs v)" using assms by (auto simp: runs_updated_def)
  then obtain r where r: "v_runs v k = Some r" by auto
  with runs_updatedD [OF assms(1) r] assms(2) show ?thesis by auto
qed

lemma stale_not_retry:
  "run_updated (stale_action now cutoff r) r r' \<Longrightarrow>
    (if stale_action now cutoff r = None then r' = r else retry_action E now r' = None \<and> r_status r' \<noteq> RetryWait)"
  by (auto simp: run_updated_def stale_action_def retry_action_def split: if_splits)

lemma stale_keeps_retry:
  assumes "runs_updated (stale_action now cutoff) (\<lambda>_. True) v v1" "v_runs v1 k = Some r" "r_status r = RetryWait"
  shows "v_runs v k = Some r"
proof -
  obtain q where "v_runs v k = Some q" "run_updated (stale_action now cutoff q) q r"
    using runs_updated_origin [OF assms(1,2)] by blast
  with assms(3) show ?thesis by (auto dest!: stale_not_retry split: if_splits)
qed

lemma recovery_compose:
  assumes "runs_updated (stale_action now cutoff) (\<lambda>_. True) v v1"
    and "runs_updated (retry_action E now) (\<lambda>_. True) v1 v2"
  shows "runs_updated (recovery_action E now cutoff) (\<lambda>_. True) v v2"
proof -
  have "\<exists>r2. v_runs v2 k = Some r2 \<and> run_updated (recovery_action E now cutoff r) r r2"
    if kr: "v_runs v k = Some r" for k r
  proof -
    obtain r1 where r1: "v_runs v1 k = Some r1" "run_updated (stale_action now cutoff r) r r1"
      using runs_updatedD [OF assms(1) kr] by blast
    obtain r2 where r2: "v_runs v2 k = Some r2" "run_updated (retry_action E now r1) r1 r2"
      using runs_updatedD [OF assms(2) r1(1)] by blast
    have "run_updated (recovery_action E now cutoff r) r r2"
      using stale_not_retry [OF r1(2), of E] r1(2) r2(2)
      by (cases "stale_action now cutoff r") (auto simp: recovery_action_def run_updated_def)
    with r2(1) show ?thesis by blast
  qed
  with assms show ?thesis by (simp add: runs_updated_def)
qed

lemma recovery_count:
  assumes "runs_updated (stale_action now cutoff) (\<lambda>_. True) v v1" "finite (dom (v_runs v))"
  shows "card {k. \<exists>r. v_runs v k = Some r \<and> recovery_action E now cutoff r \<noteq> None} =
    card {k. \<exists>r. v_runs v k = Some r \<and> stale_action now cutoff r \<noteq> None} +
    card {k. \<exists>r. v_runs v1 k = Some r \<and> retry_action E now r \<noteq> None}"
proof -
  have "(\<exists>r. v_runs v1 k = Some r \<and> retry_action E now r \<noteq> None) \<longleftrightarrow>
      (\<exists>r. v_runs v k = Some r \<and> stale_action now cutoff r = None \<and> retry_action E now r \<noteq> None)" for k
  proof
    assume "\<exists>r. v_runs v1 k = Some r \<and> retry_action E now r \<noteq> None"
    then obtain r1 where r1: "v_runs v1 k = Some r1" "retry_action E now r1 \<noteq> None" by blast
    then obtain r where "v_runs v k = Some r" "run_updated (stale_action now cutoff r) r r1"
      using runs_updated_origin [OF assms(1)] by blast
    then show "\<exists>r. v_runs v k = Some r \<and> stale_action now cutoff r = None \<and> retry_action E now r \<noteq> None"
      using stale_not_retry [of now cutoff r r1 E] r1(2) by (auto split: if_splits)
  next
    assume "\<exists>r. v_runs v k = Some r \<and> stale_action now cutoff r = None \<and> retry_action E now r \<noteq> None"
    then obtain r where r: "v_runs v k = Some r" "stale_action now cutoff r = None" "retry_action E now r \<noteq> None"
      by blast
    then show "\<exists>r. v_runs v1 k = Some r \<and> retry_action E now r \<noteq> None"
      using runs_updatedD [OF assms(1) r(1)] by (simp add: run_updated_def)
  qed
  note retry = this
  have eq: "{k. \<exists>r. v_runs v k = Some r \<and> recovery_action E now cutoff r \<noteq> None} =
      {k. \<exists>r. v_runs v k = Some r \<and> stale_action now cutoff r \<noteq> None} \<union>
      {k. \<exists>r. v_runs v1 k = Some r \<and> retry_action E now r \<noteq> None}"
    unfolding retry by (auto simp: recovery_action_def split: option.splits)
  have fin: "finite {k. \<exists>r. v_runs v k = Some r \<and> P r}" for P
    by (rule finite_subset [OF _ assms(2)]) auto
  have fin1: "finite {k. \<exists>r. v_runs v1 k = Some r \<and> retry_action E now r \<noteq> None}"
    unfolding retry by (rule fin)
  show ?thesis
    unfolding eq by (rule card_Un_disjoint [OF fin fin1]) (unfold retry, auto)
qed

lemma status_patch_neq [simp]: "status_patch st \<noteq> run_patch_default" "release_patch now \<noteq> run_patch_default"
  by (simp_all add: status_patch_def release_patch_def run_patch_default_def)

lemma status_patch_ok [simp]: "patch_ok okt okv (status_patch st)" "patch_ok okt okv (release_patch now) = okt now"
  by (simp_all add: status_patch_def release_patch_def run_patch_default_def patch_ok_def)

lemma apply_status_patch:
  "apply_patch t (status_patch st) r = r\<lparr>r_status := st, r_updated_at := t\<rparr>"
  "apply_patch t (release_patch now) r = r\<lparr>r_status := Scheduled, r_lease_owner := Some [],
    r_lease_expires_at := Some now, r_updated_at := t\<rparr>"
  by (simp_all add: apply_patch_def status_patch_def release_patch_def run_patch_default_def)

subsection \<open>The loops, over any store\<close>

context leyla_store
begin

lemma store_update_run_law:
  assumes "invar (db w)" "utc_ok okt w" "v_runs (view (db w)) k = Some r"
    and "p \<noteq> run_patch_default" "patch_ok okt okv p"
  shows "\<exists>w' t. store_update_run S k p w = (Ok (), w') \<and> invar (db w') \<and> utc_src w' = utc_src w \<and>
    view (db w') = (view (db w))\<lparr>v_runs := (v_runs (view (db w)))(k \<mapsto> apply_patch t p r)\<rparr>"
proof -
  have "okt (utc_src w (utc_idx w))" using assms(2) by (simp add: utc_ok_def)
  from update_run_Some [OF assms(1,3,4,5) this] show ?thesis
    by (auto simp: store_update_run_simp on_db_def)
qed

text \<open>A loop whose turns apply \<open>a\<close> to their runs applies it to all of them, and counts.\<close>

lemma update_loop:
  assumes "invar (db w)" "utc_ok okt w" "distinct (map (\<lambda>r. x_uuid_str E (r_run_id r)) rs)"
    and "\<And>r. r \<in> set rs \<Longrightarrow> v_runs (view (db w)) (x_uuid_str E (r_run_id r)) = Some r"
    and turn: "\<And>w r n. r \<in> set rs \<Longrightarrow> invar (db w) \<Longrightarrow> utc_ok okt w \<Longrightarrow>
      v_runs (view (db w)) (x_uuid_str E (r_run_id r)) = Some r \<Longrightarrow>
      \<exists>w' r'. f r n w = (Ok (n + (if a r = None then 0 else 1)), w') \<and> invar (db w') \<and>
        utc_src w' = utc_src w \<and> run_updated (a r) r r' \<and>
        view (db w') = (view (db w))\<lparr>v_runs := (v_runs (view (db w)))(x_uuid_str E (r_run_id r) \<mapsto> r')\<rparr>"
  shows "\<exists>w'. for_each f rs n w = (Ok (n + length (filter (\<lambda>r. a r \<noteq> None) rs)), w') \<and>
    invar (db w') \<and> utc_src w' = utc_src w \<and>
    runs_updated a (\<lambda>k. k \<in> (\<lambda>r. x_uuid_str E (r_run_id r)) ` set rs) (view (db w)) (view (db w'))"
  using assms
proof (induction rs arbitrary: n w)
  case Nil
  then show ?case by (simp add: runs_updated_refl)
next
  case (Cons r rs)
  let ?key = "\<lambda>r. x_uuid_str E (r_run_id r)"
  have hd: "v_runs (view (db w)) (?key r) = Some r" using Cons.prems(4) by simp
  obtain w1 r' where step: "f r n w = (Ok (n + (if a r = None then 0 else 1)), w1)" "invar (db w1)"
      "utc_src w1 = utc_src w" "run_updated (a r) r r'"
    and v1: "view (db w1) = (view (db w))\<lparr>v_runs := (v_runs (view (db w)))(?key r \<mapsto> r')\<rparr>"
    using Cons.prems(5) [OF list.set_intros(1) Cons.prems(1,2) hd, of n] by blast
  have new: "?key r \<notin> ?key ` set rs" using Cons.prems(3) by simp
  have stored: "v_runs (view (db w1)) (?key q) = Some q" if "q \<in> set rs" for q
  proof -
    have "?key q \<noteq> ?key r" using that new by (metis image_eqI)
    then show ?thesis using Cons.prems(4) [of q] that by (simp add: v1)
  qed
  obtain w2 where IH: "for_each f rs (n + (if a r = None then 0 else 1)) w1 =
      (Ok (n + (if a r = None then 0 else 1) + length (filter (\<lambda>r. a r \<noteq> None) rs)), w2)"
    "invar (db w2)" "utc_src w2 = utc_src w1"
    "runs_updated a (\<lambda>k. k \<in> ?key ` set rs) (view (db w1)) (view (db w2))"
    using Cons.IH [OF step(2) _ _ stored, of "n + (if a r = None then 0 else 1)"] Cons.prems(2,3,5) step(3)
    by (auto simp: utc_ok_def)
  have "runs_updated a (\<lambda>k. k \<in> ?key ` set (r # rs)) (view (db w)) (view (db w2))"
    by (rule runs_updated_Cons [OF _ step(4) v1 new IH(4)]) (simp add: Cons.prems(4))
  moreover have "for_each f (r # rs) n w = (Ok (n + length (filter (\<lambda>r. a r \<noteq> None) (r # rs))), w2)"
    using IH(1) step(1) by (auto simp: andthen_def)
  ultimately show ?case using IH(2,3) step(3) by auto
qed

lemma stored_key: "invar s \<Longrightarrow> r \<in> ran (v_runs (view s)) \<Longrightarrow> v_runs (view s) (x_uuid_str E (r_run_id r)) = Some r"
  by (auto simp: ran_def dest: view_run_key)

text \<open>Listed runs: distinct keys, and as many as the store holds.\<close>

lemma listed_keys:
  assumes "invar s" "distinct (map r_run_id rs)" "set rs = {r \<in> ran (v_runs (view s)). Q r}"
  shows "distinct (map (\<lambda>r. x_uuid_str E (r_run_id r)) rs)"
    and "(\<And>r. P r \<Longrightarrow> Q r) \<Longrightarrow> length (filter P rs) = card {k. \<exists>r. v_runs (view s) k = Some r \<and> P r}"
proof -
  have st: "v_runs (view s) (x_uuid_str E (r_run_id r)) = Some r" if "r \<in> set rs" for r
    using that stored_key [OF assms(1)] by (simp add: assms(3))
  have "inj_on (\<lambda>r. x_uuid_str E (r_run_id r)) (set rs)"
  proof (rule inj_onI)
    fix a b assume *: "a \<in> set rs" "b \<in> set rs" "x_uuid_str E (r_run_id a) = x_uuid_str E (r_run_id b)"
    have "Some a = Some b" unfolding st [OF *(1), symmetric] st [OF *(2), symmetric] *(3) ..
    then show "a = b" by simp
  qed
  moreover have "distinct rs" using assms(2) by (simp add: distinct_map)
  ultimately show d: "distinct (map (\<lambda>r. x_uuid_str E (r_run_id r)) rs)" by (simp add: distinct_map)
  assume PQ: "\<And>r. P r \<Longrightarrow> Q r"
  have "length (filter P rs) = card (set (map (\<lambda>r. x_uuid_str E (r_run_id r)) (filter P rs)))"
    using distinct_card [OF distinct_map_filter [OF d, of P]] by simp
  also have "set (map (\<lambda>r. x_uuid_str E (r_run_id r)) (filter P rs)) = {k. \<exists>r. v_runs (view s) k = Some r \<and> P r}"
  proof (intro set_eqI iffI)
    fix k assume "k \<in> set (map (\<lambda>r. x_uuid_str E (r_run_id r)) (filter P rs))"
    then show "k \<in> {k. \<exists>r. v_runs (view s) k = Some r \<and> P r}" using st by auto
  next
    fix k assume "k \<in> {k. \<exists>r. v_runs (view s) k = Some r \<and> P r}"
    then obtain r where r: "v_runs (view s) k = Some r" "P r" by auto
    then have "r \<in> set rs" using PQ by (auto simp: assms(3) ran_def)
    with r view_run_key [OF assms(1) r(1)]
    show "k \<in> set (map (\<lambda>r. x_uuid_str E (r_run_id r)) (filter P rs))" by force
  qed
  finally show "length (filter P rs) = card {k. \<exists>r. v_runs (view s) k = Some r \<and> P r}" .
qed

lemma stale_turn:
  assumes "invar (db w)" "utc_ok okt w" "okt now" "run_stale now cutoff r"
    and st: "v_runs (view (db w)) (x_uuid_str E (r_run_id r)) = Some r"
  shows "\<exists>w' r'. recover_stale_run E S now r n w =
      (Ok (n + (if stale_action now cutoff r = None then 0 else 1)), w') \<and> invar (db w') \<and>
    utc_src w' = utc_src w \<and> run_updated (stale_action now cutoff r) r r' \<and>
    view (db w') = (view (db w))\<lparr>v_runs := (v_runs (view (db w)))(x_uuid_str E (r_run_id r) \<mapsto> r')\<rparr>"
proof (cases "r_status r = Running")
  case True
  let ?key = "x_uuid_str E (r_run_id r)"
  define nst where "nst = (if r_max_attempts r \<le> r_attempt r then DeadLetter else Scheduled)"
  obtain w1 t1 where 1: "store_update_run S ?key (status_patch Orphaned) w = (Ok (), w1)" "invar (db w1)"
      "utc_src w1 = utc_src w"
    and v1: "view (db w1) = (view (db w))\<lparr>v_runs := (v_runs (view (db w)))(?key \<mapsto>
      apply_patch t1 (status_patch Orphaned) r)\<rparr>"
    using store_update_run_law [OF assms(1,2) st status_patch_neq(1) status_patch_ok(1)] by blast
  have ok1: "utc_ok okt w1" using assms(2) 1(3) by (simp add: utc_ok_def)
  have st1: "v_runs (view (db w1)) ?key = Some (apply_patch t1 (status_patch Orphaned) r)" by (simp add: v1)
  obtain w2 t2 where 2: "store_update_run S ?key (status_patch nst) w1 = (Ok (), w2)" "invar (db w2)"
      "utc_src w2 = utc_src w1"
    and v2: "view (db w2) = (view (db w1))\<lparr>v_runs := (v_runs (view (db w1)))(?key \<mapsto>
      apply_patch t2 (status_patch nst) (apply_patch t1 (status_patch Orphaned) r))\<rparr>"
    using store_update_run_law [OF 1(2) ok1 st1 status_patch_neq(1) status_patch_ok(1)] by blast
  have "recover_stale_run E S now r n w = (Ok (n + 1), w2)"
    using 1(1) 2(1) True by (simp add: recover_stale_run_def Let_def andthen_def nst_def split: if_splits)
  moreover have "run_updated (stale_action now cutoff r) r
      (apply_patch t2 (status_patch nst) (apply_patch t1 (status_patch Orphaned) r))"
    using True assms(4) by (auto simp: run_updated_def stale_action_def apply_status_patch nst_def)
  moreover have "stale_action now cutoff r \<noteq> None" using assms(4) by (simp add: stale_action_def)
  moreover have "view (db w2) = (view (db w))\<lparr>v_runs := (v_runs (view (db w)))(?key \<mapsto>
      apply_patch t2 (status_patch nst) (apply_patch t1 (status_patch Orphaned) r))\<rparr>"
    by (simp add: v2 v1)
  ultimately show ?thesis using 1(3) 2(2,3) by (simp only: if_False) blast
next
  case False
  then have lsd: "r_status r = Leased" using assms(4) by (auto simp: run_stale_def)
  let ?key = "x_uuid_str E (r_run_id r)"
  have pok: "patch_ok okt okv (release_patch now)" using assms(3) by simp
  obtain w1 t1 where 1: "store_update_run S ?key (release_patch now) w = (Ok (), w1)" "invar (db w1)"
      "utc_src w1 = utc_src w"
    and v1: "view (db w1) = (view (db w))\<lparr>v_runs := (v_runs (view (db w)))(?key \<mapsto>
      apply_patch t1 (release_patch now) r)\<rparr>"
    using store_update_run_law [OF assms(1,2) st status_patch_neq(2) pok] by blast
  have "recover_stale_run E S now r n w = (Ok (n + 1), w1)"
    using 1(1) lsd by (simp add: recover_stale_run_def Let_def andthen_def)
  moreover have "run_updated (stale_action now cutoff r) r (apply_patch t1 (release_patch now) r)"
    using lsd assms(4) by (auto simp: run_updated_def stale_action_def apply_status_patch)
  moreover have "stale_action now cutoff r \<noteq> None" using assms(4) by (simp add: stale_action_def)
  ultimately show ?thesis using 1(2,3) v1 by (simp only: if_False) blast
qed

lemma retry_turn:
  assumes "invar (db w)" "utc_ok okt w" "r_status r = RetryWait" "retry_computable E r"
    and st: "v_runs (view (db w)) (x_uuid_str E (r_run_id r)) = Some r"
  shows "\<exists>w' r'. recover_retry_run E S now r n w =
      (Ok (n + (if retry_action E now r = None then 0 else 1)), w') \<and> invar (db w') \<and>
    utc_src w' = utc_src w \<and> run_updated (retry_action E now r) r r' \<and>
    view (db w') = (view (db w))\<lparr>v_runs := (v_runs (view (db w)))(x_uuid_str E (r_run_id r) \<mapsto> r')\<rparr>"
proof -
  let ?key = "x_uuid_str E (r_run_id r)"
  have ready: "(case r_finished_at r of
        Some fa \<Rightarrow> (case x_dt_add E fa nanos_per_sec of Some t \<Rightarrow> Ok (t \<le> now) | None \<Rightarrow> Panic)
      | None \<Rightarrow> Ok True) = (Ok (retry_ready E now r) :: (store_error, bool) outcome)"
    using assms(4) by (auto simp: retry_ready_def retry_computable_def split: option.splits)
  show ?thesis
  proof (cases "retry_ready E now r")
    case True
    obtain w1 t1 where 1: "store_update_run S ?key (status_patch Scheduled) w = (Ok (), w1)" "invar (db w1)"
        "utc_src w1 = utc_src w"
      and v1: "view (db w1) = (view (db w))\<lparr>v_runs := (v_runs (view (db w)))(?key \<mapsto>
        apply_patch t1 (status_patch Scheduled) r)\<rparr>"
      using store_update_run_law [OF assms(1,2) st status_patch_neq(1) status_patch_ok(1)] by blast
    have "recover_retry_run E S now r n w = (Ok (n + 1), w1)"
      using 1(1) True assms(3) ready by (simp add: recover_retry_run_def andthen_def)
    moreover have "run_updated (retry_action E now r) r (apply_patch t1 (status_patch Scheduled) r)"
      using True assms(3) by (auto simp: retry_action_def run_updated_def apply_status_patch)
    moreover have "retry_action E now r \<noteq> None" using True assms(3) by (simp add: retry_action_def)
    ultimately show ?thesis using 1(2,3) v1 by (simp only: if_False) blast
  next
    case False
    then have "recover_retry_run E S now r n w = (Ok n, w)"
      using assms(3) ready by (simp add: recover_retry_run_def andthen_def)
    with False assms(1) st show ?thesis
      by (intro exI [of _ w] exI [of _ r]) (auto simp: retry_action_def run_updated_def fun_upd_idem)
  qed
qed

text \<open>The two loops together apply \<open>recovery_action\<close> to every run of the store.\<close>

lemma recover_effect:
  assumes "invar (db w)" "utc_ok okt w" "okt now" "rm_store m = S"
    and clock: "clock_now (rm_clock m) w = ((Ok now :: (store_error, time) outcome), w0)"
    and thr: "x_td_from_std E (rm_stale_threshold m) = Inr d" "x_dt_sub E now d = Some cutoff" "okt cutoff"
    and retry: "\<And>k r. v_runs (view (db w)) k = Some r \<Longrightarrow> r_status r = RetryWait \<Longrightarrow> retry_computable E r"
  shows "\<exists>w'. recover E m w =
      (Ok (card {k. \<exists>r. v_runs (view (db w)) k = Some r \<and> recovery_action E now cutoff r \<noteq> None}), w') \<and>
    invar (db w') \<and> runs_updated (recovery_action E now cutoff) (\<lambda>_. True) (view (db w)) (view (db w'))"
proof -
  let ?key = "\<lambda>r :: 'j job_run. x_uuid_str E (r_run_id r)"
  have db0: "db w0 = db w" "utc_src w0 = utc_src w" using clk.now_frame [OF clock] by simp_all
  obtain ss where ss: "op_get_stale_runs S now (rm_stale_threshold m) (db w) = (Ok ss, db w)"
      "distinct (map r_run_id ss)" "set ss = {r \<in> ran (v_runs (view (db w))). run_stale now cutoff r}"
    using stale_runs_law [OF assms(1,3) thr] by blast
  have ss_stored: "v_runs (view (db w)) (?key r) = Some r \<and> run_stale now cutoff r" if "r \<in> set ss" for r
    using that stored_key [OF assms(1)] by (simp add: ss(3))
  have inv0: "invar (db w0)" and utc0: "utc_ok okt w0" using assms(1,2) db0 by (simp_all add: utc_ok_def)
  have st1: "v_runs (view (db w0)) (?key r) = Some r" if "r \<in> set ss" for r
    using ss_stored [OF that] by (simp add: db0)
  have st2: "\<exists>w' r'. recover_stale_run E S now r n w =
      (Ok (n + (if stale_action now cutoff r = None then 0 else 1)), w') \<and> invar (db w') \<and>
    utc_src w' = utc_src w \<and> run_updated (stale_action now cutoff r) r r' \<and>
    view (db w') = (view (db w))\<lparr>v_runs := (v_runs (view (db w)))(?key r \<mapsto> r')\<rparr>"
    if "r \<in> set ss" "invar (db w)" "utc_ok okt w" "v_runs (view (db w)) (?key r) = Some r" for w r n
    by (rule stale_turn [OF that(2,3) assms(3) _ that(4)]) (use ss_stored that(1) in blast)
  obtain w1 where 1: "for_each (recover_stale_run E S now) ss 0 w0 =
        (Ok (0 + length (filter (\<lambda>r. stale_action now cutoff r \<noteq> None) ss)), w1)"
      "invar (db w1)" "utc_src w1 = utc_src w0"
      "runs_updated (stale_action now cutoff) (\<lambda>k. k \<in> ?key ` set ss) (view (db w0)) (view (db w1))"
    using update_loop [OF inv0 utc0 listed_keys(1) [OF assms(1) ss(2,3)],
        where f = "recover_stale_run E S now" and a = "stale_action now cutoff" and n = 0] st1 st2 by blast
  have "runs_updated (stale_action now cutoff) (\<lambda>_. True) (view (db w)) (view (db w1))"
    using 1(4) unfolding db0
    by (rule runs_updated_total) (auto simp: ss(3) ran_def stale_action_def image_iff dest: view_run_key [OF assms(1)])
  note U1 = this
  obtain qs where qs: "op_list_runs S (run_filter_default\<lparr>f_status := Some RetryWait\<rparr>) (db w1) = (Ok qs, db w1)"
      "distinct (map r_run_id qs)" "set qs = {r \<in> ran (v_runs (view (db w1))). r_status r = RetryWait}"
    using list_runs_law [OF 1(2), of "run_filter_default\<lparr>f_status := Some RetryWait\<rparr>"]
    by (auto simp: run_filter_default_def filter_matches_def)
  have qs_stored: "v_runs (view (db w1)) (?key r) = Some r \<and> r_status r = RetryWait \<and> retry_computable E r"
    if "r \<in> set qs" for r
  proof -
    have *: "v_runs (view (db w1)) (?key r) = Some r" "r_status r = RetryWait"
      using that stored_key [OF 1(2)] by (simp_all add: qs(3))
    have "v_runs (view (db w)) (?key r) = Some r"
      by (rule stale_keeps_retry [OF U1 *])
    with retry * show ?thesis by blast
  qed
  have utc1: "utc_ok okt w1" using utc0 1(3) by (simp add: utc_ok_def)
  have qt: "\<exists>w' r'. recover_retry_run E S now r n w =
      (Ok (n + (if retry_action E now r = None then 0 else 1)), w') \<and> invar (db w') \<and>
    utc_src w' = utc_src w \<and> run_updated (retry_action E now r) r r' \<and>
    view (db w') = (view (db w))\<lparr>v_runs := (v_runs (view (db w)))(?key r \<mapsto> r')\<rparr>"
    if "r \<in> set qs" "invar (db w)" "utc_ok okt w" "v_runs (view (db w)) (?key r) = Some r" for w r n
    by (rule retry_turn [OF that(2,3) _ _ that(4)]) (use qs_stored that(1) in blast)+
  obtain w2 where 2: "for_each (recover_retry_run E S now) qs (length (filter (\<lambda>r. stale_action now cutoff r \<noteq> None) ss)) w1 =
        (Ok (length (filter (\<lambda>r. stale_action now cutoff r \<noteq> None) ss) +
          length (filter (\<lambda>r. retry_action E now r \<noteq> None) qs)), w2)"
      "invar (db w2)"
      "runs_updated (retry_action E now) (\<lambda>k. k \<in> ?key ` set qs) (view (db w1)) (view (db w2))"
    using update_loop [OF 1(2) utc1 listed_keys(1) [OF 1(2) qs(2,3)], where f = "recover_retry_run E S now"
        and a = "retry_action E now" and n = "length (filter (\<lambda>r. stale_action now cutoff r \<noteq> None) ss)"]
      qs_stored qt by blast
  have U2: "runs_updated (retry_action E now) (\<lambda>_. True) (view (db w1)) (view (db w2))"
    using 2(3)
    by (rule runs_updated_total) (auto simp: qs(3) ran_def retry_action_def image_iff dest: view_run_key [OF 1(2)])
  have "length (filter (\<lambda>r. stale_action now cutoff r \<noteq> None) ss) =
      card {k. \<exists>r. v_runs (view (db w)) k = Some r \<and> stale_action now cutoff r \<noteq> None}"
    by (rule listed_keys(2) [OF assms(1) ss(2,3)]) (simp add: stale_action_def split: if_splits)
  moreover have "length (filter (\<lambda>r. retry_action E now r \<noteq> None) qs) =
      card {k. \<exists>r. v_runs (view (db w1)) k = Some r \<and> retry_action E now r \<noteq> None}"
    by (rule listed_keys(2) [OF 1(2) qs(2,3)]) (simp add: retry_action_def split: if_splits)
  moreover have "recover E m w = (Ok (length (filter (\<lambda>r. stale_action now cutoff r \<noteq> None) ss) +
      length (filter (\<lambda>r. retry_action E now r \<noteq> None) qs)), w2)"
  proof -
    have s1: "on_db (op_get_stale_runs S now (rm_stale_threshold m)) w0 = (Ok ss, w0)"
      using ss(1) by (simp add: on_db_def flip: db0(1))
    have s2: "on_db (op_list_runs S (run_filter_default\<lparr>f_status := Some RetryWait\<rparr>)) w1 = (Ok qs, w1)"
      using qs(1) by (simp add: on_db_def)
    show ?thesis
      unfolding recover_def andthen_clock [OF clock] assms(4)
      using s1 1(1) s2 2(1) by (simp add: andthen_def)
  qed
  ultimately have "recover E m w =
      (Ok (card {k. \<exists>r. v_runs (view (db w)) k = Some r \<and> recovery_action E now cutoff r \<noteq> None}), w2)"
    using recovery_count [OF U1 view_finite [OF assms(1)], of E] by simp
  with 2(2) recovery_compose [OF U1 U2] show ?thesis by blast
qed

end

subsection \<open>A store that checks the life cycle\<close>

text \<open>
  The store \<open>S\<close> with a check in \<open>update_run\<close>: a patch that moves the run it finds along no transition of
  the life cycle, or that sets the attempt counter, is refused and changes nothing.
\<close>

definition legal_patch :: "'j run_patch \<Rightarrow> 'j job_run \<Rightarrow> bool" where
  "legal_patch p r \<longleftrightarrow> p_attempt p = None \<and>
    (case p_status p of None \<Rightarrow> True | Some st \<Rightarrow> is_Ok (transition (r_status r) st))"

definition with_check :: "('s, 'j) store_ops \<Rightarrow> ('s, 'j) store_ops" where
  "with_check S = S\<lparr>op_update_run := \<lambda>now k p s.
     (case op_get_run S k s of
        (Ok r, s') \<Rightarrow> (if legal_patch p r then op_update_run S now k p s else (Err (Internal ''invalid transition''), s))
      | _ \<Rightarrow> op_update_run S now k p s)\<rparr>"

lemma with_check_simps [simp]:
  "op_get_stale_runs (with_check S) = op_get_stale_runs S" "op_list_runs (with_check S) = op_list_runs S"
  by (simp_all add: with_check_def)

lemma legal_patches:
  "legal_patch (status_patch st) r = can_transition (r_status r) st"
  "legal_patch (release_patch now) r = can_transition (r_status r) Scheduled"
  by (simp_all add: legal_patch_def status_patch_def release_patch_def run_patch_default_def transition_def)

context leyla_store
begin

lemma checked_update:
  assumes "invar (db w)" "v_runs (view (db w)) k = Some r" "legal_patch p r"
  shows "store_update_run (with_check S) k p w = store_update_run S k p w"
  using get_run_law [OF assms(1), of k] assms(2,3)
  by (simp add: store_update_run_simp on_db_def with_check_def)

text \<open>A loop whose turns do the same on two stores does the same on both.\<close>

lemma update_loop_eq:
  assumes "invar (db w)" "utc_ok okt w" "distinct (map (\<lambda>r. x_uuid_str E (r_run_id r)) rs)"
    and "\<And>r. r \<in> set rs \<Longrightarrow> v_runs (view (db w)) (x_uuid_str E (r_run_id r)) = Some r"
    and turn: "\<And>w r n. r \<in> set rs \<Longrightarrow> invar (db w) \<Longrightarrow> utc_ok okt w \<Longrightarrow>
      v_runs (view (db w)) (x_uuid_str E (r_run_id r)) = Some r \<Longrightarrow> g r n w = f r n w \<and>
      (\<exists>m w' r'. f r n w = (Ok m, w') \<and> invar (db w') \<and> utc_src w' = utc_src w \<and>
        view (db w') = (view (db w))\<lparr>v_runs := (v_runs (view (db w)))(x_uuid_str E (r_run_id r) \<mapsto> r')\<rparr>)"
  shows "for_each g rs n w = for_each f rs n w"
  using assms
proof (induction rs arbitrary: n w)
  case (Cons r rs)
  let ?key = "\<lambda>r. x_uuid_str E (r_run_id r)"
  have hd: "v_runs (view (db w)) (?key r) = Some r" using Cons.prems(4) by simp
  obtain m w1 r' where step: "g r n w = (Ok m, w1)" "f r n w = (Ok m, w1)" "invar (db w1)" "utc_src w1 = utc_src w"
    and v1: "view (db w1) = (view (db w))\<lparr>v_runs := (v_runs (view (db w)))(?key r \<mapsto> r')\<rparr>"
    using Cons.prems(5) [OF list.set_intros(1) Cons.prems(1,2) hd, of n] by metis
  have stored: "v_runs (view (db w1)) (?key q) = Some q" if "q \<in> set rs" for q
  proof -
    have "?key r \<notin> ?key ` set rs" using Cons.prems(3) by simp
    then have "?key q \<noteq> ?key r" using that by (metis image_eqI)
    then show ?thesis using Cons.prems(4) [of q] that by (simp add: v1)
  qed
  have "for_each g rs m w1 = for_each f rs m w1"
    by (rule Cons.IH [OF step(3) _ _ stored Cons.prems(5)]) (use Cons.prems(2,3) step(4) in \<open>auto simp: utc_ok_def\<close>)
  then show ?case by (simp add: andthen_def step(1,2))
qed simp

lemma checked_stale:
  assumes "invar (db w)" "utc_ok okt w" "run_stale now cutoff r"
    and st: "v_runs (view (db w)) (x_uuid_str E (r_run_id r)) = Some r"
  shows "recover_stale_run E (with_check S) now r n w = recover_stale_run E S now r n w"
proof (cases "r_status r = Running")
  case True
  let ?key = "x_uuid_str E (r_run_id r)"
  obtain w1 t1 where 1: "store_update_run S ?key (status_patch Orphaned) w = (Ok (), w1)" "invar (db w1)"
    and v1: "view (db w1) = (view (db w))\<lparr>v_runs := (v_runs (view (db w)))(?key \<mapsto>
      apply_patch t1 (status_patch Orphaned) r)\<rparr>"
    using store_update_run_law [OF assms(1,2) st status_patch_neq(1) status_patch_ok(1)] by blast
  have "v_runs (view (db w1)) ?key = Some (apply_patch t1 (status_patch Orphaned) r)" by (simp add: v1)
  moreover have "r_status (apply_patch t1 (status_patch Orphaned) r) = Orphaned" by (simp add: status_patch_def)
  ultimately have 2: "store_update_run (with_check S) ?key (status_patch s') w1 = store_update_run S ?key (status_patch s') w1"
    if "can_transition Orphaned s'" for s'
    using that by (intro checked_update [OF 1(2)]) (assumption, simp add: legal_patches)
  have "store_update_run (with_check S) ?key (status_patch Orphaned) w = (Ok (), w1)"
    using checked_update [OF assms(1) st, of "status_patch Orphaned"] 1(1) True by (simp add: legal_patches)
  then show ?thesis
    using 1(1) 2 [of DeadLetter] 2 [of Scheduled] True by (simp add: recover_stale_run_def Let_def andthen_def)
next
  case False
  then have "r_status r = Leased" using assms(3) by (auto simp: run_stale_def)
  then show ?thesis
    using checked_update [OF assms(1) st, of "release_patch now"]
    by (simp add: recover_stale_run_def Let_def andthen_def legal_patches)
qed

lemma checked_retry:
  assumes "invar (db w)" "v_runs (view (db w)) (x_uuid_str E (r_run_id r)) = Some r" "r_status r = RetryWait"
  shows "recover_retry_run E (with_check S) now r n w = recover_retry_run E S now r n w"
  using checked_update [OF assms(1,2), of "status_patch Scheduled"] assms(3)
  by (simp add: recover_retry_run_def andthen_def legal_patches split: outcome.split)

text \<open>The first loop, on the runs the store lists as stale.\<close>

lemma stale_loop:
  assumes inv: "invar (db w)" "utc_ok okt w" "okt now"
    and ss: "distinct (map r_run_id ss)" "set ss = {r \<in> ran (v_runs (view (db w))). run_stale now cutoff r}"
  shows "for_each (recover_stale_run E (with_check S) now) ss 0 w = for_each (recover_stale_run E S now) ss 0 w"
    and "\<exists>n w'. for_each (recover_stale_run E S now) ss 0 w = (Ok n, w') \<and> invar (db w') \<and> utc_src w' = utc_src w \<and>
      runs_updated (stale_action now cutoff) (\<lambda>_. True) (view (db w)) (view (db w'))"
proof -
  let ?key = "\<lambda>r :: 'j job_run. x_uuid_str E (r_run_id r)"
  have st: "v_runs (view (db w)) (?key r) = Some r" "run_stale now cutoff r" if "r \<in> set ss" for r
    using that stored_key [OF inv(1)] by (simp_all add: ss(2))
  note keys = listed_keys(1) [OF inv(1) ss]
  show "for_each (recover_stale_run E (with_check S) now) ss 0 w = for_each (recover_stale_run E S now) ss 0 w"
  proof (rule update_loop_eq [OF inv(1,2) keys st(1)], assumption)
    fix v r n assume v: "r \<in> set ss" "invar (db v)" "utc_ok okt v" "v_runs (view (db v)) (?key r) = Some r"
    show "recover_stale_run E (with_check S) now r n v = recover_stale_run E S now r n v \<and>
      (\<exists>m w' r'. recover_stale_run E S now r n v = (Ok m, w') \<and> invar (db w') \<and> utc_src w' = utc_src v \<and>
        view (db w') = (view (db v))\<lparr>v_runs := (v_runs (view (db v)))(?key r \<mapsto> r')\<rparr>)"
      using checked_stale [OF v(2,3) st(2) [OF v(1)] v(4), of n] stale_turn [OF v(2,3) inv(3) st(2) [OF v(1)] v(4), of n]
      by blast
  qed
  obtain w' where w': "for_each (recover_stale_run E S now) ss 0 w =
        (Ok (0 + length (filter (\<lambda>r. stale_action now cutoff r \<noteq> None) ss)), w')" "invar (db w')" "utc_src w' = utc_src w"
      "runs_updated (stale_action now cutoff) (\<lambda>k. k \<in> ?key ` set ss) (view (db w)) (view (db w'))"
    using update_loop [OF inv(1,2) keys st(1), where f = "recover_stale_run E S now" and a = "stale_action now cutoff" and n = 0]
      stale_turn [OF _ _ inv(3) st(2)] by blast
  have "runs_updated (stale_action now cutoff) (\<lambda>_. True) (view (db w)) (view (db w'))"
    using w'(4)
    by (rule runs_updated_total) (auto simp: ss(2) ran_def stale_action_def image_iff dest: view_run_key [OF inv(1)])
  with w'(1-3) show "\<exists>n w'. for_each (recover_stale_run E S now) ss 0 w = (Ok n, w') \<and> invar (db w') \<and>
      utc_src w' = utc_src w \<and> runs_updated (stale_action now cutoff) (\<lambda>_. True) (view (db w)) (view (db w'))" by blast
qed

lemma retry_loop_eq:
  assumes inv: "invar (db w)" "utc_ok okt w"
    and qs: "distinct (map r_run_id qs)" "set qs = {r \<in> ran (v_runs (view (db w))). r_status r = RetryWait}"
    and retry: "\<And>r. r \<in> set qs \<Longrightarrow> retry_computable E r"
  shows "for_each (recover_retry_run E (with_check S) now) qs n w = for_each (recover_retry_run E S now) qs n w"
proof -
  let ?key = "\<lambda>r :: 'j job_run. x_uuid_str E (r_run_id r)"
  have st: "v_runs (view (db w)) (?key r) = Some r" "r_status r = RetryWait" if "r \<in> set qs" for r
    using that stored_key [OF inv(1)] by (simp_all add: qs(2))
  show ?thesis
  proof (rule update_loop_eq [OF inv listed_keys(1) [OF inv(1) qs] st(1)], assumption)
    fix v r n assume v: "r \<in> set qs" "invar (db v)" "utc_ok okt v" "v_runs (view (db v)) (?key r) = Some r"
    show "recover_retry_run E (with_check S) now r n v = recover_retry_run E S now r n v \<and>
      (\<exists>m w' r'. recover_retry_run E S now r n v = (Ok m, w') \<and> invar (db w') \<and> utc_src w' = utc_src v \<and>
        view (db w') = (view (db v))\<lparr>v_runs := (v_runs (view (db v)))(?key r \<mapsto> r')\<rparr>)"
      using checked_retry [OF v(2,4) st(2) [OF v(1)], of now n]
        retry_turn [OF v(2,3) st(2) [OF v(1)] retry [OF v(1)] v(4), of now n] by blast
  qed
qed

lemma recover_checked:
  assumes inv: "invar (db w)" "utc_ok okt w" "okt now" "rm_store m = S"
    and clock: "clock_now (rm_clock m) w = ((Ok now :: (store_error, time) outcome), w0)"
    and thr: "x_td_from_std E (rm_stale_threshold m) = Inr d" "x_dt_sub E now d = Some cutoff" "okt cutoff"
    and retry: "\<And>k r. v_runs (view (db w)) k = Some r \<Longrightarrow> r_status r = RetryWait \<Longrightarrow> retry_computable E r"
  shows "recover E (m\<lparr>rm_store := with_check S\<rparr>) w = recover E m w"
proof -
  have db0: "db w0 = db w" "utc_src w0 = utc_src w" using clk.now_frame [OF clock] by simp_all
  have inv0: "invar (db w0)" "utc_ok okt w0" using inv(1,2) db0 by (simp_all add: utc_ok_def)
  obtain ss where ss: "op_get_stale_runs S now (rm_stale_threshold m) (db w0) = (Ok ss, db w0)"
      "distinct (map r_run_id ss)" "set ss = {r \<in> ran (v_runs (view (db w0))). run_stale now cutoff r}"
    using stale_runs_law [OF inv0(1) inv(3) thr] by blast
  note L = stale_loop [OF inv0 inv(3) ss(2,3)]
  from L(2) obtain n w1 where 1: "for_each (recover_stale_run E S now) ss 0 w0 = (Ok n, w1)" "invar (db w1)"
      "utc_src w1 = utc_src w0" "runs_updated (stale_action now cutoff) (\<lambda>_. True) (view (db w0)) (view (db w1))"
    by blast
  let ?f = "run_filter_default\<lparr>f_status := Some RetryWait\<rparr>"
  obtain qs where qs: "op_list_runs S ?f (db w1) = (Ok qs, db w1)"
      "distinct (map r_run_id qs)" "set qs = {r \<in> ran (v_runs (view (db w1))). r_status r = RetryWait}"
    using list_runs_law [OF 1(2), of ?f] by (auto simp: run_filter_default_def filter_matches_def)
  have "retry_computable E r" if "r \<in> set qs" for r
  proof -
    have "r_status r = RetryWait" "\<exists>k. v_runs (view (db w1)) k = Some r" using that by (simp_all add: qs(3) ran_def)
    then obtain k where "v_runs (view (db w1)) k = Some r" "r_status r = RetryWait" by blast
    with stale_keeps_retry [OF 1(4)] have "v_runs (view (db w0)) k = Some r" by blast
    with retry \<open>r_status r = RetryWait\<close> show ?thesis by (simp add: db0)
  qed
  moreover have "utc_ok okt w1" using inv0(2) 1(3) by (simp add: utc_ok_def)
  ultimately have R: "for_each (recover_retry_run E (with_check S) now) qs n w1 = for_each (recover_retry_run E S now) qs n w1"
    by (intro retry_loop_eq [OF 1(2) _ qs(2,3)])
  have steps: "on_db (op_get_stale_runs S now (rm_stale_threshold m)) w0 = (Ok ss, w0)"
      "on_db (op_list_runs S ?f) w1 = (Ok qs, w1)"
    using ss(1) qs(1) by (simp_all add: on_db_def)
  show ?thesis
    by (simp add: recover_def inv(4) andthen_def clock steps L(1) 1(1) R)
qed

end

subsection \<open>Properties\<close>

text \<open>
  C1: \<open>recover\<close> on the memory store, when chrono's range is not left: every stale running run
  goes to \<open>DeadLetter\<close> if its attempts are used up and back to \<open>Scheduled\<close> otherwise, every
  stale leased run goes back to \<open>Scheduled\<close> with its lease cleared (exhausted or not), every
  run in \<open>RetryWait\<close> that finished at least a second ago goes back to \<open>Scheduled\<close>; no other
  run, no job and no dead letter changes, and the number of runs changed is returned.
\<close>
lemma recover_memory:
  assumes "mem_inv E (db w)" "rm_store m = memory_ops E"
    and "clock_now (rm_clock m) w = ((Ok now :: (store_error, time) outcome), w0)"
    and "x_td_from_std E (rm_stale_threshold m) = Inr d" "x_dt_sub E now d = Some cutoff"
    and "\<And>k r. v_runs (mem_view (db w)) k = Some r \<Longrightarrow> r_status r = RetryWait \<Longrightarrow> retry_computable E r"
  shows "\<exists>w'. recover E m w =
      (Ok (card {k. \<exists>r. v_runs (mem_view (db w)) k = Some r \<and> recovery_action E now cutoff r \<noteq> None}), w') \<and>
    mem_inv E (db w') \<and>
    runs_updated (recovery_action E now cutoff) (\<lambda>_. True) (mem_view (db w)) (mem_view (db w'))"
  by (rule mem.recover_effect [OF assms(1) utc_ok_True TrueI assms(2-5) TrueI assms(6)])

lemma recover_memory_witness:
  "\<exists>w' r'. recover sample_ext \<lparr>rm_store = memory_ops sample_ext, rm_clock = FakeClock, rm_stale_threshold = 100\<rparr>
      (sample_sys (sample_runs [sample_run 1 Running 1])) = (Ok 1, w') \<and>
    v_runs (mem_view (db w')) ''u'' = Some r' \<and> r_status r' = DeadLetter"
proof -
  let ?m = "\<lparr>rm_store = memory_ops sample_ext, rm_clock = FakeClock, rm_stale_threshold = 100\<rparr>"
  let ?r = "sample_run 1 Running 1"
  let ?w = "sample_sys (sample_runs [?r])"
  have db: "db ?w = sample_runs [?r]" by (simp add: sample_sys_def)
  have inv: "mem_inv sample_ext (db ?w)" unfolding db by (rule sample_runs_store) simp
  have runs: "v_runs (mem_view (db ?w)) = [''u'' \<mapsto> ?r]"
    by (simp add: db sample_runs_store sample_run_fields)
  have act: "recovery_action sample_ext 1000 900 ?r = Some (?r\<lparr>r_status := DeadLetter\<rparr>)"
    by (simp add: recovery_action_def stale_action_def run_stale_def sample_run_fields)
  have clock: "clock_now (rm_clock ?m) ?w = ((Ok 1000 :: (store_error, time) outcome), ?w)"
    by (simp add: sample_clock)
  have thr: "x_td_from_std sample_ext (rm_stale_threshold ?m) = Inr 100" "x_dt_sub sample_ext 1000 100 = Some 900"
    by (simp_all add: sample_ext_def)
  have retry: "retry_computable sample_ext r"
    if "v_runs (mem_view (db ?w)) k = Some r" "r_status r = RetryWait" for k r
    using that by (auto simp: runs sample_run_fields split: if_splits)
  have "{k. \<exists>r. v_runs (mem_view (db ?w)) k = Some r \<and> recovery_action sample_ext 1000 900 r \<noteq> None} = {''u''}"
    using act by (auto simp: runs split: if_splits)
  then have "card {k. \<exists>r. v_runs (mem_view (db ?w)) k = Some r \<and> recovery_action sample_ext 1000 900 r \<noteq> None} = 1"
    by simp
  note one = this
  have store: "rm_store ?m = memory_ops sample_ext" by simp
  obtain w' where w': "recover sample_ext ?m ?w = (Ok 1, w')"
    "runs_updated (recovery_action sample_ext 1000 900) (\<lambda>_. True) (mem_view (db ?w)) (mem_view (db w'))"
    using recover_memory [OF inv store clock thr] retry unfolding one by blast
  have "v_runs (mem_view (db ?w)) ''u'' = Some ?r" by (simp add: runs)
  from runs_updatedD [OF w'(2) this] w'(1) act show ?thesis by (auto simp: run_updated_def)
qed

text \<open>
  C25: Recovery over the memory store moves every run along transitions of the life cycle, one by one (a
  running run by way of \<open>Orphaned\<close>), and leaves every attempt counter alone: over a store that refuses
  any other update it succeeds just the same, with the same answer and in the same state.
\<close>
lemma recover_passes_life_cycle_check:
  assumes "mem_inv E (db w)" "rm_store m = memory_ops E"
    and "clock_now (rm_clock m) w = ((Ok now :: (store_error, time) outcome), w0)"
    and "x_td_from_std E (rm_stale_threshold m) = Inr d" "x_dt_sub E now d = Some cutoff"
    and "\<And>k r. v_runs (mem_view (db w)) k = Some r \<Longrightarrow> r_status r = RetryWait \<Longrightarrow> retry_computable E r"
  shows "recover E (m\<lparr>rm_store := with_check (memory_ops E)\<rparr>) w = recover E m w \<and> is_Ok (fst (recover E m w))"
proof -
  have "\<exists>n w'. recover E m w = (Ok n, w')"
    using mem.recover_effect [OF assms(1) utc_ok_True TrueI assms(2-5) TrueI] assms(6) by blast
  with mem.recover_checked [OF assms(1) utc_ok_True TrueI assms(2-5) TrueI] assms(6) show ?thesis by fastforce
qed

lemma recover_passes_life_cycle_check_witness:
  "is_Ok (fst (recover sample_ext \<lparr>rm_store = with_check (memory_ops sample_ext), rm_clock = FakeClock, rm_stale_threshold = 100\<rparr>
    (sample_sys (sample_runs [sample_run 1 Running 1]))))"
proof -
  let ?m = "\<lparr>rm_store = memory_ops sample_ext, rm_clock = FakeClock, rm_stale_threshold = 100\<rparr>"
  let ?w = "sample_sys (sample_runs [sample_run 1 Running 1])"
  have db: "db ?w = sample_runs [sample_run 1 Running 1]" by (simp add: sample_sys_def)
  have "mem_inv sample_ext (db ?w)" unfolding db by (rule sample_runs_store) simp
  then have "recover sample_ext (?m\<lparr>rm_store := with_check (memory_ops sample_ext)\<rparr>) ?w = recover sample_ext ?m ?w \<and>
      is_Ok (fst (recover sample_ext ?m ?w))"
    by (rule recover_passes_life_cycle_check [where now = 1000 and cutoff = 900 and d = 100])
      (auto simp: sample_clock sample_ext_def db sample_runs_store sample_run_fields split: if_splits)
  then show ?thesis by simp
qed

text \<open>
  A run that was dispatched is never recovered: however old it is and whether its lease has
  run out, \<open>recover\<close> leaves it exactly as it is.
\<close>
lemma recover_ignores_dispatched:
  assumes "mem_inv E (db w)" "rm_store m = memory_ops E"
    and "clock_now (rm_clock m) w = ((Ok now :: (store_error, time) outcome), w0)"
    and "x_td_from_std E (rm_stale_threshold m) = Inr d" "x_dt_sub E now d = Some cutoff"
    and "\<And>k r. v_runs (mem_view (db w)) k = Some r \<Longrightarrow> r_status r = RetryWait \<Longrightarrow> retry_computable E r"
    and "v_runs (mem_view (db w)) k = Some r" "r_status r = Dispatched"
  shows "\<exists>n w'. recover E m w = (Ok n, w') \<and> v_runs (mem_view (db w')) k = Some r"
proof -
  obtain n w' where w': "recover E m w = (Ok n, w')"
    "runs_updated (recovery_action E now cutoff) (\<lambda>_. True) (mem_view (db w)) (mem_view (db w'))"
    using mem.recover_effect [OF assms(1) utc_ok_True TrueI assms(2-5) TrueI] assms(6) by blast
  have "recovery_action E now cutoff r = None"
    using assms(8) by (simp add: recovery_action_def stale_action_def run_stale_def retry_action_def)
  with runs_updatedD [OF w'(2) assms(7)] w'(1) show ?thesis by (auto simp: run_updated_def)
qed

lemma recover_ignores_dispatched_witness:
  "\<exists>n w'. recover sample_ext \<lparr>rm_store = memory_ops sample_ext, rm_clock = FakeClock, rm_stale_threshold = 100\<rparr>
      (sample_sys (sample_runs [sample_run 1 Dispatched 1])) = (Ok n, w') \<and>
    v_runs (mem_view (db w')) ''u'' = Some (sample_run 1 Dispatched 1)"
proof (rule recover_ignores_dispatched [where now = 1000 and cutoff = 900 and d = 100])
  let ?w = "sample_sys (sample_runs [sample_run 1 Dispatched 1])"
  have db: "db ?w = sample_runs [sample_run 1 Dispatched 1]" by (simp add: sample_sys_def)
  show "mem_inv sample_ext (db ?w)" unfolding db by (rule sample_runs_store) simp
  have runs: "v_runs (mem_view (db ?w)) = [''u'' \<mapsto> sample_run 1 Dispatched 1]"
    by (simp add: db sample_runs_store sample_run_fields)
  then show "v_runs (mem_view (db ?w)) ''u'' = Some (sample_run 1 Dispatched 1)" by simp
  show "retry_computable sample_ext r" if "v_runs (mem_view (db ?w)) k = Some r" "r_status r = RetryWait" for k r
    using that by (auto simp: runs sample_run_fields split: if_splits)
qed (simp_all add: sample_clock sample_run_fields, simp_all add: sample_ext_def)

text \<open>
  A stale threshold that chrono cannot represent makes \<open>recover\<close> fail before it has
  changed anything.
\<close>
lemma recover_threshold_error:
  assumes "\<not> poisoned (db w)" "rm_store m = memory_ops E"
    and "clock_now (rm_clock m) w = ((Ok now :: (store_error, time) outcome), w0)"
    and "x_td_from_std E (rm_stale_threshold m) = Inl e"
  shows "recover E m w = (Err (Internal e), w0) \<and> db w0 = db w"
proof -
  have "db w0 = db w" using clk.now_frame [OF assms(3)] by simp
  with assms show ?thesis
    by (simp add: recover_def andthen_clock [OF assms(3)] andthen_def on_db_def mem_get_stale_runs_def
        with_lock_def)
qed

lemma recover_threshold_error_witness:
  "fst (recover (sample_ext\<lparr>x_td_from_std := \<lambda>n. Inl ''out of range''\<rparr>)
      \<lparr>rm_store = memory_ops (sample_ext\<lparr>x_td_from_std := \<lambda>n. Inl ''out of range''\<rparr>), rm_clock = FakeClock,
        rm_stale_threshold = 100\<rparr> (sample_sys (sample_runs []))) = Err (Internal ''out of range'')"
proof -
  let ?E = "sample_ext\<lparr>x_td_from_std := \<lambda>n. Inl ''out of range''\<rparr>"
  let ?m = "\<lparr>rm_store = memory_ops ?E, rm_clock = FakeClock, rm_stale_threshold = 100\<rparr>"
  have "recover ?E ?m (sample_sys (sample_runs [])) = (Err (Internal ''out of range''), sample_sys (sample_runs [])) \<and>
      db (sample_sys (sample_runs [])) = db (sample_sys (sample_runs []))"
    by (rule recover_threshold_error [where now = 1000])
      (simp_all add: sample_clock, simp_all add: sample_sys_def sample_runs_def)
  then show ?thesis by simp
qed

end
