(* ===== verification/Leyla_Engine.thy ===== *)
theory Leyla_Engine
  imports Recovery Retry_Policy
begin

section \<open>The engine (leyla-core/src/engine.rs)\<close>

text \<open>
  \<open>EngineConfig\<close>, \<open>LeylaEngine\<close> and its methods. \<open>start\<close> is a \<open>select!\<close> in a loop: which
  branch becomes ready, and when, is the environment's choice, so the loop runs over the list
  of branches that became ready; the shutdown branch is ready only once \<open>stop\<close> was called.
\<close>

record ('s, 'j) engine_config =
  ec_store :: "('s, 'j) store_ops"
  ec_clock :: clock
  ec_instance_id :: string
  ec_poll_interval_ms :: u64
  ec_claim_batch_size :: u32
  ec_lease_ttl_ms :: u64
  ec_default_timeout_ms :: u64
  ec_stale_heartbeat_ms :: u64
  ec_max_output_bytes :: u64

definition engine_config_new ::
  "('s, 'j) store_ops \<Rightarrow> clock \<Rightarrow> string \<Rightarrow> ('s, 'j) engine_config" where
  "engine_config_new store c instance_id =
    \<lparr>ec_store = store, ec_clock = c, ec_instance_id = instance_id, ec_poll_interval_ms = 1000,
     ec_claim_batch_size = 50, ec_lease_ttl_ms = 30000, ec_default_timeout_ms = 300000,
     ec_stale_heartbeat_ms = 60000, ec_max_output_bytes = 65536\<rparr>"

record ('s, 'j) engine =
  e_store :: "('s, 'j) store_ops"
  e_clock :: clock
  e_instance_id :: string
  e_poll_interval_ms :: u64
  e_claim_batch_size :: u32
  e_lease_ttl_ms :: u64
  e_stale_heartbeat_ms :: u64

definition engine_new :: "('s, 'j) engine_config \<Rightarrow> ('s, 'j) engine" where
  "engine_new config =
    \<lparr>e_store = ec_store config, e_clock = ec_clock config, e_instance_id = ec_instance_id config,
     e_poll_interval_ms = ec_poll_interval_ms config, e_claim_batch_size = ec_claim_batch_size config,
     e_lease_ttl_ms = ec_lease_ttl_ms config, e_stale_heartbeat_ms = ec_stale_heartbeat_ms config\<rparr>"

text \<open>\<open>if let Err(e) = m { warn!(..) }\<close>: an error is dropped, a panic is not.\<close>

definition warn_on_err :: "('w, 'e, 'a) prog \<Rightarrow> ('w, 'e2, unit) prog" where
  "warn_on_err m w = (case m w of
      (Ok _, w') \<Rightarrow> (Ok (), w') | (Err _, w') \<Rightarrow> (Ok (), w') | (Panic, w') \<Rightarrow> (Panic, w'))"

definition engine_materializer :: "('s, 'j) engine \<Rightarrow> ('s, 'j) due_run_materializer" where
  "engine_materializer e = \<lparr>dm_store = e_store e, dm_clock = e_clock e\<rparr>"

definition engine_lease_manager :: "('s, 'j) engine \<Rightarrow> ('s, 'j) lease_manager" where
  "engine_lease_manager e =
    lease_manager_new (e_store e) (e_clock e) (e_instance_id e) (e_claim_batch_size e) (e_lease_ttl_ms e)"

text \<open>\<open>Duration::from_millis\<close> in nanoseconds.\<close>

definition duration_from_millis :: "u64 \<Rightarrow> nat" where
  "duration_from_millis ms = unat ms * 1000000"

definition engine_recovery_manager :: "('s, 'j) engine \<Rightarrow> ('s, 'j) recovery_manager" where
  "engine_recovery_manager e = \<lparr>rm_store = e_store e, rm_clock = e_clock e,
     rm_stale_threshold = duration_from_millis (e_stale_heartbeat_ms e)\<rparr>"

definition poll_tick :: "'j ext \<Rightarrow> ('s, 'j) engine \<Rightarrow> ('s sys, store_error, unit) prog" where
  "poll_tick E e =
    andthen (warn_on_err (materialize E (engine_materializer e))) (\<lambda>_.
    warn_on_err (claim_batch (engine_lease_manager e)))"

definition recovery_tick :: "'j ext \<Rightarrow> ('s, 'j) engine \<Rightarrow> ('s sys, store_error, unit) prog" where
  "recovery_tick E e = warn_on_err (recover E (engine_recovery_manager e))"

datatype branch = Shutdown | PollTick | RecoveryTick

text \<open>The loop; \<open>Ok True\<close> is the \<open>break\<close>, \<open>Ok False\<close> a loop still waiting for a branch.\<close>

fun engine_loop :: "'j ext \<Rightarrow> ('s, 'j) engine \<Rightarrow> branch list \<Rightarrow> ('s sys, store_error, bool) prog" where
  "engine_loop E e [] = ret False"
| "engine_loop E e (Shutdown # bs) =
    (\<lambda>w. if cancelled w then (Ok True, w) else engine_loop E e bs w)"
| "engine_loop E e (PollTick # bs) = andthen (poll_tick E e) (\<lambda>_. engine_loop E e bs)"
| "engine_loop E e (RecoveryTick # bs) = andthen (recovery_tick E e) (\<lambda>_. engine_loop E e bs)"

text \<open>\<open>poll_interval_ms * 5\<close> may overflow, and \<open>tokio::time::interval\<close> panics on a zero period.\<close>

definition engine_start ::
  "bool \<Rightarrow> 'j ext \<Rightarrow> ('s, 'j) engine \<Rightarrow> branch list \<Rightarrow> ('s sys, store_error, bool) prog" where
  "engine_start checks E e bs =
    andthen (lift_outcome (mul_u64 checks (e_poll_interval_ms e) 5)) (\<lambda>recovery_poll.
    if e_poll_interval_ms e = 0 \<or> recovery_poll = 0 then panic
    else engine_loop E e bs)"

definition engine_stop :: "('s sys, 'e, unit) prog" where
  "engine_stop w = (Ok (), w\<lparr>cancelled := True\<rparr>)"

definition engine_schedule :: "('s, 'j) engine \<Rightarrow> 'j leyla_job \<Rightarrow> ('s sys, store_error, unit) prog" where
  "engine_schedule e job = on_db (op_upsert_job (e_store e) job)"

definition engine_unschedule :: "('s, 'j) engine \<Rightarrow> string \<Rightarrow> ('s sys, store_error, unit) prog" where
  "engine_unschedule e job_id = on_db (op_remove_job (e_store e) job_id)"

definition engine_pause :: "('s, 'j) engine \<Rightarrow> string \<Rightarrow> ('s sys, store_error, unit) prog" where
  "engine_pause e job_id = andthen (on_db (op_get_job (e_store e) job_id)) (\<lambda>job.
    on_db (op_upsert_job (e_store e) (job\<lparr>j_enabled := False\<rparr>)))"

definition engine_resume :: "('s, 'j) engine \<Rightarrow> string \<Rightarrow> ('s sys, store_error, unit) prog" where
  "engine_resume e job_id = andthen (on_db (op_get_job (e_store e) job_id)) (\<lambda>job.
    on_db (op_upsert_job (e_store e) (job\<lparr>j_enabled := True\<rparr>)))"

definition engine_trigger ::
  "'j ext \<Rightarrow> ('s, 'j) engine \<Rightarrow> string \<Rightarrow> 'j option \<Rightarrow> ('s sys, store_error, string) prog" where
  "engine_trigger E e job_id input =
    andthen (on_db (op_get_job (e_store e) job_id)) (\<lambda>job.
    andthen (clock_now (e_clock e)) (\<lambda>now.
    andthen (new_scheduled_run (j_id job) now (rp_max_attempts (j_retry job))) (\<lambda>run.
    let run = run\<lparr>r_input_json := input\<rparr>;
        run_id = x_uuid_str E (r_run_id run)
    in andthen (on_db (op_insert_run (e_store e) run)) (\<lambda>_. ret run_id))))"

text \<open>\<open>Ok(x)\<close> becomes \<open>Ok(Some(x))\<close>, \<open>NotFound\<close> becomes \<open>Ok(None)\<close>.\<close>

definition found :: "('w, store_error, 'a) prog \<Rightarrow> ('w, store_error, 'a option) prog" where
  "found m w = (case m w of
      (Ok x, w') \<Rightarrow> (Ok (Some x), w')
    | (Err (NotFound k), w') \<Rightarrow> (Ok None, w')
    | (Err e, w') \<Rightarrow> (Err e, w')
    | (Panic, w') \<Rightarrow> (Panic, w'))"

definition engine_get_job :: "('s, 'j) engine \<Rightarrow> string \<Rightarrow> ('s sys, store_error, 'j leyla_job option) prog" where
  "engine_get_job e job_id = found (on_db (op_get_job (e_store e) job_id))"

definition engine_list_jobs :: "('s, 'j) engine \<Rightarrow> ('s sys, store_error, 'j leyla_job list) prog" where
  "engine_list_jobs e = on_db (op_list_jobs (e_store e))"

definition engine_list_runs ::
  "('s, 'j) engine \<Rightarrow> run_filter \<Rightarrow> ('s sys, store_error, 'j job_run list) prog" where
  "engine_list_runs e f = on_db (op_list_runs (e_store e) f)"

definition engine_get_run :: "('s, 'j) engine \<Rightarrow> string \<Rightarrow> ('s sys, store_error, 'j job_run option) prog" where
  "engine_get_run e run_id = found (on_db (op_get_run (e_store e) run_id))"

subsection \<open>The methods, over any store\<close>

context leyla_store
begin

lemma get_job_on_db:
  assumes "invar (db w)"
  shows "on_db (op_get_job S k) w =
    (case v_jobs (view (db w)) k of Some j \<Rightarrow> Ok j | None \<Rightarrow> Err (NotFound k), w)"
  using get_job_law [OF assms] by (simp add: on_db_def)

lemma set_enabled_effect:
  assumes "invar (db w)" "v_jobs (view (db w)) k = Some j"
  shows "\<exists>d. andthen (on_db (op_get_job S k)) (\<lambda>job. on_db (op_upsert_job S (job\<lparr>j_enabled := b\<rparr>))) w =
      (Ok (), w\<lparr>db := d\<rparr>) \<and> invar d \<and>
    view d = (view (db w))\<lparr>v_jobs := (v_jobs (view (db w)))(k \<mapsto> j\<lparr>j_enabled := b\<rparr>)\<rparr>"
proof -
  have "job_ok okt okv (j\<lparr>j_enabled := b\<rparr>)"
    using view_job_ok [OF assms] by (simp add: job_ok_def)
  then obtain d where "op_upsert_job S (j\<lparr>j_enabled := b\<rparr>) (db w) = (Ok (), d)" "invar d"
      "view d = (view (db w))\<lparr>v_jobs := (v_jobs (view (db w)))(j_id j \<mapsto> j\<lparr>j_enabled := b\<rparr>)\<rparr>"
    using upsert_job_law [OF assms(1)] by fastforce
  moreover have "j_id j = k" by (rule view_job_key [OF assms])
  ultimately show ?thesis
    using get_job_on_db [OF assms(1), of k] assms(2) by (auto simp: andthen_def on_db_def)
qed

text \<open>Pausing and resuming a job; a paused job is never due.\<close>

lemma pause_then_resume:
  assumes "invar (db w)" "e_store e = S" "v_jobs (view (db w)) k = Some j"
  shows "\<exists>w1 w2. engine_pause e k w = (Ok (), w1) \<and> engine_get_job e k w1 = (Ok (Some (j\<lparr>j_enabled := False\<rparr>)), w1) \<and>
    engine_resume e k w1 = (Ok (), w2) \<and> engine_get_job e k w2 = (Ok (Some (j\<lparr>j_enabled := True\<rparr>)), w2) \<and>
    v_runs (view (db w2)) = v_runs (view (db w)) \<and>
    (\<forall>k'. k' \<noteq> k \<longrightarrow> v_jobs (view (db w2)) k' = v_jobs (view (db w)) k')"
proof -
  obtain d where d: "engine_pause e k w = (Ok (), w\<lparr>db := d\<rparr>)" "invar d"
      "view d = (view (db w))\<lparr>v_jobs := (v_jobs (view (db w)))(k \<mapsto> j\<lparr>j_enabled := False\<rparr>)\<rparr>"
    using set_enabled_effect [OF assms(1,3), of False] unfolding engine_pause_def assms(2) by blast
  then have "invar (db (w\<lparr>db := d\<rparr>))" "v_jobs (view (db (w\<lparr>db := d\<rparr>))) k = Some (j\<lparr>j_enabled := False\<rparr>)"
    by simp_all
  from set_enabled_effect [OF this, of True] obtain d' where
    d': "engine_resume e k (w\<lparr>db := d\<rparr>) = (Ok (), w\<lparr>db := d'\<rparr>)" "invar d'"
      "view d' = (view d)\<lparr>v_jobs := (v_jobs (view d))(k \<mapsto> j\<lparr>j_enabled := True\<rparr>)\<rparr>"
    unfolding engine_resume_def assms(2) by auto
  have "engine_get_job e k (w\<lparr>db := d\<rparr>) = (Ok (Some (j\<lparr>j_enabled := False\<rparr>)), w\<lparr>db := d\<rparr>)"
    using get_job_on_db [of "w\<lparr>db := d\<rparr>" k] d(2,3) by (simp add: engine_get_job_def found_def assms(2))
  moreover have "engine_get_job e k (w\<lparr>db := d'\<rparr>) = (Ok (Some (j\<lparr>j_enabled := True\<rparr>)), w\<lparr>db := d'\<rparr>)"
    using get_job_on_db [of "w\<lparr>db := d'\<rparr>" k] d'(2,3) by (simp add: engine_get_job_def found_def assms(2))
  ultimately show ?thesis using d(1,3) d'(1,3) by auto
qed

lemma missing_job:
  assumes "invar (db w)" "e_store e = S" "v_jobs (view (db w)) k = None"
  shows "engine_pause e k w = (Err (NotFound k), w)" "engine_resume e k w = (Err (NotFound k), w)"
    "engine_trigger E e k inp w = (Err (NotFound k), w)" "engine_get_job e k w = (Ok None, w)"
    "engine_unschedule e k w = (Err (NotFound k), w)"
  using get_job_on_db [OF assms(1), of k] remove_job_None [OF assms(1,3)] assms(3)
  by (simp_all add: engine_pause_def engine_resume_def engine_trigger_def engine_get_job_def
      engine_unschedule_def found_def andthen_def assms(2)) (simp_all add: on_db_def)

lemma trigger_effect:
  assumes "invar (db w)" "utc_ok okt w" "okt now" "opt_ok okv inp" "e_store e = S"
    and "v_jobs (view (db w)) k = Some j"
    and clock: "clock_now (e_clock e) w = ((Ok now :: (store_error, time) outcome), w1)"
    and "v_runs (view (db w)) (x_uuid_str E (uuid_src w (uuid_idx w))) = None"
  shows "\<exists>d. engine_trigger E e k inp w = (Ok (x_uuid_str E (uuid_src w (uuid_idx w))), draw 1 w1\<lparr>db := d\<rparr>) \<and>
    invar d \<and> view d = (view (db w))\<lparr>v_runs := (v_runs (view (db w)))(x_uuid_str E (uuid_src w (uuid_idx w)) \<mapsto>
      (job_run_new_scheduled (utc_src w (utc_idx w1)) (uuid_src w (uuid_idx w)) k now
        (rp_max_attempts (j_retry j)))\<lparr>r_input_json := inp\<rparr>)\<rparr>"
proof -
  have w1: "db w1 = db w" "utc_src w1 = utc_src w" "uuid_src w1 = uuid_src w" "uuid_idx w1 = uuid_idx w"
    using clk.now_frame [OF clock] by simp_all
  define run where "run = (job_run_new_scheduled (utc_src w (utc_idx w1)) (uuid_src w (uuid_idx w)) k now
    (rp_max_attempts (j_retry j)))\<lparr>r_input_json := inp\<rparr>"
  have key: "x_uuid_str E (r_run_id run) = x_uuid_str E (uuid_src w (uuid_idx w))"
    by (simp add: run_def job_run_new_scheduled_def)
  have "run_ok okt okv run"
    using assms(2-4) by (simp add: run_def job_run_new_scheduled_def run_ok_def utc_ok_def)
  then obtain d where d: "op_insert_run S run (db w) = (Ok (), d)" "invar d"
      "view d = (view (db w))\<lparr>v_runs := (v_runs (view (db w)))(x_uuid_str E (r_run_id run) \<mapsto> run)\<rparr>"
    using insert_run_None [OF assms(1), of run] assms(8) unfolding key by blast
  have "j_id j = k" by (rule view_job_key [OF assms(1,6)])
  then have "engine_trigger E e k inp w = (Ok (x_uuid_str E (uuid_src w (uuid_idx w))), draw 1 w1\<lparr>db := d\<rparr>)"
    using d(1) get_job_on_db [OF assms(1), of k] assms(6) clock w1 key
    by (simp add: engine_trigger_def assms(5) andthen_def) (simp add: on_db_def run_def draw_def w1)
  with d(2,3) show ?thesis unfolding key by (auto simp: run_def)
qed

lemma due_jobs_card:
  assumes "invar s" "distinct (map j_id js)" "set js = {j \<in> ran (v_jobs (view s)). job_due now j}"
  shows "card {k. \<exists>j. v_jobs (view s) k = Some j \<and> job_due now j} = length js"
proof -
  have "{k. \<exists>j. v_jobs (view s) k = Some j \<and> job_due now j} = set (map j_id js)"
    using view_job_key [OF assms(1)] by (force simp: assms(3) ran_def)
  then show ?thesis using distinct_card [OF assms(2)] by simp
qed

lemma clock_now_frame:
  "clock_now c (w\<lparr>db := d\<rparr>) = (case clock_now c w of (r, w') \<Rightarrow> (r, w'\<lparr>db := d\<rparr>))"
  by (cases w; cases c) (simp_all add: clock_now_def split: prod.split)

text \<open>
  One poll tick: materialise at the first reading of the clock, then claim at the second from the old and
  the new runs.
\<close>

lemma poll_tick_any_clock:
  assumes "invar (db w)" "utc_ok okt w" "e_store e = S"
    and okn: "okn (unat (e_claim_batch_size e))"
    and c1: "clock_now (e_clock e) w = ((Ok now :: (store_error, time) outcome), w1)" "okt now"
    and c2: "clock_now (e_clock e) (draw (card {k. \<exists>j. v_jobs (view (db w)) k = Some j \<and> job_due now j}) w1) =
      ((Ok now' :: (store_error, time) outcome), w2)" "okt now'"
    and lend: "x_dt_add E now' (30 * nanos_per_sec) = Some lend" "okt lend"
    and adv: "\<And>k j. v_jobs (view (db w)) k = Some j \<Longrightarrow> job_due now j \<Longrightarrow> advances E okt now j"
    and fresh: "distinct (drawn_keys E w1 (card {k. \<exists>j. v_jobs (view (db w)) k = Some j \<and> job_due now j}))"
      "set (drawn_keys E w1 (card {k. \<exists>j. v_jobs (view (db w)) k = Some j \<and> job_due now j})) \<inter>
        dom (v_runs (view (db w))) = {}"
  shows "\<exists>js ks d. poll_tick E e w = (Ok (), w2\<lparr>db := d\<rparr>) \<and> invar d \<and> distinct (map j_id js) \<and>
    set js = {j \<in> ran (v_jobs (view (db w))). job_due now j} \<and> distinct ks \<and>
    set ks \<subseteq> due_keys now' (materialized E now w1 js (view (db w))) \<and>
    length ks = min (unat (e_claim_batch_size e)) (card (due_keys now' (materialized E now w1 js (view (db w))))) \<and>
    view d = lease_keys now' (e_instance_id e) lend (set ks) (materialized E now w1 js (view (db w)))"
proof -
  have c: "clock_now (dm_clock (engine_materializer e)) w = ((Ok now :: (store_error, time) outcome), w1)"
    using c1(1) by (simp add: engine_materializer_def)
  have s1: "dm_store (engine_materializer e) = S" by (simp add: engine_materializer_def assms(3))
  have f1: "db w1 = db w" "utc_src w1 = utc_src w" using clk.now_frame [OF c1(1)] by simp_all
  obtain js d where js: "distinct (map j_id js)" "set js = {j \<in> ran (v_jobs (view (db w))). job_due now j}"
      "materialize E (engine_materializer e) w = (Ok (length js), draw (length js) w1\<lparr>db := d\<rparr>)" "invar d"
      "view d = materialized E now w1 js (view (db w))"
    using materialize_effect [OF assms(1,2) c1(2) s1 c f1 _ fresh] adv by blast
  let ?w = "draw (length js) w1\<lparr>db := d\<rparr>"
  have cl: "clock_now (lm_clock (engine_lease_manager e)) ?w = ((Ok now' :: (store_error, time) outcome), w2\<lparr>db := d\<rparr>)"
    using c2(1) due_jobs_card [OF assms(1) js(1,2)]
    by (simp add: engine_lease_manager_def lease_manager_new_def clock_now_frame)
  have s2: "lm_store (engine_lease_manager e) = S" "lm_batch_size (engine_lease_manager e) = e_claim_batch_size e"
      "lm_instance_id (engine_lease_manager e) = e_instance_id e"
    by (simp_all add: engine_lease_manager_def lease_manager_new_def assms(3))
  have "invar (db ?w)" using js(4) by simp
  from claim_batch_effect [OF this s2(1) c2(2) okn [folded s2(2)] cl lend]
  obtain rs ks d' where k: "claim_batch (engine_lease_manager e) ?w = (Ok rs, w2\<lparr>db := d'\<rparr>)" "invar d'"
      "distinct ks" "set ks \<subseteq> due_keys now' (view d)"
      "length ks = min (unat (e_claim_batch_size e)) (card (due_keys now' (view d)))"
      "view d' = lease_keys now' (e_instance_id e) lend (set ks) (view d)"
    unfolding s2 by auto
  have "poll_tick E e w = (Ok (), w2\<lparr>db := d'\<rparr>)"
    using js(3) k(1) by (simp add: poll_tick_def andthen_def warn_on_err_def)
  with js(1,2) k(2-6) show ?thesis unfolding js(5)
    by (intro exI [of _ js] exI [of _ ks] exI [of _ d']) simp
qed

text \<open>At a fixed time both readings are the same, and nothing but the identifiers is drawn.\<close>

lemma poll_tick_effect:
  assumes "invar (db w)" "utc_ok okt w" "okt now" "e_store e = S" "e_clock e = FakeClock"
    and okn: "okn (unat (e_claim_batch_size e))"
    and fc: "\<not> poisoned (fake_clock w)" "guarded (fake_clock w) = now"
    and lend: "x_dt_add E now (30 * nanos_per_sec) = Some lend" "okt lend"
    and adv: "\<And>k j. v_jobs (view (db w)) k = Some j \<Longrightarrow> job_due now j \<Longrightarrow> advances E okt now j"
    and fresh: "distinct (drawn_keys E w (card {k. \<exists>j. v_jobs (view (db w)) k = Some j \<and> job_due now j}))"
      "set (drawn_keys E w (card {k. \<exists>j. v_jobs (view (db w)) k = Some j \<and> job_due now j})) \<inter>
        dom (v_runs (view (db w))) = {}"
  shows "\<exists>js ks d. poll_tick E e w = (Ok (), draw (length js) w\<lparr>db := d\<rparr>) \<and> invar d \<and> distinct (map j_id js) \<and>
    set js = {j \<in> ran (v_jobs (view (db w))). job_due now j} \<and> distinct ks \<and>
    set ks \<subseteq> due_keys now (materialized E now w js (view (db w))) \<and>
    length ks = min (unat (e_claim_batch_size e)) (card (due_keys now (materialized E now w js (view (db w))))) \<and>
    view d = lease_keys now (e_instance_id e) lend (set ks) (materialized E now w js (view (db w)))"
proof -
  have clock: "clock_now (e_clock e) v = ((Ok now :: (store_error, time) outcome), v)"
    if "fake_clock v = fake_clock w" for v :: "'s sys"
    using that fc by (cases v; cases "fake_clock w") (simp add: clock_now_def fake_clock_now_def with_lock_def assms(5))
  let ?n = "card {k. \<exists>j. v_jobs (view (db w)) k = Some j \<and> job_due now j}"
  have c2: "clock_now (e_clock e) (draw ?n w) = ((Ok now :: (store_error, time) outcome), draw ?n w)"
    by (rule clock) simp
  obtain js ks d where "poll_tick E e w = (Ok (), draw ?n w\<lparr>db := d\<rparr>)" "invar d" "distinct (map j_id js)"
      "set js = {j \<in> ran (v_jobs (view (db w))). job_due now j}" "distinct ks"
      "set ks \<subseteq> due_keys now (materialized E now w js (view (db w)))"
      "length ks = min (unat (e_claim_batch_size e)) (card (due_keys now (materialized E now w js (view (db w)))))"
      "view d = lease_keys now (e_instance_id e) lend (set ks) (materialized E now w js (view (db w)))"
    using poll_tick_any_clock [OF assms(1,2,4) okn clock [OF refl] assms(3) c2 assms(3) lend _ fresh] adv by blast
  moreover from this have "?n = length js" by (intro due_jobs_card [OF assms(1)])
  ultimately show ?thesis by (intro exI [of _ js] exI [of _ ks] exI [of _ d]) simp
qed

end

subsection \<open>The loop does not look at errors\<close>

text \<open>
  The specification of the loop: the branches that are handled (none after the first \<open>Shutdown\<close> once the
  engine was stopped), and what each of them does whether it succeeds or fails: a poll materialises and
  then claims. \<open>ticks_run\<close> is \<open>None\<close> when one of these calls panics.
\<close>

definition handled :: "bool \<Rightarrow> branch list \<Rightarrow> branch list" where
  "handled stopped bs = (if stopped then takeWhile (\<lambda>b. b \<noteq> Shutdown) bs else filter (\<lambda>b. b \<noteq> Shutdown) bs)"

definition then_run :: "('w, 'e, 'a) prog \<Rightarrow> 'w option \<Rightarrow> 'w option" where
  "then_run m w = (case w of None \<Rightarrow> None
     | Some w \<Rightarrow> (case m w of (Panic, _) \<Rightarrow> None | (_, w') \<Rightarrow> Some w'))"

fun ticks_run :: "'j ext \<Rightarrow> ('s, 'j) engine \<Rightarrow> branch list \<Rightarrow> 's sys option \<Rightarrow> 's sys option" where
  "ticks_run E e [] w = w"
| "ticks_run E e (PollTick # bs) w =
    ticks_run E e bs (then_run (claim_batch (engine_lease_manager e)) (then_run (materialize E (engine_materializer e)) w))"
| "ticks_run E e (RecoveryTick # bs) w = ticks_run E e bs (then_run (recover E (engine_recovery_manager e)) w)"
| "ticks_run E e (Shutdown # bs) w = ticks_run E e bs w"

lemma ticks_run_None [simp]: "ticks_run E e bs None = None"
proof (induction bs)
  case (Cons b bs)
  then show ?case by (cases b) (simp_all add: then_run_def)
qed simp

lemma preserves_cancelled_on_db: "preserves (\<lambda>w. cancelled w = b) (on_db m)"
  by (auto simp: preserves_def on_db_def split: prod.splits)

lemma preserves_cancelled_clock:
  "preserves (\<lambda>w. cancelled w = b) (clock_now c :: ('s sys, store_error, time) prog)"
  by (auto simp: preserves_def clock_now_def split: clock.splits prod.splits)

lemma preserves_cancelled_utc: "preserves (\<lambda>w. cancelled w = b) utc_now"
  by (simp add: preserves_def)

lemma preserves_cancelled_uuid: "preserves (\<lambda>w. cancelled w = b) uuid_new_v4"
  by (simp add: preserves_def)

lemmas cancelled_intros = preserves_andthen preserves_if preserves_ret preserves_lift preserves_for_each
  preserves_case_option preserves_cancelled_on_db preserves_cancelled_clock preserves_cancelled_utc
  preserves_cancelled_uuid

lemma materialize_cancelled: "preserves (\<lambda>w. cancelled w = b) (materialize E m)"
  unfolding materialize_def materialize_job_def new_scheduled_run_def by (intro cancelled_intros)

lemma claim_batch_cancelled: "preserves (\<lambda>w. cancelled w = b) (claim_batch m)"
  unfolding claim_batch_def by (intro cancelled_intros)

lemma recover_cancelled: "preserves (\<lambda>w. cancelled w = b) (recover E m)"
  unfolding recover_def recover_stale_run_def recover_retry_run_def store_update_run_def Let_def
  by (intro cancelled_intros)

lemma warned_step:
  assumes "preserves (\<lambda>w. cancelled w = cancelled w0) m"
  shows "case then_run m (Some w0) of
      None \<Rightarrow> fst (andthen (warn_on_err m) f w0) = Panic
    | Some w' \<Rightarrow> andthen (warn_on_err m) f w0 = f () w' \<and> cancelled w' = cancelled w0"
proof -
  obtain r w' where m: "m w0 = (r, w')" by fastforce
  have "cancelled w' = cancelled w0" using preservesD [OF assms, of w0] m by simp
  with m show ?thesis by (cases r) (simp_all add: then_run_def andthen_def warn_on_err_def)
qed

lemma mul_u64_5_zero: "(x :: u64) * 5 = 0 \<longleftrightarrow> x = 0"
proof
  have inv: "(5 :: u64) * 14757395258967641293 = 1" by simp
  assume "x * 5 = 0"
  then have "x * (5 * 14757395258967641293) = 0" by (metis mult.assoc mult_zero_left)
  then show "x = 0" unfolding inv by simp
qed simp

subsection \<open>Properties\<close>

text \<open>
  C5: One poll tick of the engine over the memory store, on either clock: with the clock read as \<open>now\<close>
  each job due at \<open>now\<close> gets its run and is advanced; then, with the clock read again as \<open>now'\<close> (after
  the readings and identifiers the new runs have drawn), at most \<open>claim_batch_size\<close> of the runs due at
  \<open>now'\<close>, old and new, are leased to the instance for 30 seconds. The claimed runs are dropped: nothing
  dispatches them.
\<close>
lemma poll_tick_memory:
  assumes "mem_inv E (db w)" "e_store e = memory_ops E"
    and "clock_now (e_clock e) w = ((Ok now :: (store_error, time) outcome), w1)"
    and "clock_now (e_clock e) (draw (card {k. \<exists>j. v_jobs (mem_view (db w)) k = Some j \<and> job_due now j}) w1) =
      ((Ok now' :: (store_error, time) outcome), w2)"
    and "x_dt_add E now' (30 * nanos_per_sec) = Some lend"
    and "\<And>k j. v_jobs (mem_view (db w)) k = Some j \<Longrightarrow> job_due now j \<Longrightarrow> advances E (\<lambda>_. True) now j"
    and "distinct (drawn_keys E w1 (card {k. \<exists>j. v_jobs (mem_view (db w)) k = Some j \<and> job_due now j}))"
      "set (drawn_keys E w1 (card {k. \<exists>j. v_jobs (mem_view (db w)) k = Some j \<and> job_due now j})) \<inter>
        dom (v_runs (mem_view (db w))) = {}"
  shows "\<exists>js ks d. poll_tick E e w = (Ok (), w2\<lparr>db := d\<rparr>) \<and> mem_inv E d \<and> distinct (map j_id js) \<and>
    set js = {j \<in> ran (v_jobs (mem_view (db w))). job_due now j} \<and> distinct ks \<and>
    set ks \<subseteq> due_keys now' (materialized E now w1 js (mem_view (db w))) \<and>
    length ks = min (unat (e_claim_batch_size e)) (card (due_keys now' (materialized E now w1 js (mem_view (db w))))) \<and>
    mem_view d = lease_keys now' (e_instance_id e) lend (set ks) (materialized E now w1 js (mem_view (db w)))"
  by (rule mem.poll_tick_any_clock [OF assms(1) utc_ok_True assms(2) TrueI assms(3) TrueI assms(4) TrueI assms(5) TrueI
      assms(6-8)])

text \<open>A due job, on the system's clock: its run is there, leased, and the job is advanced.\<close>

lemma poll_tick_memory_witness:
  "\<exists>w' r j. poll_tick sample_ext (engine_new (engine_config_new (memory_ops sample_ext) SystemClock ''i''))
      (sample_sys (sample_jobs [sample_job ''a'' (Interval 5 Start) (Some 0)])) = (Ok (), w') \<and>
    v_runs (mem_view (db w')) = [[] \<mapsto> r] \<and> r_job_id r = ''a'' \<and> r_scheduled_for r = 0 \<and>
    r_status r = Leased \<and> r_lease_owner r = Some ''i'' \<and>
    v_jobs (mem_view (db w')) ''a'' = Some j \<and> j_next_run_at j = Some 5000000"
proof -
  let ?a = "sample_job ''a'' (Interval 5 Start) (Some 0)"
  let ?e = "engine_new (engine_config_new (memory_ops sample_ext) SystemClock ''i'')"
  let ?w = "sample_sys (sample_jobs [?a])"
  define w1 where "w1 = ?w\<lparr>utc_idx := 1\<rparr>"
  define w2 where "w2 = ?w\<lparr>utc_idx := 3, uuid_idx := 1\<rparr>"
  have ja: "j_id ?a = ''a''" by (simp add: sample_job_fields)
  have view: "mem_view (db ?w) = \<lparr>v_jobs = [''a'' \<mapsto> ?a], v_runs = Map.empty, v_dead = []\<rparr>"
    by (simp add: sample_sys_def sample_store ja)
  have inv: "mem_inv sample_ext (db ?w)" by (simp add: sample_sys_def sample_store)
  have e: "e_store ?e = memory_ops sample_ext" "e_clock ?e = SystemClock" "e_instance_id ?e = ''i''" "e_claim_batch_size ?e = 50"
    by (simp_all add: engine_new_def engine_config_new_def)
  have due: "job_due 0 ?a" by (simp add: job_due_def sample_job_fields)
  have card: "card {k. \<exists>j. v_jobs (mem_view (db ?w)) k = Some j \<and> job_due 0 j} = 1"
  proof -
    have "{k. \<exists>j. v_jobs (mem_view (db ?w)) k = Some j \<and> job_due 0 j} = {''a''}"
      using due by (auto simp: view split: if_splits)
    then show ?thesis by simp
  qed
  have c1: "clock_now (e_clock ?e) ?w = ((Ok 0 :: (store_error, time) outcome), w1)"
    by (simp add: e(2) clock_now_def sample_sys_def w1_def)
  have c2: "clock_now (e_clock ?e) (draw 1 w1) = ((Ok 2 :: (store_error, time) outcome), w2)"
    by (simp add: e(2) clock_now_def sample_sys_def draw_def w1_def w2_def)
  have lend: "x_dt_add sample_ext 2 (30 * nanos_per_sec) = Some 30000000002" by (simp add: sample_ext_def)
  have nxt: "next_run sample_ext 0 ?a = Some 5000000"
    by (simp add: next_run_def compute_next_run_def sample_job_fields sample_ext_def)
  have adv: "advances sample_ext (\<lambda>_. True) 0 j" if "v_jobs (mem_view (db ?w)) k = Some j" for k j
    using that by (auto simp: view advances_def compute_next_run_def sample_job_fields sample_ext_def split: if_splits)
  obtain js ks d where t: "poll_tick sample_ext ?e ?w = (Ok (), w2\<lparr>db := d\<rparr>)" "distinct (map j_id js)" "set js = {?a}"
      "distinct ks" "set ks \<subseteq> due_keys 2 (materialized sample_ext 0 w1 js (mem_view (db ?w)))"
      "length ks = min (unat (e_claim_batch_size ?e)) (card (due_keys 2 (materialized sample_ext 0 w1 js (mem_view (db ?w)))))"
      "mem_view d = lease_keys 2 ''i'' 30000000002 (set ks) (materialized sample_ext 0 w1 js (mem_view (db ?w)))"
  proof -
    have "{j \<in> ran (v_jobs (mem_view (db ?w))). job_due 0 j} = {?a}" using due by (auto simp: view)
    then show thesis
      using poll_tick_memory [OF inv e(1) c1, unfolded card, OF c2 lend adv] that
      by (fastforce simp: e drawn_keys_def view)
  qed
  have js: "js = [?a]" using t(2,3) by (cases js; cases "tl js") auto
  let ?r = "new_run w1 ?a"
  have m: "materialized sample_ext 0 w1 [?a] (mem_view (db ?w)) =
      \<lparr>v_jobs = [''a'' \<mapsto> advance_job sample_ext 0 ?a], v_runs = [[] \<mapsto> ?r], v_dead = []\<rparr>"
    by (simp add: materialized_def view ja) (simp add: sample_sys_def w1_def)
  have rf: "run_due 2 ?r" "r_job_id ?r = ''a''" "r_scheduled_for ?r = 0"
    by (simp_all add: new_run_def job_run_new_scheduled_def run_due_def sample_job_fields)
  have dk: "due_keys 2 (materialized sample_ext 0 w1 [?a] (mem_view (db ?w))) = {[]}"
    using rf(1) by (auto simp: due_keys_def m split: if_splits)
  then have "ks = [[]]" using t(4-6) unfolding js dk e(4) by (cases ks) auto
  then have "v_runs (mem_view d) = [[] \<mapsto> lease_run 2 ''i'' 30000000002 ?r]"
    "v_jobs (mem_view d) ''a'' = Some (advance_job sample_ext 0 ?a)"
    unfolding t(7) js m by (simp_all add: fun_eq_iff)
  with t(1) rf nxt show ?thesis by (intro exI) (auto simp: advance_job_def lease_run_def)
qed

lemma recovery_step:
  "case then_run (recover E (engine_recovery_manager e)) (Some w) of
      None \<Rightarrow> fst (engine_loop E e (RecoveryTick # bs) w) = Panic
    | Some w' \<Rightarrow> engine_loop E e (RecoveryTick # bs) w = engine_loop E e bs w' \<and> cancelled w' = cancelled w"
proof -
  have "engine_loop E e (RecoveryTick # bs) w =
      andthen (warn_on_err (recover E (engine_recovery_manager e))) (\<lambda>_. engine_loop E e bs) w"
    by (simp add: recovery_tick_def)
  with warned_step [where ?w0.0 = w and m = "recover E (engine_recovery_manager e)" and f = "\<lambda>_. engine_loop E e bs",
      OF recover_cancelled]
  show ?thesis by (simp only:)
qed

lemma poll_step:
  "case then_run (claim_batch (engine_lease_manager e)) (then_run (materialize E (engine_materializer e)) (Some w)) of
      None \<Rightarrow> fst (engine_loop E e (PollTick # bs) w) = Panic
    | Some w' \<Rightarrow> engine_loop E e (PollTick # bs) w = engine_loop E e bs w' \<and> cancelled w' = cancelled w"
proof -
  let ?m = "materialize E (engine_materializer e)" and ?c = "claim_batch (engine_lease_manager e)"
  let ?loop = "andthen (warn_on_err ?c) (\<lambda>_. engine_loop E e bs)"
  note m = warned_step [where ?w0.0 = w and m = ?m and f = "\<lambda>_. ?loop", OF materialize_cancelled]
  have loop: "engine_loop E e (PollTick # bs) w = andthen (warn_on_err ?m) (\<lambda>_. ?loop) w"
    by (simp add: poll_tick_def andthen_assoc)
  show ?thesis
  proof (cases "then_run ?m (Some w)")
    case None
    with m show ?thesis unfolding loop by (simp add: then_run_def)
  next
    case (Some w1)
    with m have w1: "engine_loop E e (PollTick # bs) w = ?loop w1" "cancelled w1 = cancelled w"
      unfolding loop by simp_all
    from warned_step [where ?w0.0 = w1 and m = ?c and f = "\<lambda>_. engine_loop E e bs", OF claim_batch_cancelled]
    show ?thesis unfolding Some w1 .
  qed
qed

lemma loop_continues:
  assumes "case t of None \<Rightarrow> fst x = Panic | Some w \<Rightarrow> x = engine_loop E e bs w \<and> cancelled w = c"
    and "\<And>w. case ticks_run E e (handled (cancelled w) bs) (Some w) of
      None \<Rightarrow> fst (engine_loop E e bs w) = Panic
    | Some w' \<Rightarrow> engine_loop E e bs w = (Ok (cancelled w \<and> Shutdown \<in> set bs), w')"
  shows "case ticks_run E e (handled c bs) t of
      None \<Rightarrow> fst x = Panic | Some w' \<Rightarrow> x = (Ok (c \<and> Shutdown \<in> set bs), w')"
proof (cases t)
  case None
  then show ?thesis using assms(1) by simp
next
  case (Some w)
  then have "x = engine_loop E e bs w" "c = cancelled w" using assms(1) by simp_all
  with assms(2) [of w] show ?thesis unfolding Some by (simp only:)
qed

text \<open>
  C31: The engine's loop, over any store and for any sequence of ready branches: a poll materialises and then
  claims, a recovery recovers, and the loop goes on from the state they leave whether they succeed or fail;
  it stops with \<open>break\<close> (\<open>Ok True\<close>) exactly when the engine was stopped and the shutdown branch comes, with
  nothing handled after it, and otherwise still waits (\<open>Ok False\<close>) after all of them; only a panic ends it
  before.
\<close>
lemma engine_loop_survives_errors:
  "case ticks_run E e (handled (cancelled w) bs) (Some w) of
      None \<Rightarrow> fst (engine_loop E e bs w) = Panic
    | Some w' \<Rightarrow> engine_loop E e bs w = (Ok (cancelled w \<and> Shutdown \<in> set bs), w')"
proof (induction bs arbitrary: w)
  case Nil
  show ?case by (simp add: handled_def)
next
  case (Cons b bs)
  show ?case
  proof (cases b)
    case Shutdown
    with Cons.IH [of w] show ?thesis by (cases "cancelled w") (auto simp: handled_def split: option.splits)
  next
    case RecoveryTick
    have h: "ticks_run E e (handled (cancelled w) (b # bs)) (Some w) =
        ticks_run E e (handled (cancelled w) bs) (then_run (recover E (engine_recovery_manager e)) (Some w))"
      "Shutdown \<in> set (b # bs) \<longleftrightarrow> Shutdown \<in> set bs"
      by (simp_all add: RecoveryTick handled_def)
    show ?thesis unfolding h unfolding RecoveryTick by (rule loop_continues [OF recovery_step Cons.IH])
  next
    case PollTick
    let ?tick = "then_run (claim_batch (engine_lease_manager e)) (then_run (materialize E (engine_materializer e)) (Some w))"
    have h: "ticks_run E e (handled (cancelled w) (b # bs)) (Some w) = ticks_run E e (handled (cancelled w) bs) ?tick"
      "Shutdown \<in> set (b # bs) \<longleftrightarrow> Shutdown \<in> set bs"
      by (simp_all add: PollTick handled_def)
    show ?thesis unfolding h unfolding PollTick by (rule loop_continues [OF poll_step Cons.IH])
  qed
qed

text \<open>
  \<open>start\<close> panics at once for a zero poll interval and, in a build with overflow checks, for
  one whose five-fold does not fit 64 bits; otherwise it runs the loop.
\<close>
lemma engine_start_spec:
  "engine_start checks E e bs =
    (if unat (e_poll_interval_ms e) = 0 \<or> (checks \<and> 2 ^ 64 \<le> unat (e_poll_interval_ms e) * 5) then panic
     else engine_loop E e bs)"
  by (auto simp: engine_start_def mul_u64_def fun_eq_iff mul_u64_5_zero unat_eq_zero)

text \<open>
  C30: Pausing a stored job and resuming it over the memory store: both succeed, in between
  \<open>get_job\<close> shows it disabled (so no poll creates a run of it), afterwards enabled with every
  other field as it was; runs and other jobs are untouched.
\<close>
lemma pause_resume_memory:
  assumes "mem_inv E (db w)" "e_store e = memory_ops E" "v_jobs (mem_view (db w)) k = Some j"
  shows "(\<exists>w1 w2. engine_pause e k w = (Ok (), w1) \<and> engine_get_job e k w1 = (Ok (Some (j\<lparr>j_enabled := False\<rparr>)), w1) \<and>
      engine_resume e k w1 = (Ok (), w2) \<and> engine_get_job e k w2 = (Ok (Some (j\<lparr>j_enabled := True\<rparr>)), w2) \<and>
      v_runs (mem_view (db w2)) = v_runs (mem_view (db w)) \<and>
      (\<forall>k'. k' \<noteq> k \<longrightarrow> v_jobs (mem_view (db w2)) k' = v_jobs (mem_view (db w)) k')) \<and>
    \<not> job_due now (j\<lparr>j_enabled := False\<rparr>)"
  using mem.pause_then_resume [OF assms] by (simp add: job_due_def)

lemma pause_resume_memory_witness:
  "\<exists>w1. engine_pause (engine_new (engine_config_new (memory_ops sample_ext) FakeClock ''i'')) ''a''
    (sample_sys (sample_jobs [sample_job ''a'' Manual None])) = (Ok (), w1)"
proof -
  let ?e = "engine_new (engine_config_new (memory_ops sample_ext) FakeClock ''i'')"
  let ?w = "sample_sys (sample_jobs [sample_job ''a'' Manual None])"
  have db: "db ?w = sample_jobs [sample_job ''a'' Manual None]" by (simp add: sample_sys_def)
  have inv: "mem_inv sample_ext (db ?w)" unfolding db by (rule sample_store) simp
  have e: "e_store ?e = memory_ops sample_ext" by (simp add: engine_new_def engine_config_new_def)
  have "v_jobs (mem_view (db ?w)) ''a'' = Some (sample_job ''a'' Manual None)"
    by (simp add: db sample_store sample_job_fields)
  from pause_resume_memory [OF inv e this] show ?thesis by blast
qed

text \<open>
  Operations on a job that is not stored: \<open>pause\<close>, \<open>resume\<close>, \<open>trigger\<close> and \<open>unschedule\<close> fail
  with \<open>NotFound\<close> and change nothing, and \<open>get_job\<close> answers \<open>None\<close> instead of an error.
\<close>
lemma missing_job_memory:
  assumes "mem_inv E (db w)" "e_store e = memory_ops E" "v_jobs (mem_view (db w)) k = None"
  shows "engine_pause e k w = (Err (NotFound k), w) \<and> engine_resume e k w = (Err (NotFound k), w) \<and>
    engine_trigger E e k inp w = (Err (NotFound k), w) \<and> engine_unschedule e k w = (Err (NotFound k), w) \<and>
    engine_get_job e k w = (Ok None, w)"
  using mem.missing_job [OF assms] by blast

lemma missing_job_memory_witness:
  "engine_get_job (engine_new (engine_config_new (memory_ops sample_ext) FakeClock ''i'')) ''a''
    (sample_sys memory_store_new) = (Ok None, sample_sys memory_store_new)"
  using missing_job_memory [of sample_ext "sample_sys memory_store_new"
      "engine_new (engine_config_new (memory_ops sample_ext) FakeClock ''i'')" "''a''"]
  by (simp add: sample_sys_def mem_inv_new mem_view_new engine_new_def engine_config_new_def)

text \<open>
  C29: \<open>trigger\<close> on a stored job, enabled or not, over the memory store inserts one run, due now,
  in its first attempt, with the given input and the job's retry budget, under the fresh id it
  returns; no job and no other run changes.
\<close>
lemma trigger_memory:
  assumes "mem_inv E (db w)" "e_store e = memory_ops E" "v_jobs (mem_view (db w)) k = Some j"
    and "clock_now (e_clock e) w = ((Ok now :: (store_error, time) outcome), w1)"
    and "v_runs (mem_view (db w)) (x_uuid_str E (uuid_src w (uuid_idx w))) = None"
  shows "\<exists>d. engine_trigger E e k inp w = (Ok (x_uuid_str E (uuid_src w (uuid_idx w))), draw 1 w1\<lparr>db := d\<rparr>) \<and>
    mem_inv E d \<and> mem_view d = (mem_view (db w))\<lparr>v_runs := (v_runs (mem_view (db w)))
      (x_uuid_str E (uuid_src w (uuid_idx w)) \<mapsto>
        (job_run_new_scheduled (utc_src w (utc_idx w1)) (uuid_src w (uuid_idx w)) k now
          (rp_max_attempts (j_retry j)))\<lparr>r_input_json := inp\<rparr>)\<rparr>"
  by (rule mem.trigger_effect [OF assms(1) utc_ok_True TrueI opt_ok_True assms(2-5)])

lemma trigger_memory_witness:
  "\<exists>w'. engine_trigger sample_ext (engine_new (engine_config_new (memory_ops sample_ext) FakeClock ''i'')) ''a'' None
    (sample_sys (sample_jobs [sample_job ''a'' Manual None])) = (Ok [], w')"
proof -
  let ?e = "engine_new (engine_config_new (memory_ops sample_ext) FakeClock ''i'')"
  let ?w = "sample_sys (sample_jobs [sample_job ''a'' Manual None])"
  have db: "db ?w = sample_jobs [sample_job ''a'' Manual None]" by (simp add: sample_sys_def)
  have inv: "mem_inv sample_ext (db ?w)" unfolding db by (rule sample_store) simp
  have e: "e_store ?e = memory_ops sample_ext" "e_clock ?e = FakeClock"
    by (simp_all add: engine_new_def engine_config_new_def)
  have job: "v_jobs (mem_view (db ?w)) ''a'' = Some (sample_job ''a'' Manual None)"
    by (simp add: db sample_store sample_job_fields)
  have clock: "clock_now (e_clock ?e) ?w = ((Ok 1000 :: (store_error, time) outcome), ?w)"
    unfolding e by (rule sample_clock)
  have key: "x_uuid_str sample_ext (uuid_src ?w (uuid_idx ?w)) = []"
    by (simp add: sample_sys_def sample_uuid)
  have new: "v_runs (mem_view (db ?w)) (x_uuid_str sample_ext (uuid_src ?w (uuid_idx ?w))) = None"
    by (simp add: db sample_store)
  show ?thesis using trigger_memory [OF inv e(1) job clock new] unfolding key by blast
qed

end
