(* ===== verification/Utf8_Text.thy ===== *)
theory Utf8_Text
  imports Leyla_Types
begin

section \<open>UTF-8 text: lossy decoding and clipping\<close>

text \<open>
  A \<open>String\<close> is its bytes. \<open>utf8_step\<close> is the decoder of the standard library: whether the
  bytes begin with a well-formed character, and how many bytes it (or the malformed piece)
  takes. Over it, \<open>String::from_utf8_lossy\<close>, \<open>char_indices\<close>, and the \<open>clip\<close> that
  leyla-executors/src/shell.rs and leyla-cli/src/output.rs both define.
\<close>

definition byte_at :: "string \<Rightarrow> nat \<Rightarrow> nat" where
  "byte_at bs i = (if i < length bs then of_char (bs ! i) else 0)"

definition cont_byte :: "nat \<Rightarrow> bool" where
  "cont_byte b \<longleftrightarrow> 128 \<le> b \<and> b \<le> 191"

text \<open>The second byte of a three-byte and of a four-byte character.\<close>

definition second_of_3 :: "nat \<Rightarrow> nat \<Rightarrow> bool" where
  "second_of_3 b0 b1 \<longleftrightarrow> (if b0 = 224 then 160 \<le> b1 \<and> b1 \<le> 191
     else if b0 = 237 then 128 \<le> b1 \<and> b1 \<le> 159 else cont_byte b1)"

definition second_of_4 :: "nat \<Rightarrow> nat \<Rightarrow> bool" where
  "second_of_4 b0 b1 \<longleftrightarrow> (if b0 = 240 then 144 \<le> b1 \<and> b1 \<le> 191
     else if b0 = 244 then 128 \<le> b1 \<and> b1 \<le> 143 else cont_byte b1)"

definition utf8_step :: "string \<Rightarrow> bool \<times> nat" where
  "utf8_step bs =
    (let b0 = byte_at bs 0; b1 = byte_at bs 1; b2 = byte_at bs 2; b3 = byte_at bs 3
     in if b0 < 128 then (True, 1)
        else if 194 \<le> b0 \<and> b0 \<le> 223 then (if cont_byte b1 then (True, 2) else (False, 1))
        else if 224 \<le> b0 \<and> b0 \<le> 239 then
          (if \<not> second_of_3 b0 b1 then (False, 1)
           else if cont_byte b2 then (True, 3) else (False, 2))
        else if 240 \<le> b0 \<and> b0 \<le> 244 then
          (if \<not> second_of_4 b0 b1 then (False, 1)
           else if \<not> cont_byte b2 then (False, 2)
           else if cont_byte b3 then (True, 4) else (False, 3))
        else (False, 1))"

lemma utf8_step_pos: "0 < snd (utf8_step bs)"
  by (simp add: utf8_step_def Let_def)

text \<open>The characters and malformed pieces of a byte string.\<close>

function utf8_chunks :: "string \<Rightarrow> (bool \<times> string) list" where
  "utf8_chunks [] = []"
| "utf8_chunks (b # bs) =
    (case utf8_step (b # bs) of (ok, n) \<Rightarrow> (ok, take n (b # bs)) # utf8_chunks (drop n (b # bs)))"
  by pat_completeness auto
termination
  by (relation "measure length") (use utf8_step_pos in \<open>auto simp: prod_eq_iff\<close>)

definition utf8_ok :: "string \<Rightarrow> bool" where
  "utf8_ok s \<longleftrightarrow> list_all fst (utf8_chunks s)"

text \<open>\<open>String::from_utf8_lossy\<close>: a malformed piece becomes U+FFFD.\<close>

definition from_utf8_lossy :: "string \<Rightarrow> string" where
  "from_utf8_lossy bs =
    concat (map (\<lambda>(ok, c). if ok then c else map char_of [239 :: nat, 191, 189]) (utf8_chunks bs))"

fun char_indices_from :: "nat \<Rightarrow> string list \<Rightarrow> (nat \<times> string) list" where
  "char_indices_from k [] = []"
| "char_indices_from k (c # cs) = (k, c) # char_indices_from (k + length c) cs"

definition char_indices :: "string \<Rightarrow> (nat \<times> string) list" where
  "char_indices s = char_indices_from 0 (map snd (utf8_chunks s))"

definition clip :: "nat \<Rightarrow> string \<Rightarrow> string" where
  "clip limit s = (if length s > limit
     then concat (map snd (takeWhile (\<lambda>(i, c). i < limit) (char_indices s))) else s)"

subsection \<open>The decoder\<close>

definition utf8_char :: "string \<Rightarrow> bool" where
  "utf8_char c \<longleftrightarrow> utf8_step c = (True, length c) \<and> c \<noteq> []"

lemma cont_byte_0 [simp]: "\<not> cont_byte 0" "\<not> second_of_3 b 0" "\<not> second_of_4 b 0"
  by (simp_all add: cont_byte_def second_of_3_def second_of_4_def)

lemma byte_at_beyond: "length bs \<le> i \<Longrightarrow> byte_at bs i = 0"
  by (simp add: byte_at_def)

lemma utf8_step_le:
  assumes "bs \<noteq> []"
  shows "snd (utf8_step bs) \<le> length bs" "snd (utf8_step bs) \<le> 4"
proof -
  have *: "i < length bs" if "byte_at bs i \<noteq> 0" for i
    using that by (cases "i < length bs") (simp_all add: byte_at_def)
  have c: "cont_byte (byte_at bs i) \<Longrightarrow> i < length bs" for i
    using * [of i] by (cases "byte_at bs i = 0") auto
  have s3: "second_of_3 b (byte_at bs i) \<Longrightarrow> i < length bs" for b i
    using * [of i] by (cases "byte_at bs i = 0") auto
  have s4: "second_of_4 b (byte_at bs i) \<Longrightarrow> i < length bs" for b i
    using * [of i] by (cases "byte_at bs i = 0") auto
  have 0: "1 \<le> length bs" using assms by (cases bs) auto
  show "snd (utf8_step bs) \<le> length bs"
    using 0 c [of 1] c [of 2] c [of 3] s3 [of "byte_at bs 0" 1] s4 [of "byte_at bs 0" 1]
    by (auto simp: utf8_step_def Let_def)
  show "snd (utf8_step bs) \<le> 4" by (simp add: utf8_step_def Let_def)
qed

text \<open>Whether a character is well formed depends on its own bytes only.\<close>

lemma utf8_step_local:
  assumes "utf8_step bs = (True, n)" "\<And>i. i < n \<Longrightarrow> byte_at bs' i = byte_at bs i"
  shows "utf8_step bs' = (True, n)"
proof -
  have "0 < n" using assms(1) utf8_step_pos [of bs] by simp
  then have b0: "byte_at bs' 0 = byte_at bs 0" by (rule assms(2))
  show ?thesis
    using assms(1) b0 assms(2) [of 1] assms(2) [of 2] assms(2) [of 3]
    by (auto simp: utf8_step_def Let_def split: if_splits)
qed

lemma utf8_step_take:
  assumes "utf8_step bs = (True, n)" "bs \<noteq> []"
  shows "utf8_char (take n bs)"
proof -
  have n: "n \<le> length bs" "0 < n" using utf8_step_le(1) [OF assms(2)] utf8_step_pos [of bs] assms(1) by simp_all
  have "utf8_step (take n bs) = (True, n)"
    by (rule utf8_step_local [OF assms(1)]) (use n in \<open>simp add: byte_at_def\<close>)
  with n show ?thesis by (cases bs) (simp_all add: utf8_char_def)
qed

lemma utf8_char_append: "utf8_char c \<Longrightarrow> utf8_step (c @ rest) = (True, length c)"
  unfolding utf8_char_def
  by (erule conjE, erule utf8_step_local) (simp add: byte_at_def nth_append)

lemma utf8_char_length: "utf8_char c \<Longrightarrow> 1 \<le> length c \<and> length c \<le> 4"
  using utf8_step_le [of c] by (cases c) (auto simp: utf8_char_def)

lemma utf8_chunks_concat:
  "list_all utf8_char cs \<Longrightarrow> utf8_chunks (concat cs) = map (Pair True) cs"
proof (induction cs)
  case (Cons c cs)
  then obtain b bs where c: "c = b # bs" by (cases c) (auto simp: utf8_char_def)
  have "utf8_step (b # bs @ concat cs) = (True, length (b # bs))"
    using utf8_char_append [of c "concat cs"] Cons.prems by (simp add: c)
  with Cons show ?case by (simp add: c)
qed simp

lemma utf8_chunks_pieces:
  "concat (map snd (utf8_chunks bs)) = bs \<and>
   list_all (\<lambda>(ok, c). 1 \<le> length c \<and> length c \<le> 4 \<and> (ok \<longrightarrow> utf8_char c)) (utf8_chunks bs)"
proof (induction bs rule: utf8_chunks.induct)
  case (2 b bs)
  obtain ok n where n: "utf8_step (b # bs) = (ok, n)" by (cases "utf8_step (b # bs)")
  have len: "n \<le> length (b # bs)" "n \<le> 4" "0 < n"
    using utf8_step_le [of "b # bs"] utf8_step_pos [of "b # bs"] by (simp_all add: n)
  have ch: "ok \<longrightarrow> utf8_char (take n (b # bs))"
    using utf8_step_take [of "b # bs" n] n by auto
  have IH: "concat (map snd (utf8_chunks (drop n (b # bs)))) = drop n (b # bs)"
    "list_all (\<lambda>(ok, c). 1 \<le> length c \<and> length c \<le> 4 \<and> (ok \<longrightarrow> utf8_char c)) (utf8_chunks (drop n (b # bs)))"
    using 2 [OF n [symmetric]] by blast+
  have "concat (map snd (utf8_chunks (b # bs))) = take n (b # bs) @ drop n (b # bs)"
    by (simp only: utf8_chunks.simps n prod.case list.map concat.simps snd_conv IH(1))
  moreover have "1 \<le> length (take n (b # bs)) \<and> length (take n (b # bs)) \<le> 4"
    using len by simp
  ultimately show ?case using IH(2) ch by (simp add: n)
qed simp

lemma utf8_ok_chars:
  "utf8_ok s \<Longrightarrow> list_all utf8_char (map snd (utf8_chunks s))"
  using utf8_chunks_pieces [of s] by (fastforce simp: utf8_ok_def list_all_iff)

lemma utf8_ok_concat: "list_all utf8_char cs \<Longrightarrow> utf8_ok (concat cs)"
  by (simp add: utf8_ok_def utf8_chunks_concat list_all_iff)

lemma replacement_char: "utf8_char (map char_of [239 :: nat, 191, 189])"
  by (simp add: utf8_char_def utf8_step_def byte_at_def Let_def second_of_3_def cont_byte_def)

lemma from_utf8_lossy_ok: "utf8_ok (from_utf8_lossy bs)"
  unfolding from_utf8_lossy_def
proof (rule utf8_ok_concat)
  show "list_all utf8_char (map (\<lambda>(ok, c). if ok then c else map char_of [239 :: nat, 191, 189]) (utf8_chunks bs))"
    using utf8_chunks_pieces [of bs] replacement_char by (auto simp: list_all_iff)
qed

lemma from_utf8_lossy_id:
  assumes "utf8_ok bs"
  shows "from_utf8_lossy bs = bs"
proof -
  have "from_utf8_lossy bs = concat (map snd (utf8_chunks bs))"
    using assms unfolding from_utf8_lossy_def utf8_ok_def list_all_iff
    by (intro arg_cong [of _ _ concat] map_cong) auto
  then show ?thesis using utf8_chunks_pieces [of bs] by simp
qed

subsection \<open>Clipping\<close>

definition clipped :: "nat \<Rightarrow> nat \<Rightarrow> string list \<Rightarrow> string list" where
  "clipped m k cs = map snd (takeWhile (\<lambda>(i, c). i < m) (char_indices_from k cs))"

lemma clipped_simps [simp]:
  "clipped m k [] = []"
  "clipped m k (c # cs) = (if k < m then c # clipped m (k + length c) cs else [])"
  by (simp_all add: clipped_def)

lemma clipped_prefix: "prefix (clipped m k cs) cs"
  by (induction cs arbitrary: k) auto

lemma clipped_length:
  assumes "list_all (\<lambda>c. length c \<le> 4) cs"
  shows "k + length (concat (clipped m k cs)) \<le> max k (m + 3)"
    and "clipped m k cs = cs \<or> m \<le> k + length (concat (clipped m k cs))"
  using assms
proof (induction cs arbitrary: k)
  case (Cons c cs)
  { case 1 with Cons.IH(1) [of "k + length c"] show ?case by auto }
  { case 2 with Cons.IH(2) [of "k + length c"] show ?case by auto }
qed simp_all

lemma clip_eq: "clip m s = (if length s > m then concat (clipped m 0 (map snd (utf8_chunks s))) else s)"
  by (simp add: clip_def clipped_def char_indices_def)

lemma clip_facts:
  "prefix (clip m s) s \<and> length (clip m s) \<le> m + 3 \<and>
    (length s \<le> m \<or> m \<le> length (clip m s)) \<and>
    (utf8_ok s \<longrightarrow> utf8_ok (clip m s))"
proof -
  let ?cs = "map snd (utf8_chunks s)"
  have cs: "concat ?cs = s" "list_all (\<lambda>c. length c \<le> 4) ?cs"
    using utf8_chunks_pieces [of s] by (auto simp: list_all_iff)
  have pre: "prefix (clipped m 0 ?cs) ?cs" by (rule clipped_prefix)
  then obtain zs where zs: "?cs = clipped m 0 ?cs @ zs" by (auto elim: prefixE)
  have "prefix (concat (clipped m 0 ?cs)) (concat ?cs)"
    by (subst (2) zs) simp
  then have p: "prefix (clip m s) s" by (auto simp: clip_eq cs(1))
  have ok: "utf8_ok (clip m s)" if "utf8_ok s"
  proof -
    have "list_all utf8_char (clipped m 0 ?cs)"
      using utf8_ok_chars [OF that] set_mono_prefix [OF pre] by (auto simp: list_all_iff)
    then show ?thesis using that utf8_ok_concat by (auto simp: clip_eq)
  qed
  have "length s \<le> m \<or> m \<le> length (clip m s)"
    using clipped_length(2) [OF cs(2), of m 0] cs(1) by (auto simp: clip_eq)
  then show ?thesis
    using p ok prefix_length_le [OF p] clipped_length(1) [OF cs(2), of 0 m]
    by (auto simp: clip_eq)
qed

subsection \<open>Properties\<close>

text \<open>
  Lossy decoding always yields well-formed UTF-8, and leaves well-formed UTF-8 as it is.
\<close>
lemma lossy_decoding: "utf8_ok (from_utf8_lossy bs) \<and> (utf8_ok bs \<longrightarrow> from_utf8_lossy bs = bs)"
  by (simp add: from_utf8_lossy_ok from_utf8_lossy_id)

lemma lossy_decoding_witness: "utf8_ok ''ok'' \<and> from_utf8_lossy ''ok'' = ''ok''"
proof -
  have "utf8_ok ''ok''" by (simp add: utf8_ok_def utf8_step_def byte_at_def)
  with lossy_decoding [of "''ok''"] show ?thesis by simp
qed

text \<open>
  C39: \<open>clip\<close> keeps a prefix of the text: the whole text when it fits; otherwise at least
  \<open>max\<close> and at most \<open>max + 3\<close> bytes, cut between characters, so that clipped text is
  well-formed again.
\<close>
lemma clip_spec:
  "prefix (clip m s) s \<and> length (clip m s) \<le> m + 3 \<and>
    (if length s \<le> m then clip m s = s else m \<le> length (clip m s)) \<and>
    (utf8_ok s \<longrightarrow> utf8_ok (clip m s))"
  using clip_facts [of m s] by (auto simp: clip_def)

lemma clip_spec_witness: "clip 2 ''abc'' = ''ab'' \<and> utf8_ok (clip 2 ''abc'')"
proof -
  have "utf8_ok ''abc''" by (simp add: utf8_ok_def utf8_step_def byte_at_def)
  moreover have "clip 2 ''abc'' = ''ab''"
    by (simp add: clip_def char_indices_def utf8_step_def byte_at_def)
  ultimately show ?thesis using clip_spec [of 2 "''abc''"] by simp
qed

text \<open>
  The limit can be exceeded: a text longer than one byte that starts with a four-byte
  character is clipped to one byte as four bytes.
\<close>
lemma clip_overshoots: "length (clip 1 (map char_of [240 :: nat, 159, 146, 148])) = 4"
  by (simp add: clip_def char_indices_def utf8_step_def byte_at_def Let_def second_of_4_def cont_byte_def)

end
