(* ===== verification/Executors.thy ===== *)
theory Executors
  imports Utf8_Text
begin

section \<open>Executors (leyla-executors/src)\<close>

text \<open>
  \<open>RunContext\<close>, \<open>DispatchResult\<close> and \<open>ExecutorError\<close> (executor.rs), the shell executor
  (shell.rs), the registry of local handlers (local_handler.rs) and the prompt of a Claude task
  (claude_task.rs). Running a process, and a registered handler, are code outside the
  repository: \<open>proc_result\<close> is what the operating system can answer within the time limit, and
  a handler is any function.
\<close>

record 'j run_context =
  c_run_id :: string
  c_job_id :: string
  c_attempt :: u32
  c_input :: 'j
  c_timeout_ms :: u64

datatype dispatch_status = DispatchSucceeded | DispatchFailed (retryable: bool) | DispatchTimedOut

record dispatch_result =
  dr_status :: dispatch_status
  dr_output :: "string option"
  dr_error :: "string option"
  dr_duration_ms :: u64

datatype executor_error = ExecFailed string | ExecTimeout u64

subsection \<open>Shell\<close>

text \<open>The time limit passed, the process could not be started, or it ended.\<close>

datatype proc_result =
    Elapsed
  | SpawnError string
  | Exited (succeeded: bool) (out_bytes: string) (err_bytes: string)

type_synonym run_process = "string \<Rightarrow> string list \<Rightarrow> u64 \<Rightarrow> proc_result"

definition combine_output :: "string \<Rightarrow> string \<Rightarrow> string" where
  "combine_output out err =
    (let combined = from_utf8_lossy out;
         stderr_str = from_utf8_lossy err
     in if stderr_str \<noteq> [] then
          (if combined \<noteq> [] then combined @ [CHR 0x0A] else combined) @ stderr_str
        else combined)"

definition dispatch_command ::
  "run_process \<Rightarrow> u64 \<Rightarrow> nat \<Rightarrow> 'j run_context \<Rightarrow> string \<Rightarrow> string list \<Rightarrow>
    (executor_error, dispatch_result) outcome" where
  "dispatch_command run duration_ms max_output_bytes ctx command args =
    (let timeout_ms = c_timeout_ms ctx
     in case run command args timeout_ms of
          Elapsed \<Rightarrow> Err (ExecTimeout timeout_ms)
        | SpawnError e \<Rightarrow> Err (ExecFailed (''failed to spawn process: '' @ e))
        | Exited ok out err \<Rightarrow>
            (let combined = clip max_output_bytes (combine_output out err)
             in if ok then
                  Ok \<lparr>dr_status = DispatchSucceeded, dr_output = Some combined, dr_error = None,
                      dr_duration_ms = duration_ms\<rparr>
                else
                  Ok \<lparr>dr_status = DispatchFailed True, dr_output = None, dr_error = Some combined,
                      dr_duration_ms = duration_ms\<rparr>))"

subsection \<open>Local handlers\<close>

type_synonym 'j handler = "'j run_context \<Rightarrow> (string, 'j) outcome"

definition handler_register ::
  "string \<Rightarrow> 'j handler \<Rightarrow> (string \<times> 'j handler) list \<Rightarrow> (string \<times> 'j handler) list" where
  "handler_register key f registry = hm_insert key f registry"

definition dispatch_handler ::
  "'j ext \<Rightarrow> u64 \<Rightarrow> (string \<times> 'j handler) list \<Rightarrow> 'j run_context \<Rightarrow> string \<Rightarrow>
    (executor_error, dispatch_result) outcome" where
  "dispatch_handler E duration_ms registry ctx key =
    (case map_of registry key of
       None \<Rightarrow> Err (ExecFailed (''no handler registered for key: '' @ key))
     | Some handler \<Rightarrow>
         (case handler ctx of
            Ok v \<Rightarrow> Ok \<lparr>dr_status = DispatchSucceeded, dr_output = Some (x_json_str E v),
              dr_error = None, dr_duration_ms = duration_ms\<rparr>
          | Err e \<Rightarrow> Ok \<lparr>dr_status = DispatchFailed False, dr_output = None, dr_error = Some e,
              dr_duration_ms = duration_ms\<rparr>
          | Panic \<Rightarrow> Panic))"

subsection \<open>Claude tasks\<close>

record task_snapshot =
  ts_task :: string
  ts_cwd :: "string option"
  ts_files :: "string list"
  ts_notes :: "string option"
  ts_expected_output :: "string option"

text \<open>\<open>parts.join(sep)\<close>\<close>

fun join_with :: "string \<Rightarrow> string list \<Rightarrow> string" where
  "join_with sep [] = []"
| "join_with sep [p] = p"
| "join_with sep (p # q # ps) = p @ sep @ join_with sep (q # ps)"

definition prompt_parts :: "task_snapshot \<Rightarrow> string list" where
  "prompt_parts snapshot =
    [ts_task snapshot] @
    (case ts_cwd snapshot of Some cwd \<Rightarrow> [''Working directory: '' @ cwd] | None \<Rightarrow> []) @
    (if ts_files snapshot \<noteq> [] then [''Files: '' @ join_with '', '' (ts_files snapshot)] else []) @
    (case ts_notes snapshot of Some notes \<Rightarrow> [''Notes: '' @ notes] | None \<Rightarrow> []) @
    (case ts_expected_output snapshot of Some expected \<Rightarrow> [''Expected output: '' @ expected] | None \<Rightarrow> [])"

definition build_prompt :: "task_snapshot \<Rightarrow> string" where
  "build_prompt snapshot = join_with [CHR 0x0A] (prompt_parts snapshot)"

definition dispatch_snapshot ::
  "run_process \<Rightarrow> u64 \<Rightarrow> nat \<Rightarrow> 'j run_context \<Rightarrow> task_snapshot \<Rightarrow>
    (executor_error, dispatch_result) outcome" where
  "dispatch_snapshot run duration_ms max_output_bytes ctx snapshot =
    dispatch_command run duration_ms max_output_bytes ctx ''claude'' [''-p'', build_prompt snapshot]"

subsection \<open>Joining and splitting lines\<close>

fun split_lines :: "string \<Rightarrow> string list" where
  "split_lines [] = [[]]"
| "split_lines (c # cs) = (if c = CHR 0x0A then [] # split_lines cs
     else (case split_lines cs of l # ls \<Rightarrow> (c # l) # ls | [] \<Rightarrow> [[c]]))"

lemma split_lines_append:
  "CHR 0x0A \<notin> set p \<Longrightarrow> split_lines (p @ CHR 0x0A # rest) = p # split_lines rest"
  by (induction p) auto

lemma split_lines_single: "CHR 0x0A \<notin> set p \<Longrightarrow> split_lines p = [p]"
  by (induction p) auto

lemma split_join_lines:
  "ps \<noteq> [] \<Longrightarrow> \<forall>p\<in>set ps. CHR 0x0A \<notin> set p \<Longrightarrow> split_lines (join_with [CHR 0x0A] ps) = ps"
  by (induction "[CHR 0x0A]" ps rule: join_with.induct) (simp_all add: split_lines_append split_lines_single)

lemma join_with_chars: "set (join_with sep ps) \<subseteq> set sep \<union> \<Union> (set ` set ps)"
  by (induction sep ps rule: join_with.induct) auto

subsection \<open>Properties\<close>

lemma combine_output_eq:
  "combine_output out err = (let o' = from_utf8_lossy out; e' = from_utf8_lossy err
    in o' @ (if o' \<noteq> [] \<and> e' \<noteq> [] then [CHR 0x0A] else []) @ e')"
  by (simp add: combine_output_def Let_def)

lemma combine_output_ok: "utf8_ok (combine_output out err)"
proof -
  let ?o = "from_utf8_lossy out" and ?e = "from_utf8_lossy err"
  have nl: "utf8_char [CHR 0x0A]" by (simp add: utf8_char_def utf8_step_def byte_at_def)
  have cs: "list_all utf8_char (map snd (utf8_chunks (from_utf8_lossy b)))"
    "concat (map snd (utf8_chunks (from_utf8_lossy b))) = from_utf8_lossy b" for b
    using utf8_ok_chars [OF from_utf8_lossy_ok] utf8_chunks_pieces by blast+
  have "utf8_ok (?o @ [CHR 0x0A] @ ?e)" "utf8_ok (?o @ ?e)"
    using utf8_ok_concat [of "map snd (utf8_chunks ?o) @ [[CHR 0x0A]] @ map snd (utf8_chunks ?e)"]
      utf8_ok_concat [of "map snd (utf8_chunks ?o) @ map snd (utf8_chunks ?e)"] cs nl by simp_all
  then show ?thesis using from_utf8_lossy_ok by (simp add: combine_output_def Let_def)
qed

text \<open>
  C40: The shell executor maps what the process did. A process that outlives the timeout of the run
  and one that cannot be started are errors. An exit gives a result with exactly one of output and
  error set, by the exit status, where a failure is always retryable. The text is what the process
  wrote, standard output before standard error with a line break between them where both wrote
  something, all of it when it has at most \<open>max_output_bytes\<close> bytes, otherwise a beginning of it that
  fills the limit, exceeds it by at most 3 bytes (the README documents a cap; \<open>clip_overshoots\<close>) and
  is well-formed UTF-8.
\<close>
lemma dispatch_command_result:
  "case run command args (c_timeout_ms ctx) of
     Elapsed \<Rightarrow> dispatch_command run ms limit ctx command args = Err (ExecTimeout (c_timeout_ms ctx))
   | SpawnError e \<Rightarrow> dispatch_command run ms limit ctx command args =
       Err (ExecFailed (''failed to spawn process: '' @ e))
   | Exited ok out err \<Rightarrow>
      (let o' = from_utf8_lossy out; e' = from_utf8_lossy err;
           both = o' @ (if o' \<noteq> [] \<and> e' \<noteq> [] then [CHR 0x0A] else []) @ e'
       in \<exists>text. dispatch_command run ms limit ctx command args =
           Ok \<lparr>dr_status = if ok then DispatchSucceeded else DispatchFailed True,
             dr_output = if ok then Some text else None, dr_error = if ok then None else Some text,
             dr_duration_ms = ms\<rparr> \<and>
         utf8_ok text \<and> prefix text both \<and>
         (if length both \<le> limit then text = both else limit \<le> length text \<and> length text \<le> limit + 3))"
proof (cases "run command args (c_timeout_ms ctx)")
  case (Exited ok out err)
  let ?text = "clip limit (combine_output out err)"
  have "utf8_ok ?text" "prefix ?text (combine_output out err)" "length ?text \<le> limit + 3"
    "if length (combine_output out err) \<le> limit then ?text = combine_output out err else limit \<le> length ?text"
    using clip_facts [of limit "combine_output out err"] combine_output_ok by (auto simp: clip_def)
  moreover have "dispatch_command run ms limit ctx command args =
      Ok \<lparr>dr_status = if ok then DispatchSucceeded else DispatchFailed True,
        dr_output = if ok then Some ?text else None, dr_error = if ok then None else Some ?text,
        dr_duration_ms = ms\<rparr>"
    by (simp add: Exited dispatch_command_def Let_def)
  ultimately show ?thesis
    unfolding Exited proc_result.case Let_def combine_output_eq [unfolded Let_def, symmetric]
    by (intro exI [of _ ?text] conjI) (auto split: if_splits)
qed (simp_all add: dispatch_command_def)

text \<open>
  Dispatching to a local handler: after registering \<open>f\<close> under a key, that key is answered by
  \<open>f\<close> (the last registration wins) and every other key as before; a handler's error becomes a
  failure that is not retryable; an unknown key is an error.
\<close>
lemma register_then_dispatch:
  "dispatch_handler E ms (handler_register key f reg) ctx key =
    (case f ctx of
       Ok v \<Rightarrow> Ok \<lparr>dr_status = DispatchSucceeded, dr_output = Some (x_json_str E v), dr_error = None,
         dr_duration_ms = ms\<rparr>
     | Err e \<Rightarrow> Ok \<lparr>dr_status = DispatchFailed False, dr_output = None, dr_error = Some e,
         dr_duration_ms = ms\<rparr>
     | Panic \<Rightarrow> Panic) \<and>
   (if key' = key then True else dispatch_handler E ms (handler_register key f reg) ctx key' =
      dispatch_handler E ms reg ctx key') \<and>
   dispatch_handler E ms [] ctx key = Err (ExecFailed (''no handler registered for key: '' @ key))"
  by (simp add: dispatch_handler_def handler_register_def)

text \<open>
  When no field of a snapshot contains a line break, the prompt's lines are exactly its
  parts: the task first, then one line for each field that is set, in the fixed order; so
  nothing of the snapshot is lost or mixed up.
\<close>
lemma prompt_lines:
  assumes "CHR 0x0A \<notin> set (ts_task s)" "\<forall>f\<in>set (ts_files s). CHR 0x0A \<notin> set f"
    and "\<forall>x\<in>set_option (ts_cwd s) \<union> set_option (ts_notes s) \<union> set_option (ts_expected_output s). CHR 0x0A \<notin> set x"
  shows "split_lines (build_prompt s) = prompt_parts s"
  unfolding build_prompt_def
proof (rule split_join_lines)
  have "CHR 0x0A \<notin> set (join_with '', '' (ts_files s))"
    using join_with_chars [of "'', ''" "ts_files s"] assms(2) by auto
  then show "\<forall>p\<in>set (prompt_parts s). CHR 0x0A \<notin> set p"
    using assms by (auto simp: prompt_parts_def split: option.splits)
qed (simp add: prompt_parts_def)

lemma prompt_lines_witness:
  "split_lines (build_prompt \<lparr>ts_task = ''t'', ts_cwd = Some ''d'', ts_files = [''f'', ''g''],
     ts_notes = None, ts_expected_output = None\<rparr>) = [''t'', ''Working directory: d'', ''Files: f, g'']"
  using prompt_lines [of "\<lparr>ts_task = ''t'', ts_cwd = Some ''d'', ts_files = [''f'', ''g''],
     ts_notes = None, ts_expected_output = None\<rparr>"] by (simp add: prompt_parts_def)

end
