(* ===== verification/Cli_Output.thy ===== *)
theory Cli_Output
  imports Utf8_Text
begin

section \<open>Output of the command line (leyla-cli/src/output.rs)\<close>

text \<open>
  The tables and the detail view, as the lists of lines they print. The width of a padded
  column counts characters, not bytes. Rendering a timestamp is chrono's: a parameter.
\<close>

record 'j cli_ext =
  cx_rfc3339 :: "time \<Rightarrow> string"
  cx_parse_rfc3339 :: "string \<Rightarrow> string + time"
  cx_show_time :: "time \<Rightarrow> string"
  cx_debug_time :: "time \<Rightarrow> string"
  cx_parse_status :: "string \<Rightarrow> run_status option"
  cx_job_json :: "'j leyla_job \<Rightarrow> string + string"
  cx_jobs_json :: "'j leyla_job list \<Rightarrow> string + string"
  cx_run_json :: "'j job_run \<Rightarrow> string + string"
  cx_runs_json :: "'j job_run list \<Rightarrow> string + string"

text \<open>One concrete choice, for the witnesses.\<close>

definition sample_cli_ext :: "string cli_ext" where
  "sample_cli_ext = \<lparr>cx_rfc3339 = (\<lambda>_. ''t''), cx_parse_rfc3339 = (\<lambda>_. Inl ''input contains invalid characters''),
     cx_show_time = (\<lambda>_. ''t''), cx_debug_time = (\<lambda>_. ''t''), cx_parse_status = (\<lambda>_. None),
     cx_job_json = (\<lambda>_. Inr ''{}''), cx_jobs_json = (\<lambda>_. Inr ''[]''), cx_run_json = (\<lambda>_. Inr ''{}''),
     cx_runs_json = (\<lambda>_. Inr ''[]'')\<rparr>"

subsection \<open>Formatting\<close>

fun show_nat :: "nat \<Rightarrow> string" where
  "show_nat n = (if n < 10 then [char_of (48 + n)] else show_nat (n div 10) @ [char_of (48 + n mod 10)])"

declare show_nat.simps [simp del]

definition show_bool :: "bool \<Rightarrow> string" where
  "show_bool b = (if b then ''true'' else ''false'')"

definition char_count :: "string \<Rightarrow> nat" where
  "char_count s = length (utf8_chunks s)"

text \<open>\<open>{:<n}\<close>\<close>

definition pad_right :: "nat \<Rightarrow> string \<Rightarrow> string" where
  "pad_right n s = s @ replicate (n - char_count s) CHR '' ''"

definition join_str :: "string \<Rightarrow> string list \<Rightarrow> string" where
  "join_str sep ps = concat (case ps of [] \<Rightarrow> [] | p # qs \<Rightarrow> p # map ((@) sep) qs)"

definition em_dash :: string where "em_dash = map char_of [226 :: nat, 128, 148]"
definition box_line :: string where "box_line = map char_of [226 :: nat, 148, 128]"

definition debug_status :: "run_status \<Rightarrow> string" where
  "debug_status s = (case s of
      Scheduled \<Rightarrow> ''Scheduled'' | Leased \<Rightarrow> ''Leased'' | Dispatched \<Rightarrow> ''Dispatched''
    | Running \<Rightarrow> ''Running'' | Succeeded \<Rightarrow> ''Succeeded'' | Failed \<Rightarrow> ''Failed''
    | RetryWait \<Rightarrow> ''RetryWait'' | DeadLetter \<Rightarrow> ''DeadLetter'' | Cancelled \<Rightarrow> ''Cancelled''
    | TimedOut \<Rightarrow> ''TimedOut'' | Orphaned \<Rightarrow> ''Orphaned'')"

definition debug_concurrency :: "concurrency_policy \<Rightarrow> string" where
  "debug_concurrency c = (case c of Allow \<Rightarrow> ''Allow'' | ForbidOverlap \<Rightarrow> ''ForbidOverlap''
    | QueueOne \<Rightarrow> ''QueueOne'' | ReplaceRunning \<Rightarrow> ''ReplaceRunning'')"

definition debug_misfire :: "misfire_policy \<Rightarrow> string" where
  "debug_misfire m = (case m of RunImmediately \<Rightarrow> ''RunImmediately'' | Skip \<Rightarrow> ''Skip''
    | Coalesce \<Rightarrow> ''Coalesce''
    | ReplayAll x \<Rightarrow> ''ReplayAll { max_catchup: '' @
        (case x of None \<Rightarrow> ''None'' | Some n \<Rightarrow> ''Some('' @ show_nat (unat n) @ '')'') @ '' }'')"

definition debug_strategy :: "retry_strategy \<Rightarrow> string" where
  "debug_strategy s = (case s of Fixed \<Rightarrow> ''Fixed'' | Linear \<Rightarrow> ''Linear'' | Exponential \<Rightarrow> ''Exponential'')"

definition format_schedule :: "'j cli_ext \<Rightarrow> schedule \<Rightarrow> string" where
  "format_schedule X s = (case s of
      Cron expression timezone \<Rightarrow>
        (case timezone of Some tz \<Rightarrow> ''cron('' @ expression @ '') ['' @ tz @ '']''
         | None \<Rightarrow> ''cron('' @ expression @ '')'')
    | Interval every _ \<Rightarrow> ''every '' @ show_nat (unat every) @ ''ms''
    | Once at \<Rightarrow> ''once at '' @ cx_rfc3339 X at
    | Manual \<Rightarrow> ''manual'')"

definition format_executor :: "'j executor_spec \<Rightarrow> string" where
  "format_executor e = (case e of
      Shell command args \<Rightarrow>
        (if args = [] then ''shell: '' @ command
         else ''shell: '' @ command @ '' '' @ join_str '' '' args)
    | LocalHandler handler_key \<Rightarrow> ''handler: '' @ handler_key
    | ClaudeTask task_type _ \<Rightarrow> ''claude: '' @ task_type
    | Webhook url meth _ \<Rightarrow> meth @ '' '' @ url)"

definition time_or_dash :: "'j cli_ext \<Rightarrow> time option \<Rightarrow> string" where
  "time_or_dash X t = (case t of Some t \<Rightarrow> cx_rfc3339 X t | None \<Rightarrow> em_dash)"

subsection \<open>The printers\<close>

definition job_row :: "'j cli_ext \<Rightarrow> 'j leyla_job \<Rightarrow> string" where
  "job_row X job = pad_right 36 (j_id job) @ ''  '' @ pad_right 30 (clip 30 (j_name job)) @ ''  '' @
     pad_right 7 (if j_enabled job then ''yes'' else ''no'') @ ''  '' @ time_or_dash X (j_next_run_at job)"

definition jobs_table :: "'j cli_ext \<Rightarrow> 'j leyla_job list \<Rightarrow> string list" where
  "jobs_table X js =
    (if js = [] then [''No jobs found.'']
     else [pad_right 36 ''ID'' @ ''  '' @ pad_right 30 ''NAME'' @ ''  '' @ pad_right 7 ''ENABLED'' @ ''  NEXT RUN'',
           concat (replicate 100 box_line)] @ map (job_row X) js)"

definition job_detail :: "'j cli_ext \<Rightarrow> 'j leyla_job \<Rightarrow> string list" where
  "job_detail X job =
    [''ID:              '' @ j_id job,
     ''Name:            '' @ j_name job,
     ''Enabled:         '' @ show_bool (j_enabled job),
     ''Schedule:        '' @ format_schedule X (j_schedule job),
     ''Executor:        '' @ format_executor (j_executor job),
     ''Concurrency:     '' @ debug_concurrency (j_concurrency job),
     ''Misfire:         '' @ debug_misfire (j_misfire job),
     ''Retry:           '' @ show_nat (unat (rp_max_attempts (j_retry job))) @ '' attempts, '' @
       debug_strategy (rp_strategy (j_retry job)),
     ''Timeout:         '' @ show_nat (unat (j_timeout_ms job)) @ ''ms'',
     ''Next run:        '' @ time_or_dash X (j_next_run_at job),
     ''Last run:        '' @ time_or_dash X (j_last_run_at job),
     ''Created:         '' @ cx_rfc3339 X (j_created_at job),
     ''Updated:         '' @ cx_rfc3339 X (j_updated_at job),
     ''Version:         '' @ show_nat (unat (j_version job))] @
    (if j_tags job \<noteq> [] then [''Tags:            '' @ join_str '', '' (j_tags job)] else [])"

text \<open>\<open>&s[..8]\<close> panics when 8 is past the end or inside a character.\<close>

definition str_first_8 :: "string \<Rightarrow> string option" where
  "str_first_8 s = (if length s < 8 \<or> (8 < length s \<and> cont_byte (byte_at s 8)) then None else Some (take 8 s))"

definition run_row :: "'j ext \<Rightarrow> 'j cli_ext \<Rightarrow> 'j job_run \<Rightarrow> string option" where
  "run_row E X run = map_option (\<lambda>run_id_short.
     pad_right 8 run_id_short @ ''  '' @ pad_right 36 (r_job_id run) @ ''  '' @
     pad_right 12 (debug_status (r_status run)) @ ''  '' @
     pad_right 7 (show_nat (unat (r_attempt run)) @ ''/'' @ show_nat (unat (r_max_attempts run))) @ ''  '' @
     cx_rfc3339 X (r_scheduled_for run)) (str_first_8 (x_uuid_str E (r_run_id run)))"

text \<open>The lines printed, and whether the printer got to its end.\<close>

fun run_rows :: "'j ext \<Rightarrow> 'j cli_ext \<Rightarrow> 'j job_run list \<Rightarrow> string list \<times> bool" where
  "run_rows E X [] = ([], True)"
| "run_rows E X (r # rs) = (case run_row E X r of
     None \<Rightarrow> ([], False)
   | Some l \<Rightarrow> (case run_rows E X rs of (ls, ok) \<Rightarrow> (l # ls, ok)))"

definition runs_table :: "'j ext \<Rightarrow> 'j cli_ext \<Rightarrow> 'j job_run list \<Rightarrow> string list \<times> bool" where
  "runs_table E X rs =
    (if rs = [] then ([''No runs found.''], True)
     else case run_rows E X rs of (ls, ok) \<Rightarrow>
       ([pad_right 8 ''RUN ID'' @ ''  '' @ pad_right 36 ''JOB'' @ ''  '' @ pad_right 12 ''STATUS'' @ ''  '' @
           pad_right 7 ''ATTEMPT'' @ ''  SCHEDULED FOR'',
         concat (replicate 100 box_line)] @ ls, ok))"

subsection \<open>The table of runs\<close>

text \<open>Panic-free exactly when every identifier can be cut at 8 bytes.\<close>

lemma run_rows_complete:
  "snd (run_rows E X rs) \<longleftrightarrow> (\<forall>r\<in>set rs. str_first_8 (x_uuid_str E (r_run_id r)) \<noteq> None)"
  by (induction rs) (auto simp: run_row_def split: option.splits prod.splits)

lemma run_rows_length: "snd (run_rows E X rs) \<Longrightarrow> length (fst (run_rows E X rs)) = length rs"
  by (induction rs) (auto split: option.splits prod.splits)

subsection \<open>Properties\<close>

text \<open>
  The runs table prints a header of two lines and one line per run, in order, and does not
  panic, when every run id is at least 8 ASCII bytes long, as uuid's hyphenated form is; an
  empty list prints one line.
\<close>
lemma runs_table_lines:
  assumes "\<forall>r\<in>set rs. 8 \<le> length (x_uuid_str E (r_run_id r)) \<and>
    (\<forall>c\<in>set (x_uuid_str E (r_run_id r)). of_char c < (128 :: nat))"
  shows "snd (runs_table E X rs) \<and>
    length (fst (runs_table E X rs)) = (if rs = [] then 1 else length rs + 2)"
proof -
  have "str_first_8 (x_uuid_str E (r_run_id r)) \<noteq> None" if "r \<in> set rs" for r
  proof -
    have len: "8 \<le> length (x_uuid_str E (r_run_id r))"
      and ascii: "\<And>c. c \<in> set (x_uuid_str E (r_run_id r)) \<Longrightarrow> of_char c < (128 :: nat)"
      using assms that by blast+
    have "\<not> cont_byte (byte_at (x_uuid_str E (r_run_id r)) 8)"
    proof (cases "8 < length (x_uuid_str E (r_run_id r))")
      case True
      then show ?thesis using ascii [OF nth_mem [OF True]] by (simp add: cont_byte_def byte_at_def)
    qed (simp add: byte_at_beyond)
    then show ?thesis using len by (simp add: str_first_8_def)
  qed
  then have "snd (run_rows E X rs)" by (simp add: run_rows_complete)
  then show ?thesis using run_rows_length [of E X rs] by (auto simp: runs_table_def split: prod.splits)
qed

lemma runs_table_lines_witness:
  "length (fst (runs_table (sample_ext\<lparr>x_uuid_str := \<lambda>_. ''00000000-0000''\<rparr>) sample_cli_ext
    [job_run_new_scheduled 0 1 ''a'' 7 3, job_run_new_scheduled 0 2 ''b'' 7 3])) = 4"
  using runs_table_lines [of "[job_run_new_scheduled 0 1 ''a'' 7 3, job_run_new_scheduled 0 2 ''b'' 7 3]"
      "sample_ext\<lparr>x_uuid_str := \<lambda>_. ''00000000-0000''\<rparr>" sample_cli_ext]
  by simp

text \<open>
  A name of at most 30 bytes appears in the job table in full; of a longer one the table
  shows a prefix of 30 to 33 bytes.
\<close>
lemma job_row_name:
  "\<exists>shown. job_row X job = pad_right 36 (j_id job) @ ''  '' @ pad_right 30 shown @ ''  '' @
      pad_right 7 (if j_enabled job then ''yes'' else ''no'') @ ''  '' @ time_or_dash X (j_next_run_at job) \<and>
    prefix shown (j_name job) \<and>
    (if length (j_name job) \<le> 30 then shown = j_name job else length shown \<in> {30..33})"
  using clip_facts [of 30 "j_name job"]
  by (intro exI [of _ "clip 30 (j_name job)"]) (auto simp: job_row_def clip_def)

end
