(* ===== verification/Cli_Commands.thy ===== *)
theory Cli_Commands
  imports Cli_Output Leyla_Engine
begin

section \<open>Commands (leyla-cli/src/commands/job.rs, run.rs, recover.rs)\<close>

text \<open>
  Each command is a program over the store of the process, with an \<open>anyhow\<close> error: a message of
  its own or a store error passed on. \<open>println!\<close> appends to the printed lines. clap has parsed
  the arguments: the actions are its enums.
\<close>

datatype cli_error = CliMsg string | CliStore store_error

definition println :: "string \<Rightarrow> ('s sys, 'e, unit) prog" where
  "println l w = (Ok (), w\<lparr>stdout := stdout w @ [l]\<rparr>)"

definition print_lines :: "string list \<Rightarrow> ('s sys, 'e, unit) prog" where
  "print_lines ls w = (Ok (), w\<lparr>stdout := stdout w @ ls\<rparr>)"

text \<open>A store call followed by \<open>?\<close>, and one whose error is replaced by a message.\<close>

abbreviation store_call :: "('s, store_error, 'a) prog \<Rightarrow> ('s sys, cli_error, 'a) prog" where
  "store_call m \<equiv> map_err CliStore (on_db m)"

abbreviation store_call_or :: "string \<Rightarrow> ('s, store_error, 'a) prog \<Rightarrow> ('s sys, cli_error, 'a) prog" where
  "store_call_or msg m \<equiv> map_err (\<lambda>_. CliMsg msg) (on_db m)"

definition print_json :: "string + string \<Rightarrow> ('s sys, cli_error, unit) prog" where
  "print_json r = (case r of Inl e \<Rightarrow> fail (CliMsg e) | Inr t \<Rightarrow> println t)"

subsection \<open>job\<close>

datatype job_action =
    JobAdd (ja_id: "string option") (ja_name: string) (ja_cron: "string option")
      (ja_interval_ms: "u64 option") (ja_at: "string option") (ja_command: "string option")
      (ja_args: "string list") (ja_timezone: "string option")
  | JobList
  | JobInspect string
  | JobPause string
  | JobResume string
  | JobRemove string

definition job_schedule ::
  "'j cli_ext \<Rightarrow> string option \<Rightarrow> u64 option \<Rightarrow> string option \<Rightarrow> string option \<Rightarrow> (cli_error, schedule) outcome" where
  "job_schedule X cron interval_ms at_ts timezone =
    (case cron of
       Some expr \<Rightarrow> Ok (Cron expr timezone)
     | None \<Rightarrow> (case interval_ms of
         Some ms \<Rightarrow> Ok (Interval ms WallClock)
       | None \<Rightarrow> (case at_ts of
           Some ts \<Rightarrow> (case cx_parse_rfc3339 X ts of
               Inl e \<Rightarrow> Err (CliMsg (''Invalid --at timestamp: '' @ e))
             | Inr dt \<Rightarrow> Ok (Once dt))
         | None \<Rightarrow> Ok Manual)))"

definition job_add ::
  "'j ext \<Rightarrow> 'j cli_ext \<Rightarrow> ('s, 'j) store_ops \<Rightarrow> bool \<Rightarrow> string option \<Rightarrow> string \<Rightarrow> string option \<Rightarrow>
    u64 option \<Rightarrow> string option \<Rightarrow> string option \<Rightarrow> string list \<Rightarrow> string option \<Rightarrow> ('s sys, cli_error, unit) prog" where
  "job_add E X S json jid name cron interval_ms at_ts command args timezone =
    andthen (lift_outcome (job_schedule X cron interval_ms at_ts timezone)) (\<lambda>sched.
    case command of
      None \<Rightarrow> fail (CliMsg ''--command is required for job add'')
    | Some cmd \<Rightarrow>
        andthen utc_now (\<lambda>created.
        let job = leyla_job_new (x_json_null E) created (case jid of Some i \<Rightarrow> i | None \<Rightarrow> name) sched (Shell cmd args)
        in andthen utc_now (\<lambda>now.
           andthen (lift_outcome (compute_next_run E sched now)) (\<lambda>nxt.
           let job = job\<lparr>j_next_run_at := nxt\<rparr>;
               job = (case sched of Once t \<Rightarrow> job\<lparr>j_next_run_at := Some t\<rparr> | _ \<Rightarrow> job)
           in andthen (store_call (op_upsert_job S job)) (\<lambda>_.
              if json then print_json (cx_job_json X job) else println (''Job created: '' @ j_id job))))))"

definition set_enabled ::
  "('s, 'j) store_ops \<Rightarrow> bool \<Rightarrow> string \<Rightarrow> string \<Rightarrow> ('s sys, cli_error, unit) prog" where
  "set_enabled S b jid done_msg =
    andthen (store_call_or (''Job not found: '' @ jid) (op_get_job S jid)) (\<lambda>job.
    andthen utc_now (\<lambda>now.
    andthen (store_call (op_upsert_job S (job\<lparr>j_enabled := b, j_updated_at := now\<rparr>))) (\<lambda>_.
    println (done_msg @ jid))))"

definition handle_job ::
  "'j ext \<Rightarrow> 'j cli_ext \<Rightarrow> ('s, 'j) store_ops \<Rightarrow> bool \<Rightarrow> job_action \<Rightarrow> ('s sys, cli_error, unit) prog" where
  "handle_job E X S json action = (case action of
      JobAdd jid name cron interval_ms at_ts command args timezone \<Rightarrow>
        job_add E X S json jid name cron interval_ms at_ts command args timezone
    | JobList \<Rightarrow>
        andthen (store_call (op_list_jobs S)) (\<lambda>js.
        if json then print_json (cx_jobs_json X js) else print_lines (jobs_table X js))
    | JobInspect jid \<Rightarrow>
        andthen (store_call_or (''Job not found: '' @ jid) (op_get_job S jid)) (\<lambda>job.
        if json then print_json (cx_job_json X job) else print_lines (job_detail X job))
    | JobPause jid \<Rightarrow> set_enabled S False jid ''Job paused: ''
    | JobResume jid \<Rightarrow> set_enabled S True jid ''Job resumed: ''
    | JobRemove jid \<Rightarrow>
        andthen (store_call_or (''Job not found: '' @ jid) (op_remove_job S jid)) (\<lambda>_.
        println (''Job removed: '' @ jid)))"

subsection \<open>run\<close>

datatype run_action =
    RunTrigger string
  | RunInspect string
  | RunRetry string
  | RunCancel string
  | RunList (ra_job: "string option") (ra_status: "string option") (ra_limit: u32)

definition debug_opt_time :: "'j cli_ext \<Rightarrow> time option \<Rightarrow> string" where
  "debug_opt_time X t = (case t of None \<Rightarrow> ''None'' | Some t \<Rightarrow> ''Some('' @ cx_debug_time X t @ '')'')"

definition run_detail :: "'j ext \<Rightarrow> 'j cli_ext \<Rightarrow> 'j job_run \<Rightarrow> string list" where
  "run_detail E X run =
    [''Run ID:       '' @ x_uuid_str E (r_run_id run),
     ''Job ID:       '' @ r_job_id run,
     ''Status:       '' @ debug_status (r_status run),
     ''Attempt:      '' @ show_nat (unat (r_attempt run)) @ ''/'' @ show_nat (unat (r_max_attempts run)),
     ''Scheduled:    '' @ cx_show_time X (r_scheduled_for run),
     ''Started:      '' @ debug_opt_time X (r_started_at run),
     ''Finished:     '' @ debug_opt_time X (r_finished_at run)] @
    (case r_error_json run of Some err \<Rightarrow> [''Error:        '' @ x_json_str E err] | None \<Rightarrow> [])"

definition run_trigger ::
  "'j ext \<Rightarrow> ('s, 'j) store_ops \<Rightarrow> bool \<Rightarrow> string \<Rightarrow> ('s sys, cli_error, unit) prog" where
  "run_trigger E S json job_id =
    andthen (store_call_or (''Job not found: '' @ job_id) (op_get_job S job_id)) (\<lambda>job.
    andthen utc_now (\<lambda>scheduled_for.
    andthen (new_scheduled_run (j_id job) scheduled_for (rp_max_attempts (j_retry job))) (\<lambda>run.
    let run_id = x_uuid_str E (r_run_id run)
    in andthen (store_call (op_insert_run S run)) (\<lambda>_.
       if json then println (''{'' @ [CHR 0x22] @ ''run_id'' @ [CHR 0x22] @ '': '' @ [CHR 0x22] @ run_id @ [CHR 0x22] @ ''}'')
       else println (''Run triggered: '' @ run_id)))))"

definition run_retry ::
  "('s, 'j) store_ops \<Rightarrow> string \<Rightarrow> ('s sys, cli_error, unit) prog" where
  "run_retry S run_id =
    andthen (store_call_or (''Run not found: '' @ run_id) (op_get_run S run_id)) (\<lambda>run.
    if r_status run \<in> {Failed, DeadLetter, Cancelled} then
      andthen (map_err CliStore (store_update_run S run_id (status_patch Scheduled))) (\<lambda>_.
      println (''Run rescheduled: '' @ run_id))
    else fail (CliMsg (''Cannot retry run in status '' @ debug_status (r_status run))))"

definition cancel_patch :: "time \<Rightarrow> 'j run_patch" where
  "cancel_patch now = run_patch_default\<lparr>p_status := Some Cancelled, p_finished_at := Some now\<rparr>"

definition run_cancel ::
  "('s, 'j) store_ops \<Rightarrow> string \<Rightarrow> ('s sys, cli_error, unit) prog" where
  "run_cancel S run_id =
    andthen (store_call_or (''Run not found: '' @ run_id) (op_get_run S run_id)) (\<lambda>run.
    if r_status run \<in> {Scheduled, Leased} then
      andthen utc_now (\<lambda>now.
      andthen (map_err CliStore (store_update_run S run_id (cancel_patch now))) (\<lambda>_.
      println (''Run cancelled: '' @ run_id)))
    else fail (CliMsg (''Cannot cancel run in status '' @ debug_status (r_status run))))"

definition print_runs_table ::
  "'j ext \<Rightarrow> 'j cli_ext \<Rightarrow> 'j job_run list \<Rightarrow> ('s sys, 'e, unit) prog" where
  "print_runs_table E X rs = (case runs_table E X rs of
     (ls, ok) \<Rightarrow> andthen (print_lines ls) (\<lambda>_. if ok then ret () else panic))"

definition run_list ::
  "'j ext \<Rightarrow> 'j cli_ext \<Rightarrow> ('s, 'j) store_ops \<Rightarrow> bool \<Rightarrow> string option \<Rightarrow> string option \<Rightarrow> u32 \<Rightarrow>
    ('s sys, cli_error, unit) prog" where
  "run_list E X S json job status limit =
    andthen (case status of
        None \<Rightarrow> ret None
      | Some s \<Rightarrow> (case cx_parse_status X ([CHR 0x22] @ s @ [CHR 0x22]) of
            Some st \<Rightarrow> ret (Some st)
          | None \<Rightarrow> fail (CliMsg (''Unknown status: '' @ s)))) (\<lambda>status_filter.
    andthen (store_call (op_list_runs S \<lparr>f_job_id = job, f_status = status_filter, f_limit = Some limit\<rparr>)) (\<lambda>rs.
    if json then print_json (cx_runs_json X rs) else print_runs_table E X rs))"

definition handle_run ::
  "'j ext \<Rightarrow> 'j cli_ext \<Rightarrow> ('s, 'j) store_ops \<Rightarrow> bool \<Rightarrow> run_action \<Rightarrow> ('s sys, cli_error, unit) prog" where
  "handle_run E X S json action = (case action of
      RunTrigger job_id \<Rightarrow> run_trigger E S json job_id
    | RunInspect run_id \<Rightarrow>
        andthen (store_call_or (''Run not found: '' @ run_id) (op_get_run S run_id)) (\<lambda>run.
        if json then print_json (cx_run_json X run) else print_lines (run_detail E X run))
    | RunRetry run_id \<Rightarrow> run_retry S run_id
    | RunCancel run_id \<Rightarrow> run_cancel S run_id
    | RunList job status limit \<Rightarrow> run_list E X S json job status limit)"

subsection \<open>recover\<close>

definition handle_recover :: "'j ext \<Rightarrow> ('s, 'j) store_ops \<Rightarrow> ('s sys, cli_error, unit) prog" where
  "handle_recover E S =
    andthen (map_err CliStore
      (recover E \<lparr>rm_store = S, rm_clock = SystemClock, rm_stale_threshold = 300 * 10 ^ 9\<rparr>)) (\<lambda>n.
    println (''Recovery complete. Recovered '' @ show_nat n @ '' run(s).''))"

lemma println_eq [simp]: "println l w = (Ok (), w\<lparr>stdout := stdout w @ [l]\<rparr>)"
  by (simp add: println_def)

lemma cancel_patch_simps [simp]:
  "cancel_patch now \<noteq> run_patch_default" "patch_ok okt okv (cancel_patch now) = okt now"
  "apply_patch t (cancel_patch now) r = r\<lparr>r_status := Cancelled, r_finished_at := Some now, r_updated_at := t\<rparr>"
  by (simp_all add: cancel_patch_def run_patch_default_def patch_ok_def apply_patch_def)

subsection \<open>The commands on runs, over any store\<close>

context leyla_store
begin

lemma get_run_or:
  assumes "invar (db w)"
  shows "map_err f (on_db (op_get_run S k)) w =
    (case v_runs (view (db w)) k of Some r \<Rightarrow> Ok r | None \<Rightarrow> Err (f (NotFound k)), w)"
  using get_run_law [OF assms] by (simp add: map_err_def on_db_def split: option.split)

lemma run_retry_effect:
  assumes "invar (db w)" "utc_ok okt w"
  shows "case v_runs (view (db w)) k of
      None \<Rightarrow> run_retry S k w = (Err (CliMsg (''Run not found: '' @ k)), w)
    | Some r \<Rightarrow>
        if r_status r \<in> {Failed, DeadLetter, Cancelled} then
          \<exists>w' t. run_retry S k w = (Ok (), w') \<and> invar (db w') \<and>
            view (db w') = (view (db w))\<lparr>v_runs := (v_runs (view (db w)))
              (k \<mapsto> r\<lparr>r_status := Scheduled, r_updated_at := t\<rparr>)\<rparr>
        else run_retry S k w = (Err (CliMsg (''Cannot retry run in status '' @ debug_status (r_status r))), w)"
proof (cases "v_runs (view (db w)) k")
  case None
  then show ?thesis by (simp add: run_retry_def andthen_def get_run_or [OF assms(1)])
next
  case (Some r)
  show ?thesis
  proof (cases "r_status r \<in> {Failed, DeadLetter, Cancelled}")
    case False
    then show ?thesis by (simp add: Some run_retry_def andthen_def get_run_or [OF assms(1)])
  next
    case True
    obtain w1 t where w1: "store_update_run S k (status_patch Scheduled) w = (Ok (), w1)" "invar (db w1)"
        "view (db w1) = (view (db w))\<lparr>v_runs := (v_runs (view (db w)))(k \<mapsto> apply_patch t (status_patch Scheduled) r)\<rparr>"
      using store_update_run_law [OF assms Some status_patch_neq(1) status_patch_ok(1)] by blast
    have u: "map_err CliStore (store_update_run S k (status_patch Scheduled)) w = (Ok (), w1)"
      using w1(1) by (simp add: map_err_def)
    have "run_retry S k w = (Ok (), w1\<lparr>stdout := stdout w1 @ [''Run rescheduled: '' @ k]\<rparr>)"
      using True by (simp add: Some run_retry_def andthen_def get_run_or [OF assms(1)] u)
    then have "\<exists>w' t. run_retry S k w = (Ok (), w') \<and> invar (db w') \<and>
        view (db w') = (view (db w))\<lparr>v_runs := (v_runs (view (db w)))
          (k \<mapsto> r\<lparr>r_status := Scheduled, r_updated_at := t\<rparr>)\<rparr>"
      using w1(2,3) by (intro exI [of _ "w1\<lparr>stdout := stdout w1 @ [''Run rescheduled: '' @ k]\<rparr>"] exI [of _ t])
        (simp add: apply_status_patch)
    with True show ?thesis by (simp only: Some option.case if_True)
  qed
qed

lemma run_cancel_effect:
  assumes "invar (db w)" "utc_ok okt w"
  shows "case v_runs (view (db w)) k of
      None \<Rightarrow> run_cancel S k w = (Err (CliMsg (''Run not found: '' @ k)), w)
    | Some r \<Rightarrow>
        if r_status r \<in> {Scheduled, Leased} then
          \<exists>w' t. run_cancel S k w = (Ok (), w') \<and> invar (db w') \<and>
            view (db w') = (view (db w))\<lparr>v_runs := (v_runs (view (db w)))
              (k \<mapsto> r\<lparr>r_status := Cancelled, r_finished_at := Some (utc_src w (utc_idx w)), r_updated_at := t\<rparr>)\<rparr>
        else run_cancel S k w = (Err (CliMsg (''Cannot cancel run in status '' @ debug_status (r_status r))), w)"
proof (cases "v_runs (view (db w)) k")
  case None
  then show ?thesis by (simp add: run_cancel_def andthen_def get_run_or [OF assms(1)])
next
  case (Some r)
  show ?thesis
  proof (cases "r_status r \<in> {Scheduled, Leased}")
    case False
    then show ?thesis by (simp add: Some run_cancel_def andthen_def get_run_or [OF assms(1)])
  next
    case True
    let ?now = "utc_src w (utc_idx w)" and ?w = "w\<lparr>utc_idx := Suc (utc_idx w)\<rparr>"
    have pre: "invar (db ?w)" "utc_ok okt ?w" "v_runs (view (db ?w)) k = Some r"
        "patch_ok okt okv (cancel_patch ?now)"
      using assms Some by (simp_all add: utc_ok_def)
    obtain w1 t where w1: "store_update_run S k (cancel_patch ?now) ?w = (Ok (), w1)" "invar (db w1)"
        "view (db w1) = (view (db ?w))\<lparr>v_runs := (v_runs (view (db ?w)))(k \<mapsto> apply_patch t (cancel_patch ?now) r)\<rparr>"
      using store_update_run_law [OF pre(1-3) cancel_patch_simps(1) pre(4)] by blast
    have u: "map_err CliStore (store_update_run S k (cancel_patch ?now)) ?w = (Ok (), w1)"
      using w1(1) by (simp add: map_err_def)
    have "run_cancel S k w = (Ok (), w1\<lparr>stdout := stdout w1 @ [''Run cancelled: '' @ k]\<rparr>)"
      using True by (simp add: Some run_cancel_def andthen_def get_run_or [OF assms(1)] u)
    then have "\<exists>w' t. run_cancel S k w = (Ok (), w') \<and> invar (db w') \<and>
        view (db w') = (view (db w))\<lparr>v_runs := (v_runs (view (db w)))
          (k \<mapsto> r\<lparr>r_status := Cancelled, r_finished_at := Some ?now, r_updated_at := t\<rparr>)\<rparr>"
      using w1(2,3) by (intro exI [of _ "w1\<lparr>stdout := stdout w1 @ [''Run cancelled: '' @ k]\<rparr>"] exI [of _ t]) simp
    with True show ?thesis by (simp only: Some option.case if_True)
  qed
qed

text \<open>\<open>job add\<close> with a schedule that gives a next run.\<close>

lemma job_add_effect:
  assumes "invar (db w)" "utc_ok okt w" "okv (x_json_null E)"
    and "job_schedule X cron interval_ms at_ts timezone = (Ok sched :: (cli_error, schedule) outcome)"
    and "schedule_ok okt sched"
    and "compute_next_run E sched (utc_src w (Suc (utc_idx w))) = (Ok nxt :: (cli_error, time option) outcome)"
    and "opt_ok okt nxt"
  shows "\<exists>d job. job_add E X S False jid name cron interval_ms at_ts (Some cmd) args timezone w =
      (Ok (), w\<lparr>utc_idx := utc_idx w + 2, db := d, stdout := stdout w @ [''Job created: '' @ j_id job]\<rparr>) \<and> invar d \<and>
    job = (leyla_job_new (x_json_null E) (utc_src w (utc_idx w)) (case jid of Some i \<Rightarrow> i | None \<Rightarrow> name) sched
      (Shell cmd args))\<lparr>j_next_run_at := (case sched of Once t \<Rightarrow> Some t | _ \<Rightarrow> nxt)\<rparr> \<and>
    view d = (view (db w))\<lparr>v_jobs := (v_jobs (view (db w)))(j_id job \<mapsto> job)\<rparr>"
proof -
  define job where "job = (leyla_job_new (x_json_null E) (utc_src w (utc_idx w))
    (case jid of Some i \<Rightarrow> i | None \<Rightarrow> name) sched (Shell cmd args))
    \<lparr>j_next_run_at := (case sched of Once t \<Rightarrow> Some t | _ \<Rightarrow> nxt)\<rparr>"
  have "job_ok okt okv job"
    using assms(2,3,5,7)
    by (auto simp: job_def job_ok_def leyla_job_new_def executor_ok_def utc_ok_def schedule_ok_def
        split: schedule.splits)
  then obtain d where d: "op_upsert_job S job (db w) = (Ok (), d)" "invar d"
      "view d = (view (db w))\<lparr>v_jobs := (v_jobs (view (db w)))(j_id job \<mapsto> job)\<rparr>"
    using upsert_job_law [OF assms(1)] by blast
  have "(case sched of Once t \<Rightarrow> j\<lparr>j_next_run_at := nxt\<rparr>\<lparr>j_next_run_at := Some t\<rparr> | _ \<Rightarrow> j\<lparr>j_next_run_at := nxt\<rparr>) =
      j\<lparr>j_next_run_at := (case sched of Once t \<Rightarrow> Some t | _ \<Rightarrow> nxt)\<rparr>" for j :: "'j leyla_job"
    by (simp split: schedule.split)
  then have "job_add E X S False jid name cron interval_ms at_ts (Some cmd) args timezone w =
      (Ok (), w\<lparr>utc_idx := utc_idx w + 2, db := d, stdout := stdout w @ [''Job created: '' @ j_id job]\<rparr>)"
    using d(1) assms(4,6)
    by (simp add: job_add_def andthen_def map_err_def on_db_def Let_def flip: job_def)
  with d(2,3) show ?thesis by (auto simp: job_def)
qed

end

subsection \<open>Properties\<close>

text \<open>
  \<open>run retry\<close> over the memory store: for a stored run that is \<open>Failed\<close>, \<open>DeadLetter\<close> or
  \<open>Cancelled\<close> it sets the status to \<open>Scheduled\<close> and changes nothing else of the run (attempts,
  finish time and lease stay); in any other status, and for an unknown run, it fails with a
  message and changes nothing.
\<close>
lemma run_retry_memory:
  assumes "mem_inv E (db w)"
  shows "case v_runs (mem_view (db w)) k of
      None \<Rightarrow> run_retry (memory_ops E) k w = (Err (CliMsg (''Run not found: '' @ k)), w)
    | Some r \<Rightarrow>
        if r_status r \<in> {Failed, DeadLetter, Cancelled} then
          \<exists>w' t. run_retry (memory_ops E) k w = (Ok (), w') \<and> mem_inv E (db w') \<and>
            mem_view (db w') = (mem_view (db w))\<lparr>v_runs := (v_runs (mem_view (db w)))
              (k \<mapsto> r\<lparr>r_status := Scheduled, r_updated_at := t\<rparr>)\<rparr>
        else run_retry (memory_ops E) k w =
          (Err (CliMsg (''Cannot retry run in status '' @ debug_status (r_status r))), w)"
  by (rule mem.run_retry_effect [OF assms utc_ok_True])

lemma sample_runs_one:
  "mem_inv sample_ext (db (sample_sys (sample_runs [sample_run 1 st n])))"
  "v_runs (mem_view (db (sample_sys (sample_runs [sample_run 1 st n])))) = [''u'' \<mapsto> sample_run 1 st n]"
proof -
  have db: "db (sample_sys (sample_runs [sample_run 1 st n])) = sample_runs [sample_run 1 st n]"
    by (simp add: sample_sys_def)
  show "mem_inv sample_ext (db (sample_sys (sample_runs [sample_run 1 st n])))"
    unfolding db by (rule sample_runs_store) simp
  show "v_runs (mem_view (db (sample_sys (sample_runs [sample_run 1 st n])))) = [''u'' \<mapsto> sample_run 1 st n]"
    by (simp add: db sample_runs_store sample_run_fields)
qed

lemma run_retry_memory_witness:
  "\<exists>w' t. run_retry (memory_ops sample_ext) ''u'' (sample_sys (sample_runs [sample_run 1 DeadLetter 1])) = (Ok (), w') \<and>
    v_runs (mem_view (db w')) ''u'' = Some ((sample_run 1 DeadLetter 1)\<lparr>r_status := Scheduled, r_updated_at := t\<rparr>)"
  using run_retry_memory [OF sample_runs_one(1) [of DeadLetter 1], where k = "''u''"]
  by (auto simp: sample_runs_one(2) sample_run_fields)

text \<open>
  C32: \<open>run cancel\<close> over the memory store: a stored run that is \<open>Scheduled\<close> or \<open>Leased\<close> becomes
  \<open>Cancelled\<close> with its finish time set; a run in any other status (a running one included) and
  an unknown run are refused with a message, and nothing changes. The README documents the command
  as ``cancel a scheduled or running run''; the code and its message exclude the running ones.
\<close>
lemma run_cancel_memory:
  assumes "mem_inv E (db w)"
  shows "case v_runs (mem_view (db w)) k of
      None \<Rightarrow> run_cancel (memory_ops E) k w = (Err (CliMsg (''Run not found: '' @ k)), w)
    | Some r \<Rightarrow>
        if r_status r \<in> {Scheduled, Leased} then
          \<exists>w' t. run_cancel (memory_ops E) k w = (Ok (), w') \<and> mem_inv E (db w') \<and>
            mem_view (db w') = (mem_view (db w))\<lparr>v_runs := (v_runs (mem_view (db w)))
              (k \<mapsto> r\<lparr>r_status := Cancelled, r_finished_at := Some (utc_src w (utc_idx w)), r_updated_at := t\<rparr>)\<rparr>
        else run_cancel (memory_ops E) k w =
          (Err (CliMsg (''Cannot cancel run in status '' @ debug_status (r_status r))), w)"
  by (rule mem.run_cancel_effect [OF assms utc_ok_True])

lemma run_cancel_memory_witness:
  "run_cancel (memory_ops sample_ext) ''u'' (sample_sys (sample_runs [sample_run 1 Running 1])) =
    (Err (CliMsg ''Cannot cancel run in status Running''), sample_sys (sample_runs [sample_run 1 Running 1]))"
  using run_cancel_memory [OF sample_runs_one(1) [of Running 1], where k = "''u''"]
  by (simp add: sample_runs_one(2) sample_run_fields debug_status_def)

text \<open>
  The status changes of the commands leave the life cycle: every status \<open>run retry\<close> accepts
  is one from which \<open>can_transition\<close> forbids \<open>Scheduled\<close>, and \<open>run cancel\<close> moves \<open>Leased\<close>
  runs to \<open>Cancelled\<close>, which is forbidden too; only \<open>Scheduled\<close> to \<open>Cancelled\<close> is allowed.
\<close>
lemma commands_leave_life_cycle:
  assumes "mem_inv E (db w)" "v_runs (mem_view (db w)) k = Some r"
  shows "(\<forall>w'. run_retry (memory_ops E) k w = (Ok (), w') \<longrightarrow>
      (\<exists>r'. v_runs (mem_view (db w')) k = Some r' \<and> \<not> can_transition (r_status r) (r_status r'))) \<and>
    (\<forall>w'. run_cancel (memory_ops E) k w = (Ok (), w') \<longrightarrow>
      (\<exists>r'. v_runs (mem_view (db w')) k = Some r' \<and>
        (can_transition (r_status r) (r_status r') \<longleftrightarrow> r_status r = Scheduled)))"
  using mem.run_retry_effect [OF assms(1) utc_ok_True, of k] mem.run_cancel_effect [OF assms(1) utc_ok_True, of k]
  by (auto simp: assms(2) split: if_splits)

lemma commands_leave_life_cycle_witness:
  "\<exists>w' r'. run_cancel (memory_ops sample_ext) ''u'' (sample_sys (sample_runs [sample_run 1 Leased 1])) = (Ok (), w') \<and>
    v_runs (mem_view (db w')) ''u'' = Some r' \<and> \<not> can_transition Leased (r_status r')"
proof -
  have st: "v_runs (mem_view (db (sample_sys (sample_runs [sample_run 1 Leased 1])))) ''u'' = Some (sample_run 1 Leased 1)"
    by (simp add: sample_runs_one(2))
  obtain w' where w': "run_cancel (memory_ops sample_ext) ''u'' (sample_sys (sample_runs [sample_run 1 Leased 1])) = (Ok (), w')"
    using mem.run_cancel_effect [OF sample_runs_one(1) [of Leased 1] utc_ok_True, where k = "''u''"]
    by (auto simp: st sample_run_fields)
  with commands_leave_life_cycle [OF sample_runs_one(1) st] show ?thesis
    by (auto simp: sample_run_fields)
qed

text \<open>
  C36: \<open>job add\<close> over the memory store. The schedule is that of the first option given of \<open>--cron\<close> (with
  the time zone), \<open>--interval-ms\<close> (from the wall clock) and \<open>--at\<close> (the time it denotes), and manual when
  none is. One job is stored, enabled, with this schedule and the command, and its first due time: none for
  a manual job or a cron expression that is not accepted, the time given by \<open>--at\<close>, now plus the interval,
  or the next time of the expression. It is stored under the given id or else under the name; a name given
  together with an id is not kept: the job's name is its id. No run and no other job changes.
\<close>
lemma job_add_memory:
  assumes "mem_inv E (db w)"
    and "sched = (if cron \<noteq> None then Cron (the cron) timezone
      else if interval_ms \<noteq> None then Interval (the interval_ms) WallClock
      else if at_ts \<noteq> None then Once at_time else Manual)"
    and "cron = None \<Longrightarrow> interval_ms = None \<Longrightarrow> at_ts \<noteq> None \<Longrightarrow> cx_parse_rfc3339 X (the at_ts) = Inr at_time"
    and "cron = None \<Longrightarrow> interval_ms \<noteq> None \<Longrightarrow> x_td_millis E (sint (the interval_ms)) = Some delta"
    and "cron = None \<Longrightarrow> interval_ms \<noteq> None \<Longrightarrow> x_dt_add E (utc_src w (Suc (utc_idx w))) delta = Some after_interval"
  shows "\<exists>d job. job_add E X (memory_ops E) False jid name cron interval_ms at_ts (Some cmd) args timezone w =
      (Ok (), w\<lparr>utc_idx := utc_idx w + 2, db := d, stdout := stdout w @ [''Job created: '' @ j_id job]\<rparr>) \<and>
    mem_inv E d \<and> mem_view d = (mem_view (db w))\<lparr>v_jobs := (v_jobs (mem_view (db w)))(j_id job \<mapsto> job)\<rparr> \<and>
    j_enabled job \<and> j_schedule job = sched \<and> j_executor job = Shell cmd args \<and>
    j_next_run_at job = (case sched of Manual \<Rightarrow> None | Once t \<Rightarrow> Some t | Interval _ _ \<Rightarrow> Some after_interval
      | Cron expr _ \<Rightarrow> (case x_cron_parse E expr of None \<Rightarrow> None | Some f \<Rightarrow> f (utc_src w (Suc (utc_idx w))))) \<and>
    j_id job = (case jid of Some i \<Rightarrow> i | None \<Rightarrow> name) \<and> j_name job = j_id job"
proof -
  let ?now = "utc_src w (Suc (utc_idx w))"
  have sched: "job_schedule X cron interval_ms at_ts timezone = (Ok sched :: (cli_error, schedule) outcome)"
    using assms(2,3) by (auto simp: job_schedule_def split: option.split)
  define nxt where "nxt = (case sched of Interval _ _ \<Rightarrow> Some after_interval
    | Cron expr _ \<Rightarrow> (case x_cron_parse E expr of None \<Rightarrow> None | Some f \<Rightarrow> f ?now) | _ \<Rightarrow> None)"
  have nxt: "compute_next_run E sched ?now = (Ok nxt :: (cli_error, time option) outcome)"
    using assms(2,4,5) by (auto simp: compute_next_run_def nxt_def split: option.split)
  have ok: "schedule_ok (\<lambda>_. True) sched" by (simp add: schedule_ok_def split: schedule.split)
  have "(case sched of Once t \<Rightarrow> Some t | _ \<Rightarrow> nxt) = (case sched of Manual \<Rightarrow> None | Once t \<Rightarrow> Some t
      | Interval _ _ \<Rightarrow> Some after_interval
      | Cron expr _ \<Rightarrow> (case x_cron_parse E expr of None \<Rightarrow> None | Some f \<Rightarrow> f ?now))"
    by (simp add: nxt_def split: schedule.split)
  with mem.job_add_effect [OF assms(1) utc_ok_True TrueI sched ok nxt opt_ok_True, of jid name cmd args]
  show ?thesis by (fastforce simp: leyla_job_new_def)
qed

lemma job_add_memory_witness:
  "\<exists>w'. job_add sample_ext sample_cli_ext (memory_ops sample_ext) False (Some ''a'') ''Nightly''
      (Some ''* * * * * *'') (Some 5) None (Some ''true'') [] (Some ''UTC'') (sample_sys (sample_jobs [])) = (Ok (), w') \<and>
    (\<exists>j. v_jobs (mem_view (db w')) ''a'' = Some j \<and> j_name j = ''a'' \<and> j_schedule j = Cron ''* * * * * *'' (Some ''UTC'') \<and>
      j_next_run_at j = Some (1 + nanos_per_sec))"
proof -
  let ?w = "sample_sys (sample_jobs [])"
  have inv: "mem_inv sample_ext (db ?w)" by (simp add: sample_sys_def sample_store)
  show ?thesis
    using job_add_memory [OF inv refl, of "Some ''* * * * * *''" "Some 5" None sample_cli_ext 0 0 0
        "Some ''a''" "''Nightly''" "''true''" "[]" "Some ''UTC''"]
    by (fastforce simp: sample_ext_def sample_sys_def)
qed

text \<open>
  What \<open>job add\<close> refuses, before it touches the store: a time \<open>--at\<close> that is not RFC 3339 (when neither
  \<open>--cron\<close> nor \<open>--interval-ms\<close> overrides it), and a job without a command.
\<close>
lemma job_add_refused:
  "cx_parse_rfc3339 X ts = Inl msg \<Longrightarrow> job_add E X S json jid name None None (Some ts) command args timezone w =
    (Err (CliMsg (''Invalid --at timestamp: '' @ msg)), w)"
  "job_schedule X cron interval_ms at_ts timezone = (Ok sched :: (cli_error, schedule) outcome) \<Longrightarrow>
    job_add E X S json jid name cron interval_ms at_ts None args timezone w =
      (Err (CliMsg ''--command is required for job add''), w)"
  by (simp_all add: job_add_def job_schedule_def andthen_def)

end
