(* ===== verification/Cli_Daemon.thy ===== *)
theory Cli_Daemon
  imports Cli_Commands
begin

section \<open>The daemon and doctor commands (leyla-cli/src/commands/daemon.rs, doctor.rs)\<close>

text \<open>
  The operating system as the commands see it: files by path, the answers of \<open>kill\<close>, of the
  creation of a process and of directories, and what was written and sent. What a system call
  answers is a field of the state, any value; only its effects on the files and the log of
  signals are computed here. \<open>str::trim\<close> and \<open>str::parse::<i32>\<close> are the standard library's.
\<close>

record os =
  home_dir :: "string option"
  files :: "string \<rightharpoonup> string"
  read_error :: "string \<Rightarrow> string option"
  removable :: "string \<Rightarrow> bool"
  current_exe :: "string + string"
  spawn_pid :: "string + u32"
  mkdir_error :: "string \<Rightarrow> string option"
  write_error :: "string \<Rightarrow> string option"
  kill_ok :: "int \<Rightarrow> int \<Rightarrow> bool"
  signals :: "(int \<times> int) list"
  os_out :: "string list"

subsection \<open>Text of process identifiers\<close>

definition white_chars :: "string list" where
  "white_chars = map (\<lambda>b. [char_of b]) [9 :: nat, 10, 11, 12, 13, 32] @
    map (map char_of) ([[194 :: nat, 133], [194, 160], [225, 154, 128], [226, 128, 168], [226, 128, 169],
      [226, 128, 175], [226, 129, 159], [227, 128, 128]] @ map (\<lambda>b. [226, 128, b]) [128 ..< 139])"

definition trim_chars :: "string list \<Rightarrow> string list" where
  "trim_chars cs = rev (dropWhile (\<lambda>c. c \<in> set white_chars) (rev (dropWhile (\<lambda>c. c \<in> set white_chars) cs)))"

definition str_trim :: "string \<Rightarrow> string" where
  "str_trim s = concat (trim_chars (map snd (utf8_chunks s)))"

definition digit_val :: "char \<Rightarrow> nat option" where
  "digit_val c = (let n = of_char c :: nat in if 48 \<le> n \<and> n \<le> 57 then Some (n - 48) else None)"

fun parse_digits :: "string \<Rightarrow> nat \<Rightarrow> nat option" where
  "parse_digits [] acc = Some acc"
| "parse_digits (c # cs) acc = (case digit_val c of None \<Rightarrow> None | Some d \<Rightarrow> parse_digits cs (10 * acc + d))"

text \<open>\<open>parse::<libc::pid_t>\<close>: an optional sign, at least one digit, within the 32 bits.\<close>

definition parse_i32 :: "string \<Rightarrow> int option" where
  "parse_i32 s =
    (let (neg, ds) = (case s of
           c # cs \<Rightarrow> if c = CHR ''-'' then (True, cs) else if c = CHR ''+'' then (False, cs) else (False, s)
         | [] \<Rightarrow> (False, []))
     in if ds = [] then None
        else (case parse_digits ds 0 of
            None \<Rightarrow> None
          | Some n \<Rightarrow> (let i = (if neg then - int n else int n)
              in if - (2 ^ 31) \<le> i \<and> i < 2 ^ 31 then Some i else None)))"

definition show_int :: "int \<Rightarrow> string" where
  "show_int i = (if i < 0 then CHR ''-'' # show_nat (nat (- i)) else show_nat (nat i))"

subsection \<open>Files and processes\<close>

definition join_path :: "string \<Rightarrow> string \<Rightarrow> string" where
  "join_path p q = (if p = [] \<or> last p = CHR ''/'' then p @ q else p @ ''/'' @ q)"

definition pid_dir :: "os \<Rightarrow> string" where
  "pid_dir w = (case home_dir w of Some h \<Rightarrow> join_path h ''.leyla'' | None \<Rightarrow> ''/tmp'')"

definition pid_path :: "os \<Rightarrow> string" where
  "pid_path w = (case home_dir w of Some h \<Rightarrow> join_path (join_path h ''.leyla'') ''leyla.pid'' | None \<Rightarrow> ''/tmp/leyla.pid'')"

definition file_exists :: "string \<Rightarrow> os \<Rightarrow> bool" where
  "file_exists p w \<longleftrightarrow> files w p \<noteq> None"

definition read_to_string :: "string \<Rightarrow> os \<Rightarrow> string + string" where
  "read_to_string p w = (case read_error w p of Some e \<Rightarrow> Inl e | None \<Rightarrow>
     (case files w p of None \<Rightarrow> Inl ''No such file or directory (os error 2)''
      | Some s \<Rightarrow> if utf8_ok s then Inr s else Inl ''stream did not contain valid UTF-8''))"

definition os_println :: "string \<Rightarrow> (os, 'e, unit) prog" where
  "os_println l w = (Ok (), w\<lparr>os_out := os_out w @ [l]\<rparr>)"

text \<open>\<open>let _ = remove_file(..)\<close>\<close>

definition remove_file :: "string \<Rightarrow> (os, 'e, unit) prog" where
  "remove_file p w = (Ok (), if removable w p then w\<lparr>files := (files w)(p := None)\<rparr> else w)"

definition create_dir_all :: "string \<Rightarrow> (os, cli_error, unit) prog" where
  "create_dir_all p w = (case mkdir_error w p of Some e \<Rightarrow> Err (CliMsg e) | None \<Rightarrow> Ok (), w)"

definition write_file :: "string \<Rightarrow> string \<Rightarrow> (os, cli_error, unit) prog" where
  "write_file p s w = (case write_error w p of Some e \<Rightarrow> (Err (CliMsg e), w)
     | None \<Rightarrow> (Ok (), w\<lparr>files := (files w)(p \<mapsto> s)\<rparr>))"

text \<open>\<open>libc::kill(pid, sig) == 0\<close>\<close>

definition os_kill :: "int \<Rightarrow> int \<Rightarrow> (os, 'e, bool) prog" where
  "os_kill pid sig w = (Ok (kill_ok w pid sig), w\<lparr>signals := signals w @ [(pid, sig)]\<rparr>)"

definition os_try :: "(os \<Rightarrow> string + 'a) \<Rightarrow> (os, cli_error, 'a) prog" where
  "os_try f w = (case f w of Inl e \<Rightarrow> Err (CliMsg e) | Inr x \<Rightarrow> Ok x, w)"

subsection \<open>daemon\<close>

datatype daemon_action = DaemonStart | DaemonStop | DaemonStatus | DaemonRun

text \<open>The check of \<open>start\<close>: the PID of a live daemon, or the stale file is removed.\<close>

definition running_pid :: "os \<Rightarrow> int option" where
  "running_pid w = (case read_to_string (pid_path w) w of Inl _ \<Rightarrow> None | Inr s \<Rightarrow> parse_i32 (str_trim s))"

definition daemon_check :: "(os, cli_error, int option) prog" where
  "daemon_check w =
    (if \<not> file_exists (pid_path w) w then ret None
     else case running_pid w of
         None \<Rightarrow> andthen (remove_file (pid_path w)) (\<lambda>_. ret None)
       | Some pid \<Rightarrow> andthen (os_kill pid 0) (\<lambda>alive.
           if alive then ret (Some pid) else andthen (remove_file (pid_path w)) (\<lambda>_. ret None))) w"

definition daemon_start :: "(os, cli_error, unit) prog" where
  "daemon_start w = andthen daemon_check (\<lambda>found. case found of
      Some pid \<Rightarrow> os_println (''Daemon already running (PID '' @ show_int pid @ '').'')
    | None \<Rightarrow>
        andthen (os_try current_exe) (\<lambda>_.
        andthen (os_try spawn_pid) (\<lambda>pid.
        andthen (create_dir_all (pid_dir w)) (\<lambda>_.
        andthen (write_file (pid_path w) (show_nat (unat pid))) (\<lambda>_.
        os_println (''Daemon started (PID '' @ show_nat (unat pid) @ '').'')))))) w"

definition daemon_stop :: "(os, cli_error, unit) prog" where
  "daemon_stop w =
    (if \<not> file_exists (pid_path w) w then os_println ''Daemon is not running.''
     else andthen (os_try (read_to_string (pid_path w))) (\<lambda>contents.
       case parse_i32 (str_trim contents) of
         None \<Rightarrow> fail (CliMsg ''Invalid PID in pid file'')
       | Some pid \<Rightarrow>
           andthen (os_kill pid 15) (\<lambda>ok.
           andthen (if ok then os_println (''Daemon stopped (PID '' @ show_int pid @ '').'')
             else os_println (''Failed to stop daemon (PID '' @ show_int pid @ ''): process may already be gone.'')) (\<lambda>_.
           remove_file (pid_path w))))) w"

definition daemon_status :: "(os, cli_error, unit) prog" where
  "daemon_status w =
    (if \<not> file_exists (pid_path w) w then os_println ''Daemon: not running''
     else andthen (os_try (read_to_string (pid_path w))) (\<lambda>contents.
       let pid = (case parse_i32 (str_trim contents) of Some p \<Rightarrow> p | None \<Rightarrow> 0)
       in andthen (os_kill pid 0) (\<lambda>alive.
          if alive then os_println (''Daemon: running (PID '' @ show_int pid @ '')'')
          else os_println ''Daemon: not running (stale PID file)''))) w"

text \<open>\<open>loop { sleep(10 s) }\<close>, with the seconds slept so far; \<open>None\<close> is not returning.\<close>

partial_function (option) daemon_loop :: "nat \<Rightarrow> nat option" where
  "daemon_loop slept = daemon_loop (slept + 10)"

definition handle_daemon :: "daemon_action \<Rightarrow> os \<Rightarrow> ((cli_error, unit) outcome \<times> os) option" where
  "handle_daemon action w = (case action of
      DaemonStart \<Rightarrow> Some (daemon_start w)
    | DaemonStop \<Rightarrow> Some (daemon_stop w)
    | DaemonStatus \<Rightarrow> Some (daemon_status w)
    | DaemonRun \<Rightarrow> map_option (\<lambda>_. (Ok (), w)) (daemon_loop 0))"

subsection \<open>doctor\<close>

definition daemon_alive :: "os \<Rightarrow> bool" where
  "daemon_alive w = (case home_dir w of None \<Rightarrow> False
     | Some _ \<Rightarrow> file_exists (pid_path w) w \<and>
         (case running_pid w of Some pid \<Rightarrow> kill_ok w pid 0 | None \<Rightarrow> False))"

definition warn_mark :: string where "warn_mark = map char_of [226 :: nat, 154, 160]"
definition check_mark :: string where "check_mark = map char_of [226 :: nat, 156, 147]"

definition mark :: "nat \<Rightarrow> string" where
  "mark n = (if 0 < n then warn_mark else check_mark)"

definition doctor_lines :: "nat \<Rightarrow> nat \<Rightarrow> nat \<Rightarrow> bool \<Rightarrow> string list" where
  "doctor_lines stale dead overdue alive =
    [''Leyla Doctor Report'', concat (replicate 29 box_line),
     ''Stale leases:   '' @ show_nat stale @ '' '' @ mark stale,
     ''Dead letters:   '' @ show_nat dead @ '' '' @ mark dead,
     ''Overdue runs:   '' @ show_nat overdue @ '' '' @ mark overdue,
     ''Daemon:         '' @ (if alive then ''running '' @ check_mark else ''not running'')]"

text \<open>\<open>report\<close> is what serde_json prints of the report object.\<close>

definition handle_doctor ::
  "('s, 'j) store_ops \<Rightarrow> (nat \<Rightarrow> nat \<Rightarrow> nat \<Rightarrow> bool \<Rightarrow> string + string) \<Rightarrow> os \<Rightarrow> bool \<Rightarrow> ('s sys, cli_error, unit) prog" where
  "handle_doctor S report w json =
    andthen utc_now (\<lambda>now.
    andthen (store_call (op_get_stale_runs S now (300 * 10 ^ 9))) (\<lambda>stale.
    andthen (store_call (op_get_dead_letters S)) (\<lambda>dead.
    andthen (store_call (op_list_runs S (run_filter_default\<lparr>f_status := Some Scheduled\<rparr>))) (\<lambda>all_runs.
    let overdue = length (filter (\<lambda>r. r_scheduled_for r < now) all_runs); alive = daemon_alive w
    in if json then print_json (report (length stale) (length dead) overdue alive)
       else print_lines (doctor_lines (length stale) (length dead) overdue alive)))))"

subsection \<open>Printed integers are read back\<close>

definition digit_char :: "char \<Rightarrow> bool" where
  "digit_char c \<longleftrightarrow> 48 \<le> (of_char c :: nat) \<and> (of_char c :: nat) \<le> 57"

lemma digit_val_char: "d < 10 \<Longrightarrow> digit_val (char_of (48 + d)) = Some d \<and> digit_char (char_of (48 + d))"
  by (simp add: digit_val_def digit_char_def Let_def)

lemma show_nat_digits: "list_all digit_char (show_nat n)"
proof (induction n rule: show_nat.induct)
  case (1 n)
  have d: "list_all digit_char [char_of (48 + n mod 10)]" using digit_val_char [of "n mod 10"] by simp
  show ?case
  proof (cases "n < 10")
    case True
    then show ?thesis using digit_val_char [of n] by (simp add: show_nat.simps [of n])
  next
    case False
    then show ?thesis using 1 d by (subst show_nat.simps) simp
  qed
qed

lemma show_nat_neq_Nil [simp]: "show_nat n \<noteq> []"
  by (subst show_nat.simps) simp

lemma parse_digits_append:
  "parse_digits (xs @ ys) acc = (case parse_digits xs acc of None \<Rightarrow> None | Some a \<Rightarrow> parse_digits ys a)"
  by (induction xs arbitrary: acc) (simp_all split: option.split)

lemma parse_show_nat: "parse_digits (show_nat n) 0 = Some n"
proof (induction n rule: show_nat.induct)
  case (1 n)
  show ?case
  proof (cases "n < 10")
    case True
    then show ?thesis using digit_val_char [of n] by (simp add: show_nat.simps [of n])
  next
    case False
    then have "show_nat n = show_nat (n div 10) @ [char_of (48 + n mod 10)]" by (simp add: show_nat.simps [of n])
    then show ?thesis using 1 False digit_val_char [of "n mod 10"] by (simp add: parse_digits_append)
  qed
qed

lemma digit_char_first: "digit_char c \<Longrightarrow> c \<noteq> CHR ''-'' \<and> c \<noteq> CHR ''+''"
  by (auto simp: digit_char_def)

lemma parse_i32_nat: "parse_i32 (show_nat n) = (if n < 2 ^ 31 then Some (int n) else None)"
proof -
  obtain c cs where s: "show_nat n = c # cs" by (cases "show_nat n") simp_all
  then have "c \<noteq> CHR ''-''" "c \<noteq> CHR ''+''" using show_nat_digits [of n] digit_char_first [of c] by simp_all
  with s parse_show_nat [of n] show ?thesis by (simp add: parse_i32_def)
qed

lemma parse_i32_show_int:
  "- (2 ^ 31) \<le> i \<Longrightarrow> i < 2 ^ 31 \<Longrightarrow> parse_i32 (show_int i) = Some i"
  using parse_show_nat [of "nat (- i)"] by (cases "i < 0") (simp_all add: show_int_def parse_i32_nat, simp add: parse_i32_def)

lemma parse_i32_range: "parse_i32 s = Some i \<Longrightarrow> - (2 ^ 31) \<le> i \<and> i < 2 ^ 31"
  by (auto simp: parse_i32_def Let_def split: prod.splits list.splits if_splits option.splits)

text \<open>Text of visible ASCII characters is not trimmed.\<close>

definition plain_char :: "char \<Rightarrow> bool" where
  "plain_char c \<longleftrightarrow> 32 < (of_char c :: nat) \<and> (of_char c :: nat) < 127"

lemma plain_not_white: "plain_char c \<Longrightarrow> [c] \<notin> set white_chars"
proof
  assume c: "plain_char c" "[c] \<in> set white_chars"
  then obtain b where "b \<in> set [9 :: nat, 10, 11, 12, 13, 32]" "c = char_of b"
    by (auto simp: white_chars_def)
  with c(1) show False by (auto simp: plain_char_def)
qed

lemma plain_utf8: "plain_char c \<Longrightarrow> utf8_char [c]"
  by (simp add: plain_char_def utf8_char_def utf8_step_def byte_at_def)

lemma plain_chunks:
  assumes "list_all plain_char s"
  shows "utf8_chunks s = map (\<lambda>c. (True, [c])) s"
proof -
  have "list_all utf8_char (map (\<lambda>c. [c]) s)" using assms by (auto simp: list_all_iff plain_utf8)
  from utf8_chunks_concat [OF this] show ?thesis by simp
qed

lemma dropWhile_none: "\<forall>x\<in>set xs. \<not> P x \<Longrightarrow> dropWhile P xs = xs"
  by (cases xs) simp_all

lemma plain_trim:
  assumes "list_all plain_char s"
  shows "str_trim s = s" "utf8_ok s"
proof -
  have "\<forall>c\<in>set (map (\<lambda>c. [c]) s). c \<notin> set white_chars"
    using assms plain_not_white by (auto simp: list_all_iff)
  then have "dropWhile (\<lambda>c. c \<in> set white_chars) (map (\<lambda>c. [c]) s) = map (\<lambda>c. [c]) s"
    "dropWhile (\<lambda>c. c \<in> set white_chars) (rev (map (\<lambda>c. [c]) s)) = rev (map (\<lambda>c. [c]) s)"
    by (simp_all only: dropWhile_none set_rev)
  then show "str_trim s = s"
    by (simp add: str_trim_def trim_chars_def plain_chunks [OF assms] comp_def rev_map)
  show "utf8_ok s" by (simp add: utf8_ok_def plain_chunks [OF assms] list_all_iff)
qed

lemma show_nat_plain: "list_all plain_char (show_nat n)"
  using show_nat_digits [of n] by (auto simp: list_all_iff digit_char_def plain_char_def)

subsection \<open>The doctor's report, over any store\<close>

context leyla_store
begin

lemma doctor_effect:
  assumes "invar (db w)" "utc_ok okt w"
    and "x_td_from_std E (300 * 10 ^ 9) = Inr d" "x_dt_sub E (utc_src w (utc_idx w)) d = Some cutoff" "okt cutoff"
  shows "let now = utc_src w (utc_idx w); R = ran (v_runs (view (db w))) in
    handle_doctor S report os False w = (Ok (), w\<lparr>utc_idx := Suc (utc_idx w), stdout := stdout w @
      doctor_lines (card {r \<in> R. run_stale now cutoff r}) (length (v_dead (view (db w))))
        (card {r \<in> R. r_status r = Scheduled \<and> r_scheduled_for r < now}) (daemon_alive os)\<rparr>)"
proof -
  define now where "now = utc_src w (utc_idx w)"
  let ?R = "ran (v_runs (view (db w)))"
  have "okt now" using assms(2) by (simp add: utc_ok_def now_def)
  then obtain ss where ss: "op_get_stale_runs S now (300 * 10 ^ 9) (db w) = (Ok ss, db w)"
      "distinct (map r_run_id ss)" "set ss = {r \<in> ?R. run_stale now cutoff r}"
    using stale_runs_law [OF assms(1) _ assms(3) assms(4) [folded now_def] assms(5)] by blast
  obtain ds where ds: "op_get_dead_letters S (db w) = (Ok ds, db w)" "mset ds = mset (v_dead (view (db w)))"
    using dead_letters_law [OF assms(1)] by blast
  obtain rs where rs: "op_list_runs S (run_filter_default\<lparr>f_status := Some Scheduled\<rparr>) (db w) = (Ok rs, db w)"
      "distinct (map r_run_id rs)" "set rs = {r \<in> ?R. r_status r = Scheduled}"
    using list_runs_law [OF assms(1), of "run_filter_default\<lparr>f_status := Some Scheduled\<rparr>"]
    by (auto simp: run_filter_default_def filter_matches_def)
  have n1: "length ss = card {r \<in> ?R. run_stale now cutoff r}"
    using ss(2,3) by (metis distinct_card distinct_map)
  have "set (filter (\<lambda>r. r_scheduled_for r < now) rs) = {r \<in> ?R. r_status r = Scheduled \<and> r_scheduled_for r < now}"
    using rs(3) by auto
  moreover have "distinct (filter (\<lambda>r. r_scheduled_for r < now) rs)" using rs(2) by (simp add: distinct_map)
  ultimately have n3: "length (filter (\<lambda>r. r_scheduled_for r < now) rs) =
      card {r \<in> ?R. r_status r = Scheduled \<and> r_scheduled_for r < now}"
    by (metis distinct_card)
  have n2: "length ds = length (v_dead (view (db w)))" using ds(2) by (rule mset_eq_length)
  show ?thesis
    using ss(1) ds(1) rs(1)
    by (simp add: handle_doctor_def andthen_def map_err_def on_db_def n1 n2 n3 print_lines_def Let_def flip: now_def)
qed

end

subsection \<open>Properties\<close>

text \<open>A system in which nothing fails and no process is alive, for the concrete instances.\<close>

definition sample_os :: os where
  "sample_os = \<lparr>home_dir = Some ''/home/u'', files = Map.empty, read_error = (\<lambda>_. None), removable = (\<lambda>_. True),
     current_exe = Inr ''/bin/leyla'', spawn_pid = Inr 4711, mkdir_error = (\<lambda>_. None), write_error = (\<lambda>_. None),
     kill_ok = (\<lambda>pid sig. pid = 0 \<or> pid = 4711), signals = [], os_out = []\<rparr>"

lemma pid_path_frame [simp]:
  "pid_path (w\<lparr>files := f\<rparr>) = pid_path w" "pid_path (w\<lparr>os_out := l\<rparr>) = pid_path w"
  "pid_path (w\<lparr>signals := g\<rparr>) = pid_path w"
  by (simp_all add: pid_path_def)

lemma daemon_status_of:
  assumes "file_exists (pid_path w) w" "read_to_string (pid_path w) w = Inr s" "parse_i32 (str_trim s) = Some pid"
  shows "os_out (snd (daemon_status w)) = os_out w @
    [if kill_ok w pid 0 then ''Daemon: running (PID '' @ show_int pid @ '')'' else ''Daemon: not running (stale PID file)'']"
  using assms by (simp add: daemon_status_def andthen_def os_try_def os_kill_def os_println_def)

lemma daemon_stop_of:
  assumes "file_exists (pid_path w) w" "read_to_string (pid_path w) w = Inr s" "parse_i32 (str_trim s) = Some pid"
    and "removable w (pid_path w)"
  shows "\<exists>w'. daemon_stop w = (Ok (), w') \<and> signals w' = signals w @ [(pid, 15)] \<and>
    files w' = (files w)(pid_path w := None)"
  using assms by (simp add: daemon_stop_def andthen_def os_try_def os_kill_def os_println_def remove_file_def)

text \<open>
  C35: The PID that \<open>daemon start\<close> writes is the PID the other commands read: \<open>status\<close> reports
  it as running exactly if the process answers, and \<open>stop\<close> sends SIGTERM to it and to no
  other process, and removes the file.
\<close>
lemma daemon_start_status_stop:
  assumes "files w (pid_path w) = None" "current_exe w = Inr exe" "spawn_pid w = Inr pid" "unat pid < 2 ^ 31"
    and "mkdir_error w (pid_dir w) = None" "write_error w (pid_path w) = None" "read_error w (pid_path w) = None"
    and "removable w (pid_path w)"
  shows "\<exists>w1 w2. daemon_start w = (Ok (), w1) \<and> signals w1 = signals w \<and>
    os_out (snd (daemon_status w1)) = os_out w1 @
      [if kill_ok w (int (unat pid)) 0 then ''Daemon: running (PID '' @ show_nat (unat pid) @ '')''
       else ''Daemon: not running (stale PID file)''] \<and>
    daemon_stop w1 = (Ok (), w2) \<and> signals w2 = signals w @ [(int (unat pid), 15)] \<and> files w2 = files w"
proof -
  let ?w1 = "w\<lparr>files := (files w)(pid_path w \<mapsto> show_nat (unat pid)),
    os_out := os_out w @ [''Daemon started (PID '' @ show_nat (unat pid) @ '').'']\<rparr>"
  have start: "daemon_start w = (Ok (), ?w1)"
    using assms
    by (simp add: daemon_start_def daemon_check_def file_exists_def andthen_def os_try_def create_dir_all_def
        write_file_def os_println_def)
  have read: "read_to_string (pid_path w) ?w1 = Inr (show_nat (unat pid))"
    using assms(7) by (simp add: read_to_string_def plain_trim(2) [OF show_nat_plain])
  have parse: "parse_i32 (str_trim (show_nat (unat pid))) = Some (int (unat pid))"
    using assms(4) by (simp add: plain_trim(1) [OF show_nat_plain] parse_i32_nat)
  have ex: "file_exists (pid_path w) ?w1" by (simp add: file_exists_def)
  have shown: "show_int (int (unat pid)) = show_nat (unat pid)" by (simp add: show_int_def)
  have path: "pid_path ?w1 = pid_path w" by simp
  obtain w2 where stop: "daemon_stop ?w1 = (Ok (), w2)" "signals w2 = signals ?w1 @ [(int (unat pid), 15)]"
      "files w2 = (files ?w1)(pid_path w := None)"
    using daemon_stop_of [of ?w1, unfolded path, OF ex read parse] assms(8) by auto
  have "files w2 = files w" using assms(1) by (auto simp: stop(3) fun_eq_iff)
  moreover have "kill_ok ?w1 = kill_ok w" "signals ?w1 = signals w" by simp_all
  ultimately show ?thesis
    using start stop(1,2) daemon_status_of [of ?w1, unfolded path, OF ex read parse, unfolded shown]
    by (intro exI [of _ ?w1] exI [of _ w2]) (simp only: simp_thms)
qed

lemma daemon_start_status_stop_witness:
  "\<exists>w1 w2. daemon_start sample_os = (Ok (), w1) \<and> daemon_stop w1 = (Ok (), w2) \<and>
    signals w2 = [(4711, 15)] \<and> files w2 = Map.empty"
  using daemon_start_status_stop [of sample_os "''/bin/leyla''" 4711]
  by (fastforce simp: sample_os_def)

text \<open>
  A PID file with unusable contents is read three ways: \<open>status\<close> takes the PID to be 0,
  and as signal 0 to PID 0 asks about the caller's own process group it reports a running
  daemon; \<open>doctor\<close> finds no daemon; \<open>stop\<close> fails and leaves the file where it is.
\<close>
lemma status_of_garbage:
  assumes "files w (pid_path w) = Some s" "read_error w (pid_path w) = None" "utf8_ok s"
    and "parse_i32 (str_trim s) = None" "kill_ok w 0 0"
  shows "os_out (snd (daemon_status w)) = os_out w @ [''Daemon: running (PID 0)''] \<and>
    fst (daemon_status w) = Ok () \<and> \<not> daemon_alive w \<and>
    daemon_stop w = (Err (CliMsg ''Invalid PID in pid file''), w)"
proof -
  have "read_to_string (pid_path w) w = Inr s" using assms by (simp add: read_to_string_def)
  moreover have "show_int 0 = ''0''" by (simp add: show_int_def show_nat.simps char_of_eq_iff)
  ultimately show ?thesis
    using assms
    by (simp add: daemon_status_def daemon_stop_def daemon_alive_def running_pid_def file_exists_def andthen_def os_try_def
        os_kill_def os_println_def split: option.split)
qed

lemma status_of_garbage_witness:
  "let w = sample_os\<lparr>files := [''/home/u/.leyla/leyla.pid'' \<mapsto> ''pid'']\<rparr> in
    os_out (snd (daemon_status w)) = [''Daemon: running (PID 0)''] \<and> \<not> daemon_alive w"
proof -
  let ?w = "sample_os\<lparr>files := [''/home/u/.leyla/leyla.pid'' \<mapsto> ''pid'']\<rparr>"
  have path: "pid_path ?w = ''/home/u/.leyla/leyla.pid''" by (simp add: pid_path_def join_path_def sample_os_def)
  have plain: "list_all plain_char ''pid''" by (simp add: plain_char_def)
  have "parse_i32 (str_trim ''pid'') = None"
    by (simp add: plain_trim(1) [OF plain] parse_i32_def digit_val_def)
  moreover have "files ?w (pid_path ?w) = Some ''pid''" unfolding path by simp
  ultimately show ?thesis
    using status_of_garbage [of ?w "''pid''"] plain_trim(2) [OF plain] by (simp add: sample_os_def)
qed

lemma daemon_loop_returns: "daemon_loop n = Some y \<Longrightarrow> False"
  by (rule daemon_loop.raw_induct [where P = "\<lambda>_ _. False"])

lemma daemon_loop_None: "daemon_loop n = None"
  using daemon_loop_returns by (cases "daemon_loop n") auto

text \<open>
  \<open>daemon start\<close>, \<open>stop\<close> and \<open>status\<close> return, whatever the system answers; the daemon itself
  never does: its loop sleeps and does nothing else, it neither opens the database nor runs
  the engine.
\<close>
lemma daemon_run_never_returns: "handle_daemon action w = None \<longleftrightarrow> action = DaemonRun"
  by (cases action) (simp_all add: handle_daemon_def daemon_loop_None)

end
