(* ===== verification/Sqlite_Store.thy ===== *)
theory Sqlite_Store
  imports Leyla_Store
begin

section \<open>The SQLite store (leyla-core/src/store/sqlite.rs)\<close>

text \<open>
  The tables as lists of rows with the columns of the schema, timestamps and JSON as text. The
  SQL statements of the source are functions on the tables; the engine that runs them is not
  under src/, and what the program relies on of it is stated here:
  \<^item> a statement can fail (\<open>sql_fault\<close>); one that changes rows then changes none. \<open>flt i\<close> is the
    fault of the \<open>i\<close>-th statement of an operation, any function.
  \<^item> rows come in the order the query plan gives (\<open>plan_*\<close>), any order: \<open>ORDER BY\<close> sorts that.
  \<^item> outside a transaction a statement is committed at once; \<open>BEGIN\<close> inside a transaction and
    \<open>COMMIT\<close> outside one are errors; text compares bytewise.
\<close>

subsection \<open>Rows and tables\<close>

record db_job =
  jr_id :: string
  jr_name :: string
  jr_enabled :: int
  jr_definition_json :: string
  jr_next_run_at :: "string option"
  jr_last_run_at :: "string option"
  jr_last_success_at :: "string option"
  jr_last_failure_at :: "string option"
  jr_created_at :: string
  jr_updated_at :: string
  jr_version :: int

record db_run =
  q_run_id :: string
  q_job_id :: string
  q_scheduled_for :: string
  q_status :: string
  q_attempt :: u32
  q_max_attempts :: u32
  q_lease_owner :: "string option"
  q_lease_expires_at :: "string option"
  q_dispatched_at :: "string option"
  q_started_at :: "string option"
  q_heartbeat_at :: "string option"
  q_finished_at :: "string option"
  q_input_json :: "string option"
  q_output_json :: "string option"
  q_error_json :: "string option"
  q_created_at :: string
  q_updated_at :: string

record db_dead =
  z_id :: string
  z_run_id :: string
  z_job_id :: string
  z_input_json :: "string option"
  z_error_json :: "string option"
  z_attempts :: u32
  z_created_at :: string

text \<open>A table that was not created yet is \<open>None\<close>.\<close>

record sql_tables =
  t_jobs :: "db_job list option"
  t_runs :: "db_run list option"
  t_dead :: "db_dead list option"

record connection =
  work :: sql_tables
  committed :: sql_tables
  in_txn :: bool
  plan_jobs :: "db_job list \<Rightarrow> db_job list"
  plan_runs :: "db_run list \<Rightarrow> db_run list"
  plan_dead :: "db_dead list \<Rightarrow> db_dead list"

type_synonym sqlite_store = "connection mutex"

subsection \<open>Statements\<close>

text \<open>
  A statement that fails is refused (it does not compile, the table is locked), is interrupted
  after some rows of a query, or fails in a way that makes the engine roll the transaction back
  (after some rows, too, if it is a query).
\<close>

datatype sql_fault = Refused string | Interrupted nat string | Rolled_Back nat string

type_synonym faults = "nat \<Rightarrow> sql_fault option"

definition no_fault :: faults where
  "no_fault = (\<lambda>_. None)"

text \<open>
  A program on a connection and the number of the next statement; errors are the texts of
  rusqlite's errors.
\<close>

type_synonym 'a sql = "(connection \<times> nat, string, 'a) prog"

definition roll_back :: "connection \<Rightarrow> connection" where
  "roll_back c = c\<lparr>work := committed c, in_txn := False\<rparr>"

definition failed :: "sql_fault \<Rightarrow> connection \<Rightarrow> string \<times> connection" where
  "failed e c = (case e of
     Refused msg \<Rightarrow> (msg, c)
   | Interrupted _ msg \<Rightarrow> (msg, c)
   | Rolled_Back _ msg \<Rightarrow> (msg, roll_back c))"

definition sql_exec :: "faults \<Rightarrow> (sql_tables \<Rightarrow> string + sql_tables) \<Rightarrow> unit sql" where
  "sql_exec flt f = (\<lambda>(c, i).
    case flt i of
      Some e \<Rightarrow> (case failed e c of (msg, c') \<Rightarrow> (Err msg, (c', Suc i)))
    | None \<Rightarrow> (case f (work c) of
        Inl msg \<Rightarrow> (Err msg, (c, Suc i))
      | Inr d \<Rightarrow> (Ok (), (c\<lparr>work := d, committed := if in_txn c then committed c else d\<rparr>, Suc i))))"

text \<open>The rows a query delivers, and the error that ended it, if one did.\<close>

definition sql_query :: "faults \<Rightarrow> (connection \<Rightarrow> string + 'r list) \<Rightarrow> ('r list \<times> string option) sql" where
  "sql_query flt f = (\<lambda>(c, i).
    case f c of
      Inl msg \<Rightarrow> (Err msg, (c, Suc i))
    | Inr rows \<Rightarrow> (case flt i of
        Some (Refused msg) \<Rightarrow> (Err msg, (c, Suc i))
      | Some (Interrupted k msg) \<Rightarrow> (Ok (take k rows, Some msg), (c, Suc i))
      | Some (Rolled_Back k msg) \<Rightarrow> (Ok (take k rows, Some msg), (roll_back c, Suc i))
      | None \<Rightarrow> (Ok (rows, None), (c, Suc i))))"

text \<open>\<open>query_row\<close> asks for one row only, so what fails after it does not happen.\<close>

definition sql_query_row :: "faults \<Rightarrow> (connection \<Rightarrow> string + 'r list) \<Rightarrow> 'r option sql" where
  "sql_query_row flt f = (\<lambda>(c, i).
    case f c of
      Inl msg \<Rightarrow> (Err msg, (c, Suc i))
    | Inr rows \<Rightarrow>
        (if (case flt i of None \<Rightarrow> True | Some (Refused _) \<Rightarrow> False
             | Some (Interrupted k _) \<Rightarrow> 0 < k | Some (Rolled_Back k _) \<Rightarrow> 0 < k)
         then (Ok (case rows of [] \<Rightarrow> None | r # _ \<Rightarrow> Some r), (c, Suc i))
         else case failed (the (flt i)) c of (msg, c') \<Rightarrow> (Err msg, (c', Suc i))))"

definition sql_begin :: "faults \<Rightarrow> unit sql" where
  "sql_begin flt = (\<lambda>(c, i).
    case flt i of
      Some e \<Rightarrow> (case failed e c of (msg, c') \<Rightarrow> (Err msg, (c', Suc i)))
    | None \<Rightarrow> (if in_txn c then (Err ''cannot start a transaction within a transaction'', (c, Suc i))
        else (Ok (), (c\<lparr>in_txn := True\<rparr>, Suc i))))"

definition sql_commit :: "faults \<Rightarrow> unit sql" where
  "sql_commit flt = (\<lambda>(c, i).
    case flt i of
      Some e \<Rightarrow> (case failed e c of (msg, c') \<Rightarrow> (Err msg, (c', Suc i)))
    | None \<Rightarrow> (if in_txn c then (Ok (), (c\<lparr>in_txn := False, committed := work c\<rparr>, Suc i))
        else (Err ''cannot commit - no transaction is active'', (c, Suc i))))"

definition table_of :: "string \<Rightarrow> 'r list option \<Rightarrow> string + 'r list" where
  "table_of name t = (case t of Some rows \<Rightarrow> Inr rows | None \<Rightarrow> Inl (''no such table: '' @ name))"

definition map_inr :: "('a \<Rightarrow> 'b) \<Rightarrow> 'e + 'a \<Rightarrow> 'e + 'b" where
  "map_inr f x = (case x of Inl e \<Rightarrow> Inl e | Inr a \<Rightarrow> Inr (f a))"

text \<open>\<open>UPDATE .. SET .. WHERE\<close> on the runs.\<close>

definition update_runs :: "(db_run \<Rightarrow> bool) \<Rightarrow> (db_run \<Rightarrow> db_run) \<Rightarrow> sql_tables \<Rightarrow> string + sql_tables" where
  "update_runs P f d = map_inr (\<lambda>rows. d\<lparr>t_runs := Some (map (\<lambda>r. if P r then f r else r) rows)\<rparr>)
     (table_of ''job_runs'' (t_runs d))"

definition select_runs :: "(db_run \<Rightarrow> bool) \<Rightarrow> connection \<Rightarrow> string + db_run list" where
  "select_runs P c = map_inr (\<lambda>rows. filter P (plan_runs c rows)) (table_of ''job_runs'' (t_runs (work c)))"

text \<open>\<open>for row in rows\<close> with \<open>?\<close> on the row and on its conversion.\<close>

fun fetch_all :: "('r \<Rightarrow> string + 'a) \<Rightarrow> 'r list \<Rightarrow> string option \<Rightarrow> (string, 'a list) outcome" where
  "fetch_all dec [] None = Ok []"
| "fetch_all dec [] (Some msg) = Err msg"
| "fetch_all dec (r # rs) e = (case dec r of
     Inl msg \<Rightarrow> Err msg
   | Inr a \<Rightarrow> (case fetch_all dec rs e of Ok xs \<Rightarrow> Ok (a # xs) | Err msg \<Rightarrow> Err msg | Panic \<Rightarrow> Panic))"

text \<open>The conversion of the row \<open>query_row(..).optional()\<close> has found.\<close>

definition decode_row :: "('r \<Rightarrow> string + 'a) \<Rightarrow> 'r option \<Rightarrow> (string, 'a option) outcome" where
  "decode_row dec row = (case row of
     None \<Rightarrow> Ok None
   | Some r \<Rightarrow> (case dec r of Inl msg \<Rightarrow> Err msg | Inr a \<Rightarrow> Ok (Some a)))"

abbreviation internal :: "('w, string, 'a) prog \<Rightarrow> ('w, store_error, 'a) prog" where
  "internal m \<equiv> map_err Internal m"

text \<open>An operation holds the lock; its statements are counted from 0.\<close>

definition sqlite_op :: "(connection \<times> nat, store_error, 'a) prog \<Rightarrow> (sqlite_store, store_error, 'a) prog" where
  "sqlite_op m = with_lock (\<lambda>c. case m (c, 0) of (r, (c', _)) \<Rightarrow> (r, c'))"

subsection \<open>Conversions\<close>

definition opt_dt_to_str :: "'j ext \<Rightarrow> time option \<Rightarrow> string option" where
  "opt_dt_to_str E t = map_option (x_dt_str E) t"

definition str_to_dt :: "'j ext \<Rightarrow> string \<Rightarrow> store_error + time" where
  "str_to_dt E s = (case x_dt_parse E s of Inl e \<Rightarrow> Inl (Internal e) | Inr t \<Rightarrow> Inr t)"

definition run_to_row :: "'j ext \<Rightarrow> 'j job_run \<Rightarrow> db_run" where
  "run_to_row E run =
    \<lparr>q_run_id = x_uuid_str E (r_run_id run), q_job_id = r_job_id run,
     q_scheduled_for = x_dt_str E (r_scheduled_for run), q_status = status_to_str (r_status run),
     q_attempt = r_attempt run, q_max_attempts = r_max_attempts run, q_lease_owner = r_lease_owner run,
     q_lease_expires_at = opt_dt_to_str E (r_lease_expires_at run),
     q_dispatched_at = opt_dt_to_str E (r_dispatched_at run),
     q_started_at = opt_dt_to_str E (r_started_at run),
     q_heartbeat_at = opt_dt_to_str E (r_heartbeat_at run),
     q_finished_at = opt_dt_to_str E (r_finished_at run),
     q_input_json = map_option (x_json_str E) (r_input_json run),
     q_output_json = map_option (x_json_str E) (r_output_json run),
     q_error_json = map_option (x_json_str E) (r_error_json run),
     q_created_at = x_dt_str E (r_created_at run), q_updated_at = x_dt_str E (r_updated_at run)\<rparr>"

definition bind_sum :: "'e + 'a \<Rightarrow> ('a \<Rightarrow> 'e + 'b) \<Rightarrow> 'e + 'b" where
  "bind_sum x f = (case x of Inl e \<Rightarrow> Inl e | Inr a \<Rightarrow> f a)"

definition parse_opt :: "(string \<Rightarrow> string + 'a) \<Rightarrow> string option \<Rightarrow> string + 'a option" where
  "parse_opt p s = (case s of None \<Rightarrow> Inr None | Some v \<Rightarrow> map_inr Some (p v))"

definition row_to_run :: "'j ext \<Rightarrow> db_run \<Rightarrow> string + 'j job_run" where
  "row_to_run E row =
    bind_sum (x_uuid_parse E (q_run_id row)) (\<lambda>run_id.
    bind_sum (x_dt_parse E (q_scheduled_for row)) (\<lambda>scheduled_for.
    bind_sum (x_status_parse E ([CHR 0x22] @ q_status row @ [CHR 0x22])) (\<lambda>status.
    bind_sum (parse_opt (x_dt_parse E) (q_lease_expires_at row)) (\<lambda>lease_expires_at.
    bind_sum (parse_opt (x_dt_parse E) (q_dispatched_at row)) (\<lambda>dispatched_at.
    bind_sum (parse_opt (x_dt_parse E) (q_started_at row)) (\<lambda>started_at.
    bind_sum (parse_opt (x_dt_parse E) (q_heartbeat_at row)) (\<lambda>heartbeat_at.
    bind_sum (parse_opt (x_dt_parse E) (q_finished_at row)) (\<lambda>finished_at.
    bind_sum (parse_opt (x_json_parse E) (q_input_json row)) (\<lambda>input_json.
    bind_sum (parse_opt (x_json_parse E) (q_output_json row)) (\<lambda>output_json.
    bind_sum (parse_opt (x_json_parse E) (q_error_json row)) (\<lambda>error_json.
    bind_sum (x_dt_parse E (q_created_at row)) (\<lambda>created_at.
    bind_sum (x_dt_parse E (q_updated_at row)) (\<lambda>updated_at.
    Inr \<lparr>r_run_id = run_id, r_job_id = q_job_id row, r_scheduled_for = scheduled_for, r_status = status,
      r_attempt = q_attempt row, r_max_attempts = q_max_attempts row, r_lease_owner = q_lease_owner row,
      r_lease_expires_at = lease_expires_at, r_dispatched_at = dispatched_at, r_started_at = started_at,
      r_heartbeat_at = heartbeat_at, r_finished_at = finished_at, r_input_json = input_json,
      r_output_json = output_json, r_error_json = error_json, r_created_at = created_at,
      r_updated_at = updated_at\<rparr>)))))))))))))"

definition row_to_dead :: "'j ext \<Rightarrow> db_dead \<Rightarrow> string + 'j dead_letter" where
  "row_to_dead E row =
    bind_sum (x_uuid_parse E (z_id row)) (\<lambda>did.
    bind_sum (x_uuid_parse E (z_run_id row)) (\<lambda>run_id.
    bind_sum (x_uuid_parse E (z_job_id row)) (\<lambda>job_id.
    bind_sum (parse_opt (x_json_parse E) (z_input_json row)) (\<lambda>input_json.
    bind_sum (parse_opt (x_json_parse E) (z_error_json row)) (\<lambda>error_json.
    bind_sum (x_dt_parse E (z_created_at row)) (\<lambda>created_at.
    Inr \<lparr>d_id = did, d_run_id = run_id, d_job_id = job_id, d_input_json = input_json,
      d_error_json = error_json, d_attempts = z_attempts row, d_created_at = created_at\<rparr>))))))"

subsection \<open>Operations\<close>

text \<open>
  \<open>open\<close> and \<open>open_in_memory\<close>: what opening the file gives (its tables, or an error), then the
  pragmas, which touch no row.
\<close>

definition sqlite_open ::
  "faults \<Rightarrow> string + sql_tables \<Rightarrow> (db_job list \<Rightarrow> db_job list) \<Rightarrow> (db_run list \<Rightarrow> db_run list) \<Rightarrow>
    (db_dead list \<Rightarrow> db_dead list) \<Rightarrow> (store_error, sqlite_store) outcome" where
  "sqlite_open flt file pj pr pd = (case file of
     Inl msg \<Rightarrow> Err (Internal msg)
   | Inr d \<Rightarrow>
       (case internal (sql_exec flt Inr) (\<lparr>work = d, committed = d, in_txn = False, plan_jobs = pj,
            plan_runs = pr, plan_dead = pd\<rparr>, 0) of
          (Ok _, (c, _)) \<Rightarrow> Ok (new_mutex c)
        | (Err e, _) \<Rightarrow> Err e
        | (Panic, _) \<Rightarrow> Panic))"

text \<open>\<open>CREATE TABLE IF NOT EXISTS\<close>; an index changes no row.\<close>

definition create_jobs :: "sql_tables \<Rightarrow> string + sql_tables" where
  "create_jobs d = Inr (case t_jobs d of None \<Rightarrow> d\<lparr>t_jobs := Some []\<rparr> | Some _ \<Rightarrow> d)"

definition create_runs :: "sql_tables \<Rightarrow> string + sql_tables" where
  "create_runs d = Inr (case t_runs d of None \<Rightarrow> d\<lparr>t_runs := Some []\<rparr> | Some _ \<Rightarrow> d)"

definition create_dead :: "sql_tables \<Rightarrow> string + sql_tables" where
  "create_dead d = Inr (case t_dead d of None \<Rightarrow> d\<lparr>t_dead := Some []\<rparr> | Some _ \<Rightarrow> d)"

definition create_index :: "sql_tables \<Rightarrow> string + sql_tables" where
  "create_index d = map_inr (\<lambda>_. d) (table_of ''main.job_runs'' (t_runs d))"

definition sql_migrate :: "faults \<Rightarrow> (sqlite_store, store_error, unit) prog" where
  "sql_migrate flt = sqlite_op (for_each (\<lambda>stmt _. internal (sql_exec flt stmt))
     [create_jobs, create_runs, create_index, create_index, create_index, create_dead] ())"

definition job_to_row :: "'j ext \<Rightarrow> string \<Rightarrow> 'j leyla_job \<Rightarrow> db_job" where
  "job_to_row E definition_json job =
    \<lparr>jr_id = j_id job, jr_name = j_name job, jr_enabled = of_bool (j_enabled job),
     jr_definition_json = definition_json, jr_next_run_at = opt_dt_to_str E (j_next_run_at job),
     jr_last_run_at = opt_dt_to_str E (j_last_run_at job),
     jr_last_success_at = opt_dt_to_str E (j_last_success_at job),
     jr_last_failure_at = opt_dt_to_str E (j_last_failure_at job),
     jr_created_at = x_dt_str E (j_created_at job), jr_updated_at = x_dt_str E (j_updated_at job),
     jr_version = sint (j_version job)\<rparr>"

text \<open>\<open>ON CONFLICT(id) DO UPDATE\<close> sets every column but \<open>created_at\<close>.\<close>

definition upsert_row :: "db_job \<Rightarrow> db_job list \<Rightarrow> db_job list" where
  "upsert_row new rows =
    (if \<exists>r\<in>set rows. jr_id r = jr_id new
     then map (\<lambda>r. if jr_id r = jr_id new then new\<lparr>jr_created_at := jr_created_at r\<rparr> else r) rows
     else rows @ [new])"

definition sql_upsert_job :: "'j ext \<Rightarrow> faults \<Rightarrow> 'j leyla_job \<Rightarrow> (sqlite_store, store_error, unit) prog" where
  "sql_upsert_job E flt job = sqlite_op (case x_job_json E job of
     Inl e \<Rightarrow> fail (Internal e)
   | Inr definition_json \<Rightarrow> internal (sql_exec flt (\<lambda>d.
       map_inr (\<lambda>rows. d\<lparr>t_jobs := Some (upsert_row (job_to_row E definition_json job) rows)\<rparr>)
         (table_of ''jobs'' (t_jobs d)))))"

definition sql_get_job :: "'j ext \<Rightarrow> faults \<Rightarrow> string \<Rightarrow> (sqlite_store, store_error, 'j leyla_job) prog" where
  "sql_get_job E flt job_id = sqlite_op (
    andthen (internal (sql_query_row flt (\<lambda>c. map_inr (\<lambda>rows. filter (\<lambda>r. jr_id r = job_id) (plan_jobs c rows))
      (table_of ''jobs'' (t_jobs (work c)))))) (\<lambda>found.
    case found of
      None \<Rightarrow> fail (NotFound job_id)
    | Some row \<Rightarrow> (case x_job_parse E (jr_definition_json row) of Inl e \<Rightarrow> fail (Internal e) | Inr j \<Rightarrow> ret j)))"

definition sql_list_jobs :: "'j ext \<Rightarrow> faults \<Rightarrow> (sqlite_store, store_error, 'j leyla_job list) prog" where
  "sql_list_jobs E flt = sqlite_op (
    andthen (internal (sql_query flt (\<lambda>c. map_inr (\<lambda>rows. sort_key jr_created_at (plan_jobs c rows))
      (table_of ''jobs'' (t_jobs (work c)))))) (\<lambda>(rows, e).
    internal (lift_outcome (fetch_all (\<lambda>r. x_job_parse E (jr_definition_json r)) rows e))))"

definition sql_remove_job :: "faults \<Rightarrow> string \<Rightarrow> (sqlite_store, store_error, unit) prog" where
  "sql_remove_job flt job_id = sqlite_op (\<lambda>(c, i).
    let n = (case t_jobs (work c) of Some rows \<Rightarrow> length (filter (\<lambda>r. jr_id r = job_id) rows) | None \<Rightarrow> 0)
    in andthen (internal (sql_exec flt (\<lambda>d. map_inr (\<lambda>rows. d\<lparr>t_jobs := Some (filter (\<lambda>r. jr_id r \<noteq> job_id) rows)\<rparr>)
          (table_of ''jobs'' (t_jobs d))))) (\<lambda>_.
       if n = 0 then fail (NotFound job_id) else ret ()) (c, i))"

text \<open>A second row under the same primary key is refused with this message.\<close>

definition unique_error :: string where
  "unique_error = ''UNIQUE constraint failed: job_runs.run_id''"

definition sql_insert_run :: "'j ext \<Rightarrow> faults \<Rightarrow> 'j job_run \<Rightarrow> (sqlite_store, store_error, unit) prog" where
  "sql_insert_run E flt run = sqlite_op (map_err
    (\<lambda>msg. if sublist ''UNIQUE constraint'' msg then Conflict (x_uuid_str E (r_run_id run)) else Internal msg)
    (sql_exec flt (\<lambda>d. case table_of ''job_runs'' (t_runs d) of
       Inl e \<Rightarrow> Inl e
     | Inr rows \<Rightarrow>
         if \<exists>r\<in>set rows. q_run_id r = x_uuid_str E (r_run_id run) then Inl unique_error
         else Inr (d\<lparr>t_runs := Some (rows @ [run_to_row E run])\<rparr>))))"

text \<open>\<open>LIMIT\<close> with a \<open>usize\<close> cast to \<open>i64\<close>: from \<open>2 ^ 63\<close> on it is negative, and limits nothing.\<close>

definition sql_limit :: "nat \<Rightarrow> 'r list \<Rightarrow> 'r list" where
  "sql_limit n rows = (if n < 2 ^ 63 then take n rows else rows)"

definition lease_row :: "string \<Rightarrow> string \<Rightarrow> string \<Rightarrow> db_run \<Rightarrow> db_run" where
  "lease_row owner lease_exp_str now_str r = r\<lparr>q_status := ''leased'', q_lease_owner := Some owner,
     q_lease_expires_at := Some lease_exp_str, q_updated_at := now_str\<rparr>"

definition claim_update :: "string \<Rightarrow> string \<Rightarrow> string \<Rightarrow> string \<Rightarrow> sql_tables \<Rightarrow> string + sql_tables" where
  "claim_update owner lease_exp_str now_str rid =
    update_runs (\<lambda>r. q_run_id r = rid \<and> q_status r = ''scheduled'') (lease_row owner lease_exp_str now_str)"

definition due_row :: "string \<Rightarrow> db_run \<Rightarrow> bool" where
  "due_row now_str r \<longleftrightarrow> q_status r = ''scheduled'' \<and> q_scheduled_for r \<le> now_str"

text \<open>
  Leasing the selected runs, reading them back, and the end of the transaction. The query that reads
  them back has the parameters \<open>?1\<close> to \<open>?n\<close> for \<open>n\<close> runs; the statements before it have two and four,
  and are within every bound (\<open>sql_max_vars\<close>).
\<close>

definition claim_ids ::
  "'j ext \<Rightarrow> faults \<Rightarrow> string \<Rightarrow> string \<Rightarrow> string \<Rightarrow> string list \<Rightarrow> (connection \<times> nat, store_error, 'j job_run list) prog" where
  "claim_ids E flt owner lease_exp_str now_str ids =
    andthen (for_each (\<lambda>rid _. internal (sql_exec flt (claim_update owner lease_exp_str now_str rid))) ids ()) (\<lambda>_.
    andthen (if ids = [] then ret []
       else if sql_max_vars E < length ids then fail (Internal (x_sql_var_error E))
       else andthen (internal (sql_query flt (select_runs (\<lambda>r. q_run_id r \<in> set ids)))) (\<lambda>(rows, e).
         internal (lift_outcome (fetch_all (row_to_run E) rows e)))) (\<lambda>claimed.
    andthen (internal (sql_commit flt)) (\<lambda>_. ret claimed)))"

text \<open>The statements of \<open>claim_due_runs\<close>, under the lock.\<close>

definition claim_stmts ::
  "'j ext \<Rightarrow> faults \<Rightarrow> time \<Rightarrow> string \<Rightarrow> nat \<Rightarrow> (connection \<times> nat, store_error, 'j job_run list) prog" where
  "claim_stmts E flt now owner limit = (
    let now_str = x_dt_str E now in
    andthen (lift_outcome (unwrap (x_dt_add E now (30 * nanos_per_sec)))) (\<lambda>lease_exp.
    let lease_exp_str = x_dt_str E lease_exp in
    andthen (internal (sql_begin flt)) (\<lambda>_.
    andthen (internal (sql_query flt (\<lambda>c. map_inr (sql_limit limit)
      (select_runs (due_row now_str) c)))) (\<lambda>(rows, _).
    claim_ids E flt owner lease_exp_str now_str (map q_run_id rows)))))"

definition sql_claim_due_runs ::
  "'j ext \<Rightarrow> faults \<Rightarrow> time \<Rightarrow> string \<Rightarrow> nat \<Rightarrow> (sqlite_store, store_error, 'j job_run list) prog" where
  "sql_claim_due_runs E flt now owner limit = sqlite_op (claim_stmts E flt now owner limit)"

text \<open>The macro \<open>upd!\<close>, and the ten conditional updates in their order.\<close>

definition upd :: "faults \<Rightarrow> string \<Rightarrow> string \<Rightarrow> (db_run \<Rightarrow> db_run) option \<Rightarrow>
    (connection \<times> nat, store_error, unit) prog" where
  "upd flt now_str run_id f = (case f of
     None \<Rightarrow> ret ()
   | Some f \<Rightarrow> internal (sql_exec flt (update_runs (\<lambda>r. q_run_id r = run_id) (\<lambda>r. (f r)\<lparr>q_updated_at := now_str\<rparr>))))"

definition patch_columns :: "'j ext \<Rightarrow> 'j run_patch \<Rightarrow> (db_run \<Rightarrow> db_run) option list" where
  "patch_columns E p =
    [map_option (\<lambda>v r. r\<lparr>q_status := status_to_str v\<rparr>) (p_status p),
     map_option (\<lambda>v r. r\<lparr>q_lease_owner := Some v\<rparr>) (p_lease_owner p),
     map_option (\<lambda>v r. r\<lparr>q_lease_expires_at := Some (x_dt_str E v)\<rparr>) (p_lease_expires_at p),
     map_option (\<lambda>v r. r\<lparr>q_dispatched_at := Some (x_dt_str E v)\<rparr>) (p_dispatched_at p),
     map_option (\<lambda>v r. r\<lparr>q_started_at := Some (x_dt_str E v)\<rparr>) (p_started_at p),
     map_option (\<lambda>v r. r\<lparr>q_heartbeat_at := Some (x_dt_str E v)\<rparr>) (p_heartbeat_at p),
     map_option (\<lambda>v r. r\<lparr>q_finished_at := Some (x_dt_str E v)\<rparr>) (p_finished_at p),
     map_option (\<lambda>v r. r\<lparr>q_attempt := v\<rparr>) (p_attempt p),
     map_option (\<lambda>v r. r\<lparr>q_output_json := Some (x_json_str E v)\<rparr>) (p_output_json p),
     map_option (\<lambda>v r. r\<lparr>q_error_json := Some (x_json_str E v)\<rparr>) (p_error_json p)]"

text \<open>The statements of \<open>update_run\<close>, under the lock.\<close>

definition update_stmts ::
  "'j ext \<Rightarrow> faults \<Rightarrow> time \<Rightarrow> string \<Rightarrow> 'j run_patch \<Rightarrow> (connection \<times> nat, store_error, unit) prog" where
  "update_stmts E flt utc_now run_id patch = (
    andthen (internal (sql_query_row flt (select_runs (\<lambda>r. q_run_id r = run_id)))) (\<lambda>exists.
    if exists = None then fail (NotFound run_id)
    else
      let now_str = x_dt_str E utc_now in
      andthen (internal (sql_begin flt)) (\<lambda>_.
      andthen (for_each (\<lambda>f _. upd flt now_str run_id f) (patch_columns E patch) ()) (\<lambda>_.
      internal (sql_commit flt)))))"

definition sql_update_run ::
  "'j ext \<Rightarrow> faults \<Rightarrow> time \<Rightarrow> string \<Rightarrow> 'j run_patch \<Rightarrow> (sqlite_store, store_error, unit) prog" where
  "sql_update_run E flt utc_now run_id patch = sqlite_op (update_stmts E flt utc_now run_id patch)"

definition sql_get_run :: "'j ext \<Rightarrow> faults \<Rightarrow> string \<Rightarrow> (sqlite_store, store_error, 'j job_run) prog" where
  "sql_get_run E flt run_id = sqlite_op (
    andthen (internal (sql_query_row flt (select_runs (\<lambda>r. q_run_id r = run_id)))) (\<lambda>row.
    andthen (internal (lift_outcome (decode_row (row_to_run E) row))) (\<lambda>run.
    case run of None \<Rightarrow> fail (NotFound run_id) | Some r \<Rightarrow> ret r)))"

definition listed_row :: "run_filter \<Rightarrow> db_run \<Rightarrow> bool" where
  "listed_row f r \<longleftrightarrow>
    (case f_job_id f of Some jid \<Rightarrow> q_job_id r = jid | None \<Rightarrow> True) \<and>
    (case f_status f of Some st \<Rightarrow> q_status r = status_to_str st | None \<Rightarrow> True)"

text \<open>\<open>ORDER BY created_at DESC\<close>, and \<open>LIMIT\<close> when there is one.\<close>

definition newest_first :: "u32 option \<Rightarrow> db_run list \<Rightarrow> db_run list" where
  "newest_first lim rows = (let sorted = rev (sort_key q_created_at rows)
     in case lim of Some n \<Rightarrow> take (unat n) sorted | None \<Rightarrow> sorted)"

definition sql_list_runs ::
  "'j ext \<Rightarrow> faults \<Rightarrow> run_filter \<Rightarrow> (sqlite_store, store_error, 'j job_run list) prog" where
  "sql_list_runs E flt f = sqlite_op (
    andthen (internal (sql_query flt (\<lambda>c. map_inr (newest_first (f_limit f)) (select_runs (listed_row f) c)))) (\<lambda>(rows, e).
    internal (lift_outcome (fetch_all (row_to_run E) rows e))))"

text \<open>A comparison with \<open>NULL\<close> is not true.\<close>

definition stale_row :: "string \<Rightarrow> string \<Rightarrow> db_run \<Rightarrow> bool" where
  "stale_row now_str cutoff_str r \<longleftrightarrow> q_status r \<in> {''leased'', ''running''} \<and>
    ((case q_lease_expires_at r of Some exp \<Rightarrow> exp < now_str | None \<Rightarrow> False) \<or> q_updated_at r < cutoff_str)"

definition sql_get_stale_runs ::
  "'j ext \<Rightarrow> faults \<Rightarrow> time \<Rightarrow> nat \<Rightarrow> (sqlite_store, store_error, 'j job_run list) prog" where
  "sql_get_stale_runs E flt now stale_threshold = sqlite_op (
    let now_str = x_dt_str E now in
    case x_td_from_std E stale_threshold of
      Inl e \<Rightarrow> fail (Internal e)
    | Inr chrono_thresh \<Rightarrow>
        andthen (lift_outcome (unwrap (x_dt_sub E now chrono_thresh))) (\<lambda>cutoff.
        let cutoff_str = x_dt_str E cutoff in
        andthen (internal (sql_query flt (select_runs (stale_row now_str cutoff_str)))) (\<lambda>(rows, e).
        internal (lift_outcome (fetch_all (row_to_run E) rows e)))))"

definition sql_get_dead_letters :: "'j ext \<Rightarrow> faults \<Rightarrow> (sqlite_store, store_error, 'j dead_letter list) prog" where
  "sql_get_dead_letters E flt = sqlite_op (
    andthen (internal (sql_query flt (\<lambda>c. map_inr (\<lambda>rows. sort_key z_created_at (plan_dead c rows))
      (table_of ''dead_letters'' (t_dead (work c)))))) (\<lambda>(rows, e).
    internal (lift_outcome (fetch_all (row_to_dead E) rows e))))"

definition active_row :: "string \<Rightarrow> db_run \<Rightarrow> bool" where
  "active_row job_id r \<longleftrightarrow> q_job_id r = job_id \<and> q_status r \<in> {''leased'', ''dispatched'', ''running''}"

definition sql_count_active_runs :: "faults \<Rightarrow> string \<Rightarrow> (sqlite_store, store_error, nat) prog" where
  "sql_count_active_runs flt job_id = sqlite_op (
    andthen (internal (sql_query_row flt (\<lambda>c. map_inr (\<lambda>rows. [length rows])
      (select_runs (active_row job_id) c)))) (\<lambda>n.
    case n of Some n \<Rightarrow> ret n | None \<Rightarrow> fail (Internal ''Query returned no rows'')))"

definition sqlite_ops :: "'j ext \<Rightarrow> faults \<Rightarrow> (sqlite_store, 'j) store_ops" where
  "sqlite_ops E flt =
    \<lparr>op_upsert_job = sql_upsert_job E flt, op_get_job = sql_get_job E flt,
     op_list_jobs = sql_list_jobs E flt, op_remove_job = sql_remove_job flt,
     op_insert_run = sql_insert_run E flt, op_claim_due_runs = sql_claim_due_runs E flt,
     op_update_run = sql_update_run E flt, op_get_run = sql_get_run E flt,
     op_list_runs = sql_list_runs E flt, op_get_stale_runs = sql_get_stale_runs E flt,
     op_get_dead_letters = sql_get_dead_letters E flt,
     op_count_active_runs = sql_count_active_runs flt, op_migrate = sql_migrate flt\<rparr>"

end
