(* ===== verification/Sqlite_Laws.thy ===== *)
theory Sqlite_Laws
  imports Sqlite_Store
begin

section \<open>The SQLite store keeps the contract of the interface\<close>

text \<open>
  The representation invariant of the tables, the abstraction to a \<open>store_view\<close>, and the proof
  of every law of \<open>leyla_store\<close> for the operations when no statement fails. The laws hold for
  the timestamps whose text form compares like the times (\<open>okt\<close>; RFC 3339 in UTC does for the
  years 0 to 9999) and for payloads that survive printing and parsing (\<open>okv\<close>).
\<close>

subsection \<open>Representation\<close>

definition sql_codec :: "'j ext \<Rightarrow> (time \<Rightarrow> bool) \<Rightarrow> ('j \<Rightarrow> bool) \<Rightarrow> bool" where
  "sql_codec E okt okv \<longleftrightarrow>
    (\<forall>a b. okt a \<longrightarrow> okt b \<longrightarrow> (x_dt_str E a \<le> x_dt_str E b \<longleftrightarrow> a \<le> b)) \<and>
    (\<forall>a. okt a \<longrightarrow> x_dt_parse E (x_dt_str E a) = Inr a) \<and>
    (\<forall>u. x_uuid_parse E (x_uuid_str E u) = Inr u) \<and>
    (\<forall>v. okv v \<longrightarrow> x_json_parse E (x_json_str E v) = Inr v) \<and>
    (\<forall>j. job_ok okt okv j \<longrightarrow> (\<exists>t. x_job_json E j = Inr t \<and> x_job_parse E t = Inr j)) \<and>
    (\<forall>s. x_status_parse E ([CHR 0x22] @ status_to_str s @ [CHR 0x22]) = Inr s)"

definition run_key :: "'j ext \<Rightarrow> 'j job_run \<Rightarrow> string" where
  "run_key E r = x_uuid_str E (r_run_id r)"

definition jobs_rep :: "'j ext \<Rightarrow> (time \<Rightarrow> bool) \<Rightarrow> ('j \<Rightarrow> bool) \<Rightarrow> db_job list \<Rightarrow> bool" where
  "jobs_rep E okt okv rows \<longleftrightarrow> distinct (map jr_id rows) \<and>
    (\<forall>r\<in>set rows. \<exists>j. job_ok okt okv j \<and> jr_id r = j_id j \<and>
      x_job_json E j = Inr (jr_definition_json r) \<and> x_job_parse E (jr_definition_json r) = Inr j)"

definition runs_rep :: "'j ext \<Rightarrow> (time \<Rightarrow> bool) \<Rightarrow> ('j \<Rightarrow> bool) \<Rightarrow> 'j job_run list \<Rightarrow> bool" where
  "runs_rep E okt okv rs \<longleftrightarrow> distinct (map (run_key E) rs) \<and> (\<forall>r\<in>set rs. run_ok okt okv r)"

definition dead_rep :: "'j ext \<Rightarrow> db_dead list \<Rightarrow> bool" where
  "dead_rep E rows \<longleftrightarrow> (\<forall>r\<in>set rows. \<exists>d. row_to_dead E r = Inr d)"

definition tables_ok :: "'j ext \<Rightarrow> (time \<Rightarrow> bool) \<Rightarrow> ('j \<Rightarrow> bool) \<Rightarrow> sql_tables \<Rightarrow> bool" where
  "tables_ok E okt okv d \<longleftrightarrow>
    (\<exists>rows. t_jobs d = Some rows \<and> jobs_rep E okt okv rows) \<and>
    (\<exists>rs. t_runs d = Some (map (run_to_row E) rs) \<and> runs_rep E okt okv rs) \<and>
    (\<exists>rows. t_dead d = Some rows \<and> dead_rep E rows)"

definition plans_ok :: "connection \<Rightarrow> bool" where
  "plans_ok c \<longleftrightarrow> (\<forall>xs. mset (plan_jobs c xs) = mset xs) \<and> (\<forall>xs. mset (plan_runs c xs) = mset xs) \<and>
    (\<forall>xs. mset (plan_dead c xs) = mset xs)"

definition sql_inv :: "'j ext \<Rightarrow> (time \<Rightarrow> bool) \<Rightarrow> ('j \<Rightarrow> bool) \<Rightarrow> sqlite_store \<Rightarrow> bool" where
  "sql_inv E okt okv m \<longleftrightarrow> sql_codec E okt okv \<and> \<not> poisoned m \<and> \<not> in_txn (guarded m) \<and>
    committed (guarded m) = work (guarded m) \<and> plans_ok (guarded m) \<and> tables_ok E okt okv (work (guarded m))"

definition row_job :: "'j ext \<Rightarrow> db_job \<Rightarrow> string \<times> 'j leyla_job" where
  "row_job E r = (jr_id r, sum.projr (x_job_parse E (jr_definition_json r)))"

definition row_run :: "'j ext \<Rightarrow> db_run \<Rightarrow> string \<times> 'j job_run" where
  "row_run E r = (q_run_id r, sum.projr (row_to_run E r))"

definition tables_view :: "'j ext \<Rightarrow> sql_tables \<Rightarrow> 'j store_view" where
  "tables_view E d =
    \<lparr>v_jobs = map_of (map (row_job E) (case t_jobs d of Some rows \<Rightarrow> rows | None \<Rightarrow> [])),
     v_runs = map_of (map (row_run E) (case t_runs d of Some rows \<Rightarrow> rows | None \<Rightarrow> [])),
     v_dead = map (\<lambda>r. sum.projr (row_to_dead E r)) (case t_dead d of Some rows \<Rightarrow> rows | None \<Rightarrow> [])\<rparr>"

definition sql_view :: "'j ext \<Rightarrow> sqlite_store \<Rightarrow> 'j store_view" where
  "sql_view E m = tables_view E (work (guarded m))"

text \<open>The state after statements that were all committed.\<close>

definition with_tables :: "connection \<Rightarrow> sql_tables \<Rightarrow> connection" where
  "with_tables c d = c\<lparr>work := d, committed := d\<rparr>"

lemma with_tables_simps [simp]:
  "work (with_tables c d) = d" "committed (with_tables c d) = d" "in_txn (with_tables c d) = in_txn c"
  "plan_jobs (with_tables c d) = plan_jobs c" "plan_runs (with_tables c d) = plan_runs c"
  "plan_dead (with_tables c d) = plan_dead c" "plans_ok (with_tables c d) = plans_ok c"
  by (simp_all add: with_tables_def plans_ok_def)

lemma sql_inv_with_tables:
  "sql_inv E okt okv m \<Longrightarrow> tables_ok E okt okv d \<Longrightarrow>
    sql_inv E okt okv (m\<lparr>guarded := with_tables (guarded m) d\<rparr>)"
  by (simp add: sql_inv_def)

lemma sql_view_with_tables [simp]: "sql_view E (m\<lparr>guarded := with_tables c d\<rparr>) = tables_view E d"
  by (simp add: sql_view_def)

subsection \<open>Codecs\<close>

lemma codec_le: "sql_codec E okt okv \<Longrightarrow> okt a \<Longrightarrow> okt b \<Longrightarrow> x_dt_str E a \<le> x_dt_str E b \<longleftrightarrow> a \<le> b"
  and codec_dt: "sql_codec E okt okv \<Longrightarrow> okt a \<Longrightarrow> x_dt_parse E (x_dt_str E a) = Inr a"
  and codec_uuid: "sql_codec E okt okv \<Longrightarrow> x_uuid_parse E (x_uuid_str E u) = Inr u"
  and codec_json: "sql_codec E okt okv \<Longrightarrow> okv v \<Longrightarrow> x_json_parse E (x_json_str E v) = Inr v"
  and codec_status: "sql_codec E okt okv \<Longrightarrow> x_status_parse E (CHR 0x22 # status_to_str s @ [CHR 0x22]) = Inr s"
  by (simp_all add: sql_codec_def)

lemma codec_less: "sql_codec E okt okv \<Longrightarrow> okt a \<Longrightarrow> okt b \<Longrightarrow> x_dt_str E a < x_dt_str E b \<longleftrightarrow> a < b"
  using codec_le [of E okt okv b a] by (simp add: linorder_not_le [symmetric])

lemma codec_job:
  assumes "sql_codec E okt okv" "job_ok okt okv j"
  obtains t where "x_job_json E j = Inr t" "x_job_parse E t = Inr j"
  using assms by (auto simp: sql_codec_def)

lemma parse_opt_simps [simp]: "parse_opt p None = Inr None" "parse_opt p (Some v) = map_inr Some (p v)"
  by (simp_all add: parse_opt_def)

lemma sum_simps [simp]:
  "map_inr f (Inl e) = Inl e" "map_inr f (Inr a) = Inr (f a)"
  "bind_sum (Inl e) g = Inl e" "bind_sum (Inr a) g = g a"
  "table_of name (Some rows) = Inr rows"
  by (simp_all add: map_inr_def bind_sum_def table_of_def)

lemma parse_opt_dt:
  "sql_codec E okt okv \<Longrightarrow> opt_ok okt x \<Longrightarrow> parse_opt (x_dt_parse E) (opt_dt_to_str E x) = Inr x"
  by (cases x) (simp_all add: opt_dt_to_str_def codec_dt)

lemma parse_opt_json:
  "sql_codec E okt okv \<Longrightarrow> opt_ok okv x \<Longrightarrow> parse_opt (x_json_parse E) (map_option (x_json_str E) x) = Inr x"
  by (cases x) (simp_all add: codec_json)

text \<open>A stored run is read back as it was.\<close>

lemma row_to_run_to_row:
  assumes "sql_codec E okt okv" "run_ok okt okv r"
  shows "row_to_run E (run_to_row E r) = Inr r"
  using assms(2)
  by (simp add: row_to_run_def run_to_row_def run_ok_def codec_uuid [OF assms(1)] codec_dt [OF assms(1)]
      codec_status [OF assms(1)] parse_opt_dt [OF assms(1)] parse_opt_json [OF assms(1)])

lemma run_to_row_fields [simp]:
  "q_run_id (run_to_row E r) = run_key E r" "q_job_id (run_to_row E r) = r_job_id r"
  "q_status (run_to_row E r) = status_to_str (r_status r)"
  "q_scheduled_for (run_to_row E r) = x_dt_str E (r_scheduled_for r)"
  "q_updated_at (run_to_row E r) = x_dt_str E (r_updated_at r)"
  "q_created_at (run_to_row E r) = x_dt_str E (r_created_at r)"
  "q_lease_expires_at (run_to_row E r) = opt_dt_to_str E (r_lease_expires_at r)"
  by (simp_all add: run_to_row_def run_key_def)

subsection \<open>Statements that do not fail\<close>

lemma no_fault_simp: "no_fault i = None"
  by (simp add: no_fault_def)

lemma sql_exec_ok:
  "f (work c) = Inr d \<Longrightarrow> \<not> in_txn c \<Longrightarrow> sql_exec no_fault f (c, i) = (Ok (), (with_tables c d, Suc i))"
  by (simp add: sql_exec_def with_tables_def no_fault_simp)

lemma sql_exec_txn:
  "f (work c) = Inr d \<Longrightarrow> in_txn c \<Longrightarrow> sql_exec no_fault f (c, i) = (Ok (), (c\<lparr>work := d\<rparr>, Suc i))"
  by (simp add: sql_exec_def no_fault_simp)

lemma sql_query_ok: "f c = Inr rows \<Longrightarrow> sql_query no_fault f (c, i) = (Ok (rows, None), (c, Suc i))"
  by (simp add: sql_query_def no_fault_simp)

lemma fetch_all_ok: "(\<And>r. r \<in> set rows \<Longrightarrow> dec r = Inr (g r)) \<Longrightarrow> fetch_all dec rows None = Ok (map g rows)"
  by (induction rows) simp_all

lemma fetch_all_enc:
  "(\<And>r. r \<in> set xs \<Longrightarrow> dec (enc r) = Inr r) \<Longrightarrow> fetch_all dec (map enc xs) None = Ok xs"
  by (induction xs) simp_all

lemma internal_Ok: "m w = (Ok x, w') \<Longrightarrow> internal m w = (Ok x, w')"
  by (simp add: map_err_def)

lemma internal_lift [simp]: "internal (lift_outcome r) w =
    (case r of Ok x \<Rightarrow> Ok x | Err e \<Rightarrow> Err (Internal e) | Panic \<Rightarrow> Panic, w)"
  by (simp add: map_err_def split: outcome.split)

lemma sqlite_op_free:
  "\<not> poisoned m \<Longrightarrow> p (guarded m, 0) = (r, (c', i)) \<Longrightarrow> sqlite_op p m = (r, m\<lparr>guarded := c', poisoned := is_Panic r\<rparr>)"
  by (simp add: sqlite_op_def with_lock_def)

lemma sqlite_op_same:
  "\<not> poisoned m \<Longrightarrow> p (guarded m, 0) = (r, (guarded m, i)) \<Longrightarrow> \<not> is_Panic r \<Longrightarrow> sqlite_op p m = (r, m)"
  by (simp add: sqlite_op_free)

lemma sqlite_op_changed:
  "\<not> poisoned m \<Longrightarrow> p (guarded m, 0) = (r, (c, i)) \<Longrightarrow> \<not> is_Panic r \<Longrightarrow> sqlite_op p m = (r, m\<lparr>guarded := c\<rparr>)"
  by (simp add: sqlite_op_free)

subsection \<open>What the invariant says of the three tables\<close>

lemma sql_inv_parts:
  "sql_inv E okt okv m \<Longrightarrow> sql_codec E okt okv"
  "sql_inv E okt okv m \<Longrightarrow> \<not> poisoned m"
  "sql_inv E okt okv m \<Longrightarrow> \<not> in_txn (guarded m)"
  "sql_inv E okt okv m \<Longrightarrow> committed (guarded m) = work (guarded m)"
  "sql_inv E okt okv m \<Longrightarrow> plans_ok (guarded m)"
  "sql_inv E okt okv m \<Longrightarrow> tables_ok E okt okv (work (guarded m))"
  by (simp_all add: sql_inv_def)

definition run_map :: "'j ext \<Rightarrow> 'j job_run list \<Rightarrow> string \<rightharpoonup> 'j job_run" where
  "run_map E rs = map_of (map (\<lambda>r. (run_key E r, r)) rs)"

lemma run_map_iff:
  "runs_rep E okt okv rs \<Longrightarrow> run_map E rs k = Some r \<longleftrightarrow> r \<in> set rs \<and> run_key E r = k"
  by (auto simp: run_map_def runs_rep_def comp_def intro!: map_of_is_SomeI dest!: map_of_SomeD)

lemma run_map_None: "run_map E rs k = None \<longleftrightarrow> k \<notin> run_key E ` set rs"
  by (simp add: run_map_def map_of_eq_None_iff image_image)

lemma dom_run_map: "dom (run_map E rs) = run_key E ` set rs"
  using run_map_None [of E rs] by (auto simp: dom_def)

lemma ran_run_map: "runs_rep E okt okv rs \<Longrightarrow> ran (run_map E rs) = set rs"
  by (auto simp: ran_def run_map_iff)

lemma row_runs:
  assumes "sql_codec E okt okv" "runs_rep E okt okv rs"
  shows "map (row_run E \<circ> run_to_row E) rs = map (\<lambda>r. (run_key E r, r)) rs"
  using assms(2) by (auto simp: row_run_def runs_rep_def row_to_run_to_row [OF assms(1)])

lemma tables_runs:
  assumes "tables_ok E okt okv d" "sql_codec E okt okv"
  obtains rs where "t_runs d = Some (map (run_to_row E) rs)" "runs_rep E okt okv rs"
    "v_runs (tables_view E d) = run_map E rs"
proof -
  obtain rs where rs: "t_runs d = Some (map (run_to_row E) rs)" "runs_rep E okt okv rs"
    using assms(1) by (auto simp: tables_ok_def)
  show ?thesis
    by (rule that [OF rs]) (simp add: tables_view_def run_map_def rs(1) row_runs [OF assms(2) rs(2)])
qed

lemma sql_inv_runs:
  assumes "sql_inv E okt okv m"
  obtains rs where "t_runs (work (guarded m)) = Some (map (run_to_row E) rs)" "runs_rep E okt okv rs"
    "v_runs (sql_view E m) = run_map E rs"
  using tables_runs [OF sql_inv_parts(6) [OF assms] sql_inv_parts(1) [OF assms]] by (auto simp: sql_view_def)

text \<open>Replacing the runs keeps the rest of the view.\<close>

lemma tables_ok_runs:
  "tables_ok E okt okv d \<Longrightarrow> runs_rep E okt okv rs \<Longrightarrow>
    tables_ok E okt okv (d\<lparr>t_runs := Some (map (run_to_row E) rs)\<rparr>)"
  by (auto simp: tables_ok_def)

lemma tables_view_runs:
  assumes "tables_ok E okt okv d" "sql_codec E okt okv" "runs_rep E okt okv rs"
  shows "tables_view E (d\<lparr>t_runs := Some (map (run_to_row E) rs)\<rparr>) = (tables_view E d)\<lparr>v_runs := run_map E rs\<rparr>"
  by (simp add: tables_view_def run_map_def row_runs [OF assms(2,3)])

text \<open>A list with the elements of an image is the image of a list.\<close>

lemma mset_eq_map:
  "mset xs = mset (map f ys) \<Longrightarrow> \<exists>zs. xs = map f zs \<and> mset zs = mset ys"
proof (induction xs arbitrary: ys)
  case Nil
  then show ?case by simp
next
  case (Cons x xs)
  from mset_eq_setD [OF Cons.prems] have "x \<in> set (map f ys)" by auto
  then obtain y where y: "y \<in> set ys" "x = f y" by auto
  then have ys: "mset ys = add_mset y (mset (remove1 y ys))" by simp
  have "mset (map f ys) = add_mset x (mset (map f (remove1 y ys)))"
    unfolding mset_map y(2) by (subst ys) (rule image_mset_add_mset)
  with Cons.prems have "mset xs = mset (map f (remove1 y ys))" by simp
  from Cons.IH [OF this] y(2) obtain zs where "xs = map f zs" "mset zs = mset (remove1 y ys)" by blast
  with y show ?case by (intro exI [of _ "y # zs"]) simp
qed

lemma select_runs_rep:
  assumes "plans_ok c" "t_runs (work c) = Some (map (run_to_row E) rs)"
    and "\<And>r. r \<in> set rs \<Longrightarrow> P (run_to_row E r) = Q r"
  shows "\<exists>sel. select_runs P c = Inr (map (run_to_row E) sel) \<and> mset sel = mset (filter Q rs)"
proof -
  have "mset (plan_runs c (map (run_to_row E) rs)) = mset (map (run_to_row E) rs)"
    using assms(1) by (simp add: plans_ok_def)
  then obtain zs where zs: "plan_runs c (map (run_to_row E) rs) = map (run_to_row E) zs" "mset zs = mset rs"
    using mset_eq_map by blast
  have "set zs = set rs" using zs(2) by (rule mset_eq_setD)
  then have "filter (P \<circ> run_to_row E) zs = filter Q zs"
    using assms(3) by (intro filter_cong) auto
  then have "select_runs P c = Inr (map (run_to_row E) (filter Q zs))"
    by (simp add: select_runs_def assms(2) zs(1) filter_map)
  moreover have "mset (filter Q zs) = mset (filter Q rs)"
    using zs(2) by simp
  ultimately show ?thesis by blast
qed

text \<open>Distinctness and contents of a selection.\<close>

lemma selection_runs:
  assumes "runs_rep E okt okv rs" "mset sel = mset (filter Q rs)"
  shows "set sel = {r \<in> set rs. Q r}" "distinct (map (run_key E) sel)" "distinct (map r_run_id sel)"
    "runs_rep E okt okv sel"
proof -
  show s: "set sel = {r \<in> set rs. Q r}" using mset_eq_setD [OF assms(2)] by simp
  have "mset (map (run_key E) sel) = mset (map (run_key E) (filter Q rs))" using assms(2) by simp
  then show d: "distinct (map (run_key E) sel)"
    using assms(1) by (metis distinct_map_filter mset_eq_imp_distinct_iff runs_rep_def)
  then have "distinct (map (x_uuid_str E) (map r_run_id sel))" by (simp add: run_key_def [abs_def] comp_def)
  then show "distinct (map r_run_id sel)" by (simp only: distinct_map)
  show "runs_rep E okt okv sel" using d s assms(1) by (simp add: runs_rep_def)
qed

lemma fetch_runs:
  "sql_codec E okt okv \<Longrightarrow> runs_rep E okt okv sel \<Longrightarrow>
    fetch_all (row_to_run E) (map (run_to_row E) sel) None = Ok sel"
  by (rule fetch_all_enc) (auto simp: runs_rep_def row_to_run_to_row)

subsection \<open>Operations that only read\<close>

text \<open>A program of statements that read leaves the connection as it is.\<close>

lemma query_step:
  "andthen (internal (sql_query no_fault q)) f (c, i) =
    (case q c of Inr rows \<Rightarrow> f (rows, None) (c, Suc i) | Inl e \<Rightarrow> (Err (Internal e), (c, Suc i)))"
  by (simp add: no_fault_simp andthen_def map_err_def sql_query_def split: sum.split)

lemma query_row_step:
  "andthen (internal (sql_query_row no_fault q)) f (c, i) =
    (case q c of Inr rows \<Rightarrow> f (case rows of [] \<Rightarrow> None | r # _ \<Rightarrow> Some r) (c, Suc i)
     | Inl e \<Rightarrow> (Err (Internal e), (c, Suc i)))"
  by (simp add: no_fault_simp andthen_def map_err_def sql_query_row_def split: sum.split)

lemma fetch_step:
  "andthen (internal (lift_outcome r)) f w =
    (case r of Ok x \<Rightarrow> f x w | Err e \<Rightarrow> (Err (Internal e), w) | Panic \<Rightarrow> (Panic, w))"
  by (simp add: andthen_def split: outcome.split)

lemma find_run:
  assumes "runs_rep E okt okv rs" "mset sel = mset (filter (\<lambda>r. run_key E r = k) rs)"
  shows "sel = (case run_map E rs k of Some r \<Rightarrow> [r] | None \<Rightarrow> [])"
proof (cases "run_map E rs k")
  case None
  then have "filter (\<lambda>r. run_key E r = k) rs = []" by (auto simp: run_map_None filter_empty_conv)
  with assms(2) None show ?thesis by simp
next
  case (Some r)
  then have r: "r \<in> set rs" "run_key E r = k" by (simp_all add: run_map_iff [OF assms(1)])
  have "set sel = {r}"
    using r selection_runs(1) [OF assms] assms(1) by (auto simp: runs_rep_def distinct_map dest: inj_onD)
  moreover have "distinct sel" using selection_runs(2) [OF assms] by (simp add: distinct_map)
  ultimately have "sel = [r]" by (cases sel; cases "tl sel") auto
  with Some show ?thesis by simp
qed

lemma sql_get_run_law:
  assumes inv: "sql_inv E okt okv s"
  shows "sql_get_run E no_fault k s =
    (case v_runs (sql_view E s) k of Some r \<Rightarrow> Ok r | None \<Rightarrow> Err (NotFound k), s)"
proof -
  obtain rs where rs: "t_runs (work (guarded s)) = Some (map (run_to_row E) rs)" "runs_rep E okt okv rs"
      "v_runs (sql_view E s) = run_map E rs"
    using sql_inv_runs [OF inv] .
  obtain sel where sel: "select_runs (\<lambda>r. q_run_id r = k) (guarded s) = Inr (map (run_to_row E) sel)"
      "mset sel = mset (filter (\<lambda>r. run_key E r = k) rs)"
    using select_runs_rep [OF sql_inv_parts(5) [OF inv] rs(1), of "\<lambda>r. q_run_id r = k" "\<lambda>r. run_key E r = k"]
    by auto
  have rd: "row_to_run E (run_to_row E r) = Inr r" if "run_map E rs k = Some r" for r
    using rs(2) that by (auto simp: run_map_iff [OF rs(2)] runs_rep_def intro!: row_to_run_to_row sql_inv_parts(1) [OF inv])
  show ?thesis
    unfolding sql_get_run_def
    by (rule sqlite_op_same [OF sql_inv_parts(2) [OF inv], of _ _ 1])
      (simp_all add: query_row_step fetch_step sel(1) find_run [OF rs(2) sel(2)] rs(3) decode_row_def rd
        split: option.split)
qed

lemma sql_get_stale_runs_law:
  assumes inv: "sql_inv E okt okv s" and ok: "okt now" "okt cutoff"
    and x: "x_td_from_std E thr = Inr d" "x_dt_sub E now d = Some cutoff"
  shows "\<exists>rs. sql_get_stale_runs E no_fault now thr s = (Ok rs, s) \<and> distinct (map r_run_id rs) \<and>
    set rs = {r \<in> ran (v_runs (sql_view E s)). run_stale now cutoff r}"
proof -
  obtain rs where rs: "t_runs (work (guarded s)) = Some (map (run_to_row E) rs)" "runs_rep E okt okv rs"
      "v_runs (sql_view E s) = run_map E rs"
    using sql_inv_runs [OF inv] .
  note codec = sql_inv_parts(1) [OF inv]
  let ?P = "stale_row (x_dt_str E now) (x_dt_str E cutoff)"
  have "?P (run_to_row E r) = run_stale now cutoff r" if "r \<in> set rs" for r
  proof -
    have r: "okt (r_updated_at r)" "opt_ok okt (r_lease_expires_at r)"
      using rs(2) that by (auto simp: runs_rep_def run_ok_def)
    show ?thesis
      using r by (cases "r_lease_expires_at r"; cases "r_status r")
        (simp_all add: stale_row_def run_stale_def opt_dt_to_str_def codec_less [OF codec] ok status_to_str_def)
  qed
  then obtain sel where sel: "select_runs ?P (guarded s) = Inr (map (run_to_row E) sel)"
      "mset sel = mset (filter (run_stale now cutoff) rs)"
    using select_runs_rep [OF sql_inv_parts(5) [OF inv] rs(1), of ?P "run_stale now cutoff"] by blast
  note S = selection_runs [OF rs(2) sel(2)]
  have "sql_get_stale_runs E no_fault now thr s = (Ok sel, s)"
    unfolding sql_get_stale_runs_def
    by (rule sqlite_op_same [OF sql_inv_parts(2) [OF inv], of _ _ 1])
      (simp_all add: x Let_def query_step sel(1) fetch_runs [OF codec S(4)])
  moreover have "set sel = {r \<in> ran (v_runs (sql_view E s)). run_stale now cutoff r}"
    by (simp add: S(1) rs(3) ran_run_map [OF rs(2)])
  ultimately show ?thesis using S(3) by blast
qed

lemma sql_count_active_law:
  assumes inv: "sql_inv E okt okv s"
  shows "sql_count_active_runs no_fault jid s =
    (Ok (card {k. \<exists>r. v_runs (sql_view E s) k = Some r \<and> r_job_id r = jid \<and> run_active (r_status r)}), s)"
proof -
  obtain rs where rs: "t_runs (work (guarded s)) = Some (map (run_to_row E) rs)" "runs_rep E okt okv rs"
      "v_runs (sql_view E s) = run_map E rs"
    using sql_inv_runs [OF inv] .
  let ?P = "active_row jid"
  let ?Q = "\<lambda>r. r_job_id r = jid \<and> run_active (r_status r)"
  have "?P (run_to_row E r) = ?Q r" for r :: "'a job_run"
    by (cases "r_status r") (simp_all add: active_row_def run_active_def status_to_str_def)
  then obtain sel where sel: "select_runs ?P (guarded s) = Inr (map (run_to_row E) sel)"
      "mset sel = mset (filter ?Q rs)"
    using select_runs_rep [OF sql_inv_parts(5) [OF inv] rs(1), of ?P ?Q] by blast
  note S = selection_runs [OF rs(2) sel(2)]
  have "{k. \<exists>r. v_runs (sql_view E s) k = Some r \<and> ?Q r} = set (map (run_key E) sel)"
    by (auto simp: rs(3) run_map_iff [OF rs(2)] S(1))
  then have n: "card {k. \<exists>r. v_runs (sql_view E s) k = Some r \<and> ?Q r} = length sel"
    by (simp only: distinct_card [OF S(2)] length_map)
  show ?thesis
    unfolding sql_count_active_runs_def n
    by (rule sqlite_op_same [OF sql_inv_parts(2) [OF inv], of _ _ 1])
      (simp_all add: query_row_step fetch_step sel(1) decode_row_def)
qed

lemma sort_key_map: "sort_key f (map g xs) = map g (sort_key (f \<circ> g) xs)"
proof -
  have "insort_key f (g x) (map g ys) = map g (insort_key (f \<circ> g) x ys)" for x ys
    by (induction ys) simp_all
  then show ?thesis by (induction xs) simp_all
qed

lemma runs_rep_sub:
  "runs_rep E okt okv rs \<Longrightarrow> set zs \<subseteq> set rs \<Longrightarrow> distinct (map (run_key E) zs) \<Longrightarrow> runs_rep E okt okv zs"
  by (auto simp: runs_rep_def)

lemma newest_first_map:
  "newest_first lim (map (run_to_row E) sel) = map (run_to_row E)
    (case lim of Some n \<Rightarrow> take (unat n) (rev (sort_key (\<lambda>r. x_dt_str E (r_created_at r)) sel))
     | None \<Rightarrow> rev (sort_key (\<lambda>r. x_dt_str E (r_created_at r)) sel))"
  by (simp add: newest_first_def sort_key_map comp_def rev_map take_map split: option.split)

lemma sql_list_runs_law:
  assumes inv: "sql_inv E okt okv s"
  shows "\<exists>rs. sql_list_runs E no_fault f s = (Ok (case f_limit f of Some n \<Rightarrow> take (unat n) rs | None \<Rightarrow> rs), s) \<and>
    distinct (map r_run_id rs) \<and> set rs = {r \<in> ran (v_runs (sql_view E s)). filter_matches f r} \<and>
    sorted_wrt (\<lambda>a b. r_created_at b \<le> r_created_at a) rs"
proof -
  obtain rs where rs: "t_runs (work (guarded s)) = Some (map (run_to_row E) rs)" "runs_rep E okt okv rs"
      "v_runs (sql_view E s) = run_map E rs"
    using sql_inv_runs [OF inv] .
  note codec = sql_inv_parts(1) [OF inv]
  have "listed_row f (run_to_row E r) = filter_matches f r" for r :: "'a job_run"
    by (simp add: listed_row_def filter_matches_def status_to_str_inj split: option.split)
  then obtain sel where sel: "select_runs (listed_row f) (guarded s) = Inr (map (run_to_row E) sel)"
      "mset sel = mset (filter (filter_matches f) rs)"
    using select_runs_rep [OF sql_inv_parts(5) [OF inv] rs(1), of "listed_row f" "filter_matches f"] by blast
  note S = selection_runs [OF rs(2) sel(2)]
  let ?key = "\<lambda>r. x_dt_str E (r_created_at r)"
  define zs where "zs = rev (sort_key ?key sel)"
  have set_zs: "set zs = set sel" by (simp add: zs_def)
  have ids: "distinct (map r_run_id zs)" "distinct (map (run_key E) zs)"
    unfolding zs_def using S(2,3) by (simp_all add: rev_map [symmetric] distinct_map_sort_key)
  have out: "runs_rep E okt okv (case f_limit f of Some n \<Rightarrow> take (unat n) zs | None \<Rightarrow> zs)"
  proof (rule runs_rep_sub [OF S(4)])
    show "set (case f_limit f of Some n \<Rightarrow> take (unat n) zs | None \<Rightarrow> zs) \<subseteq> set sel"
      using set_zs by (auto split: option.splits dest: in_set_takeD)
    show "distinct (map (run_key E) (case f_limit f of Some n \<Rightarrow> take (unat n) zs | None \<Rightarrow> zs))"
      using ids(2) by (auto simp: take_map [symmetric] split: option.splits)
  qed
  have "sorted_wrt (\<lambda>a b. ?key b \<le> ?key a) zs"
    using sorted_sort_key [of ?key sel] by (simp add: zs_def sorted_map sorted_wrt_rev)
  then have "sorted_wrt (\<lambda>a b. r_created_at b \<le> r_created_at a) zs"
  proof (rule sorted_wrt_mono_rel [rotated])
    fix a b assume "a \<in> set zs" "b \<in> set zs" "?key b \<le> ?key a"
    moreover from this have "okt (r_created_at a)" "okt (r_created_at b)"
      using S(4) set_zs by (auto simp: runs_rep_def run_ok_def)
    ultimately show "r_created_at b \<le> r_created_at a" by (simp add: codec_le [OF codec])
  qed
  moreover have newest: "newest_first (f_limit f) (map (run_to_row E) sel) =
      map (run_to_row E) (case f_limit f of Some n \<Rightarrow> take (unat n) zs | None \<Rightarrow> zs)"
    unfolding zs_def by (rule newest_first_map)
  moreover have "sql_list_runs E no_fault f s = (Ok (case f_limit f of Some n \<Rightarrow> take (unat n) zs | None \<Rightarrow> zs), s)"
    unfolding sql_list_runs_def
    by (rule sqlite_op_same [OF sql_inv_parts(2) [OF inv], of _ _ 1])
      (simp_all add: query_step sel(1) newest fetch_runs [OF codec out])
  moreover have "set zs = {r \<in> ran (v_runs (sql_view E s)). filter_matches f r}"
    by (simp add: set_zs S(1) rs(3) ran_run_map [OF rs(2)])
  ultimately show ?thesis using ids(1) by blast
qed

subsection \<open>Operations that change the runs\<close>

lemma exec_step:
  "andthen (internal (sql_exec no_fault q)) f (c, i) =
    (case q (work c) of
       Inr d \<Rightarrow> f () (c\<lparr>work := d, committed := if in_txn c then committed c else d\<rparr>, Suc i)
     | Inl e \<Rightarrow> (Err (Internal e), (c, Suc i)))"
  by (simp add: no_fault_simp andthen_def map_err_def sql_exec_def split: sum.split)

lemma begin_step:
  "\<not> in_txn c \<Longrightarrow> andthen (internal (sql_begin no_fault)) f (c, i) = f () (c\<lparr>in_txn := True\<rparr>, Suc i)"
  by (simp add: no_fault_simp andthen_def map_err_def sql_begin_def)

lemma commit_eq:
  "in_txn c \<Longrightarrow> internal (sql_commit no_fault) (c, i) =
    (Ok (), (c\<lparr>in_txn := False, committed := work c\<rparr>, Suc i))"
  by (simp add: no_fault_simp map_err_def sql_commit_def)

lemma commit_step:
  "in_txn c \<Longrightarrow> andthen (internal (sql_commit no_fault)) f (c, i) =
    f () (c\<lparr>in_txn := False, committed := work c\<rparr>, Suc i)"
  by (simp add: andthen_def commit_eq)

text \<open>A transaction that went through leaves the connection with its tables.\<close>

lemma transaction_end:
  "\<not> in_txn c \<Longrightarrow> c\<lparr>in_txn := False, work := d, committed := d\<rparr> = with_tables c d"
  by (simp add: with_tables_def)

definition with_runs :: "'j ext \<Rightarrow> sql_tables \<Rightarrow> 'j job_run list \<Rightarrow> sql_tables" where
  "with_runs E d rs = d\<lparr>t_runs := Some (map (run_to_row E) rs)\<rparr>"

lemma with_runs_simps [simp]:
  "t_runs (with_runs E d rs) = Some (map (run_to_row E) rs)" "t_jobs (with_runs E d rs) = t_jobs d"
  "t_dead (with_runs E d rs) = t_dead d" "with_runs E (with_runs E d rs) rs' = with_runs E d rs'"
  by (simp_all add: with_runs_def)

lemma with_runs_same: "t_runs d = Some (map (run_to_row E) rs) \<Longrightarrow> with_runs E d rs = d"
  by (simp add: with_runs_def)

lemma with_runs_inv:
  assumes "sql_inv E okt okv s" "runs_rep E okt okv rs"
  defines "s' \<equiv> s\<lparr>guarded := with_tables (guarded s) (with_runs E (work (guarded s)) rs)\<rparr>"
  shows "sql_inv E okt okv s'" "sql_view E s' = (sql_view E s)\<lparr>v_runs := run_map E rs\<rparr>"
  unfolding s'_def with_runs_def
  using assms(2) sql_inv_parts [OF assms(1)]
  by (simp_all add: sql_inv_with_tables [OF assms(1)] tables_ok_runs tables_view_runs sql_view_def)

lemma update_runs_rep:
  assumes "t_runs d = Some (map (run_to_row E) rs)"
    and "\<And>r. r \<in> set rs \<Longrightarrow> P (run_to_row E r) = Q r"
    and "\<And>r. r \<in> set rs \<Longrightarrow> Q r \<Longrightarrow> f (run_to_row E r) = run_to_row E (g r)"
  shows "update_runs P f d = Inr (with_runs E d (map (\<lambda>r. if Q r then g r else r) rs))"
  using assms by (auto simp: update_runs_def with_runs_def)

lemma sql_insert_run_Some:
  assumes inv: "sql_inv E okt okv s" and r': "v_runs (sql_view E s) (run_key E r) = Some r'"
  shows "sql_insert_run E no_fault r s = (Err (Conflict (run_key E r)), s)"
proof -
  obtain rs where rs: "t_runs (work (guarded s)) = Some (map (run_to_row E) rs)" "runs_rep E okt okv rs"
      "v_runs (sql_view E s) = run_map E rs"
    using sql_inv_runs [OF inv] .
  have ex: "\<exists>x\<in>set rs. run_key E x = run_key E r"
    using r' by (auto simp: rs(3) run_map_iff [OF rs(2)])
  have u: "sublist ''UNIQUE constraint'' unique_error"
    unfolding sublist_def unique_error_def
    by (rule exI [of _ "[]"], rule exI [of _ "'' failed: job_runs.run_id''"]) simp
  show ?thesis
    unfolding sql_insert_run_def
    by (rule sqlite_op_same [OF sql_inv_parts(2) [OF inv], of _ _ 1])
      (simp_all add: no_fault_simp map_err_def sql_exec_def rs(1) ex u flip: run_key_def)
qed

lemma sql_insert_run_None:
  assumes inv: "sql_inv E okt okv s" and ok: "run_ok okt okv r"
    and new: "v_runs (sql_view E s) (run_key E r) = None"
  shows "\<exists>s'. sql_insert_run E no_fault r s = (Ok (), s') \<and> sql_inv E okt okv s' \<and>
    sql_view E s' = (sql_view E s)\<lparr>v_runs := (v_runs (sql_view E s))(run_key E r \<mapsto> r)\<rparr>"
proof -
  obtain rs where rs: "t_runs (work (guarded s)) = Some (map (run_to_row E) rs)" "runs_rep E okt okv rs"
      "v_runs (sql_view E s) = run_map E rs"
    using sql_inv_runs [OF inv] .
  have fresh: "run_key E r \<notin> run_key E ` set rs" using new by (simp add: rs(3) run_map_None)
  then have other: "\<not> (\<exists>x\<in>set rs. run_key E x = run_key E r)" by (metis imageI)
  have rep: "runs_rep E okt okv (rs @ [r])"
    using rs(2) ok fresh by (auto simp: runs_rep_def)
  have map: "run_map E (rs @ [r]) = (run_map E rs)(run_key E r \<mapsto> r)"
  proof
    fix k show "run_map E (rs @ [r]) k = ((run_map E rs)(run_key E r \<mapsto> r)) k"
      using fresh run_map_None [of E rs "run_key E r"]
      by (auto simp: run_map_def map_add_def split: option.split)
  qed
  have "sql_insert_run E no_fault r s =
      (Ok (), s\<lparr>guarded := with_tables (guarded s) (with_runs E (work (guarded s)) (rs @ [r]))\<rparr>)"
    unfolding sql_insert_run_def
    by (rule sqlite_op_changed [OF sql_inv_parts(2) [OF inv], of _ _ _ 1])
      (simp_all add: no_fault_simp map_err_def sql_exec_def rs(1) sql_inv_parts(3) [OF inv] with_tables_def with_runs_def
        other flip: run_key_def)
  then show ?thesis using with_runs_inv [OF inv rep] by (simp add: map rs(3))
qed

text \<open>Runs that are changed in place keep their keys.\<close>

lemma runs_rep_map:
  assumes "runs_rep E okt okv rs"
    and "\<forall>r\<in>set rs. run_key E (f r) = run_key E r \<and> run_ok okt okv (f r)"
  shows "runs_rep E okt okv (map f rs)" "run_map E (map f rs) k = map_option f (run_map E rs k)"
proof -
  have keys: "map (run_key E) (map f rs) = map (run_key E) rs" using assms(2) by simp
  then show "runs_rep E okt okv (map f rs)"
    using assms unfolding runs_rep_def by (simp only: keys) auto
  have "map (\<lambda>r. (run_key E r, r)) (map f rs) = map (\<lambda>r. (run_key E r, f r)) rs"
    using assms(2) by simp
  then have "run_map E (map f rs) = map_of (map (\<lambda>r. (run_key E r, f r)) rs)"
    unfolding run_map_def by (simp only:)
  moreover have "map_of (map (\<lambda>r. (run_key E r, f r)) rs) k = map_option f (run_map E rs k)"
    by (induction rs) (simp_all add: run_map_def)
  ultimately show "run_map E (map f rs) k = map_option f (run_map E rs k)" by simp
qed

definition col_step :: "('j job_run \<Rightarrow> 'j job_run) option \<Rightarrow> 'j job_run \<Rightarrow> 'j job_run" where
  "col_step g r = (case g of None \<Rightarrow> r | Some g \<Rightarrow> g r)"

lemma col_step_simps [simp]: "col_step None r = r" "col_step (Some g) r = g r"
  by (simp_all add: col_step_def)

lemma upd_simps [simp]:
  "upd flt now_str k None = ret ()"
  "upd flt now_str k (Some f) =
    internal (sql_exec flt (update_runs (\<lambda>r. q_run_id r = k) (\<lambda>r. (f r)\<lparr>q_updated_at := now_str\<rparr>)))"
  by (simp_all add: upd_def)

lemma ret_step: "andthen (ret x) f w = f x w"
  by (simp add: andthen_def)

text \<open>A column update of a row stands for a field update of a run.\<close>

definition col_rel :: "'j ext \<Rightarrow> time \<Rightarrow> (db_run \<Rightarrow> db_run) option \<Rightarrow> ('j job_run \<Rightarrow> 'j job_run) option \<Rightarrow> bool" where
  "col_rel E now f g \<longleftrightarrow> (f = None \<longleftrightarrow> g = None) \<and>
    (\<forall>f' g' r. f = Some f' \<longrightarrow> g = Some g' \<longrightarrow>
      (f' (run_to_row E r))\<lparr>q_updated_at := x_dt_str E now\<rparr> = run_to_row E (g' r) \<and> r_run_id (g' r) = r_run_id r)"

lemma upd_loop:
  "list_all2 (col_rel E now) fs gs \<Longrightarrow> in_txn c \<Longrightarrow> t_runs (work c) = Some (map (run_to_row E) rs) \<Longrightarrow>
    \<exists>i'. for_each (\<lambda>f _. upd no_fault (x_dt_str E now) k f) fs () (c, i) =
      (Ok (), (c\<lparr>work := with_runs E (work c)
        (map (\<lambda>r. if run_key E r = k then fold col_step gs r else r) rs)\<rparr>, i'))"
proof (induction fs gs arbitrary: c i rs rule: list_all2_induct)
  case Nil
  then show ?case by (simp add: with_runs_same)
next
  case (Cons f fs g gs)
  show ?case
  proof (cases f)
    case None
    with Cons.hyps have "g = None" by (simp add: col_rel_def)
    with None Cons.IH [OF Cons.prems] show ?thesis by (simp add: ret_step cong: if_cong)
  next
    case (Some f')
    with Cons.hyps obtain g' where g: "g = Some g'" and rel: "\<And>r.
        (f' (run_to_row E r))\<lparr>q_updated_at := x_dt_str E now\<rparr> = run_to_row E (g' r) \<and> r_run_id (g' r) = r_run_id r"
      by (cases g) (auto simp: col_rel_def)
    let ?rs = "map (\<lambda>r. if run_key E r = k then g' r else r) rs"
    have u: "update_runs (\<lambda>r. q_run_id r = k) (\<lambda>r. (f' r)\<lparr>q_updated_at := x_dt_str E now\<rparr>) (work c) =
        Inr (with_runs E (work c) ?rs)"
      by (rule update_runs_rep [OF Cons.prems(2)]) (simp_all add: rel)
    have "map (\<lambda>r. if run_key E r = k then fold col_step gs r else r) ?rs =
        map (\<lambda>r. if run_key E r = k then fold col_step (g # gs) r else r) rs"
      using rel by (simp add: g run_key_def)
    with Cons.IH [of "c\<lparr>work := with_runs E (work c) ?rs\<rparr>" ?rs "Suc i"] Cons.prems(1) show ?thesis
      by (simp add: Some exec_step u del: fold_simps map_map)
  qed
qed

definition patch_steps :: "time \<Rightarrow> 'j run_patch \<Rightarrow> ('j job_run \<Rightarrow> 'j job_run) option list" where
  "patch_steps now p =
    [map_option (\<lambda>v r. r\<lparr>r_status := v, r_updated_at := now\<rparr>) (p_status p),
     map_option (\<lambda>v r. r\<lparr>r_lease_owner := Some v, r_updated_at := now\<rparr>) (p_lease_owner p),
     map_option (\<lambda>v r. r\<lparr>r_lease_expires_at := Some v, r_updated_at := now\<rparr>) (p_lease_expires_at p),
     map_option (\<lambda>v r. r\<lparr>r_dispatched_at := Some v, r_updated_at := now\<rparr>) (p_dispatched_at p),
     map_option (\<lambda>v r. r\<lparr>r_started_at := Some v, r_updated_at := now\<rparr>) (p_started_at p),
     map_option (\<lambda>v r. r\<lparr>r_heartbeat_at := Some v, r_updated_at := now\<rparr>) (p_heartbeat_at p),
     map_option (\<lambda>v r. r\<lparr>r_finished_at := Some v, r_updated_at := now\<rparr>) (p_finished_at p),
     map_option (\<lambda>v r. r\<lparr>r_attempt := v, r_updated_at := now\<rparr>) (p_attempt p),
     map_option (\<lambda>v r. r\<lparr>r_output_json := Some v, r_updated_at := now\<rparr>) (p_output_json p),
     map_option (\<lambda>v r. r\<lparr>r_error_json := Some v, r_updated_at := now\<rparr>) (p_error_json p)]"

lemma col_rel_map_option:
  "(\<And>v r. (f v (run_to_row E r))\<lparr>q_updated_at := x_dt_str E now\<rparr> = run_to_row E (g v r)) \<Longrightarrow>
    (\<And>v r. r_run_id (g v r) = r_run_id r) \<Longrightarrow> col_rel E now (map_option f x) (map_option g x)"
  by (auto simp: col_rel_def)

lemma patch_columns_steps: "list_all2 (col_rel E now) (patch_columns E p) (patch_steps now p)"
  unfolding patch_columns_def patch_steps_def
  by (intro list.rel_intros col_rel_map_option) (simp_all add: run_to_row_def opt_dt_to_str_def)

lemma col_step_fields:
  "col_step (map_option (\<lambda>v r. r\<lparr>r_status := v, r_updated_at := now\<rparr>) x0) r =
    r\<lparr>r_status := case_option (r_status r) id x0, r_updated_at := if x0 = None then r_updated_at r else now\<rparr>"
  "col_step (map_option (\<lambda>v r. r\<lparr>r_lease_owner := Some v, r_updated_at := now\<rparr>) x1) r =
    r\<lparr>r_lease_owner := case_option (r_lease_owner r) Some x1, r_updated_at := if x1 = None then r_updated_at r else now\<rparr>"
  "col_step (map_option (\<lambda>v r. r\<lparr>r_lease_expires_at := Some v, r_updated_at := now\<rparr>) x2) r =
    r\<lparr>r_lease_expires_at := case_option (r_lease_expires_at r) Some x2, r_updated_at := if x2 = None then r_updated_at r else now\<rparr>"
  "col_step (map_option (\<lambda>v r. r\<lparr>r_dispatched_at := Some v, r_updated_at := now\<rparr>) x3) r =
    r\<lparr>r_dispatched_at := case_option (r_dispatched_at r) Some x3, r_updated_at := if x3 = None then r_updated_at r else now\<rparr>"
  "col_step (map_option (\<lambda>v r. r\<lparr>r_started_at := Some v, r_updated_at := now\<rparr>) x4) r =
    r\<lparr>r_started_at := case_option (r_started_at r) Some x4, r_updated_at := if x4 = None then r_updated_at r else now\<rparr>"
  "col_step (map_option (\<lambda>v r. r\<lparr>r_heartbeat_at := Some v, r_updated_at := now\<rparr>) x5) r =
    r\<lparr>r_heartbeat_at := case_option (r_heartbeat_at r) Some x5, r_updated_at := if x5 = None then r_updated_at r else now\<rparr>"
  "col_step (map_option (\<lambda>v r. r\<lparr>r_finished_at := Some v, r_updated_at := now\<rparr>) x6) r =
    r\<lparr>r_finished_at := case_option (r_finished_at r) Some x6, r_updated_at := if x6 = None then r_updated_at r else now\<rparr>"
  "col_step (map_option (\<lambda>v r. r\<lparr>r_attempt := v, r_updated_at := now\<rparr>) x7) r =
    r\<lparr>r_attempt := case_option (r_attempt r) id x7, r_updated_at := if x7 = None then r_updated_at r else now\<rparr>"
  "col_step (map_option (\<lambda>v r. r\<lparr>r_output_json := Some v, r_updated_at := now\<rparr>) x8) r =
    r\<lparr>r_output_json := case_option (r_output_json r) Some x8, r_updated_at := if x8 = None then r_updated_at r else now\<rparr>"
  "col_step (map_option (\<lambda>v r. r\<lparr>r_error_json := Some v, r_updated_at := now\<rparr>) x9) r =
    r\<lparr>r_error_json := case_option (r_error_json r) Some x9, r_updated_at := if x9 = None then r_updated_at r else now\<rparr>"
  by (simp_all add: col_step_def split: option.split)

text \<open>All the steps together are the patch, if there is one to apply at all.\<close>

lemma patch_steps_apply:
  assumes "p \<noteq> run_patch_default"
  shows "fold col_step (patch_steps now p) r = apply_patch now p r"
proof -
  have "\<not> (p_status p = None \<and> p_lease_owner p = None \<and> p_lease_expires_at p = None \<and> p_dispatched_at p = None \<and>
      p_started_at p = None \<and> p_heartbeat_at p = None \<and> p_finished_at p = None \<and> p_attempt p = None \<and>
      p_output_json p = None \<and> p_error_json p = None)"
    using assms by (cases p) (simp add: run_patch_default_def)
  then have "(if p_error_json p = None then if p_output_json p = None then if p_attempt p = None then
      if p_finished_at p = None then if p_heartbeat_at p = None then if p_started_at p = None then
      if p_dispatched_at p = None then if p_lease_expires_at p = None then if p_lease_owner p = None then
      if p_status p = None then r_updated_at r else now else now else now else now else now else now else now
      else now else now else now) = now"
    by auto
  then show ?thesis
    by (simp add: patch_steps_def col_step_fields apply_patch_def cong: if_cong option.case_cong)
qed

lemma sql_update_run_None:
  assumes inv: "sql_inv E okt okv s" and k: "v_runs (sql_view E s) k = None"
  shows "sql_update_run E no_fault now k p s = (Err (NotFound k), s)"
proof -
  obtain rs where rs: "t_runs (work (guarded s)) = Some (map (run_to_row E) rs)" "runs_rep E okt okv rs"
      "v_runs (sql_view E s) = run_map E rs"
    using sql_inv_runs [OF inv] .
  obtain sel where sel: "select_runs (\<lambda>r. q_run_id r = k) (guarded s) = Inr (map (run_to_row E) sel)"
      "mset sel = mset (filter (\<lambda>r. run_key E r = k) rs)"
    using select_runs_rep [OF sql_inv_parts(5) [OF inv] rs(1), of "\<lambda>r. q_run_id r = k" "\<lambda>r. run_key E r = k"]
    by auto
  have "sel = []" using find_run [OF rs(2) sel(2)] k by (simp add: rs(3))
  then show ?thesis
    unfolding sql_update_run_def update_stmts_def
    by (intro sqlite_op_same [OF sql_inv_parts(2) [OF inv], of _ _ 1])
      (simp_all add: query_row_step fetch_step sel(1) decode_row_def)
qed

lemma sql_update_run_Some:
  assumes inv: "sql_inv E okt okv s" and r: "v_runs (sql_view E s) k = Some r"
    and p: "p \<noteq> run_patch_default" "patch_ok okt okv p" "okt now"
  shows "\<exists>s'. sql_update_run E no_fault now k p s = (Ok (), s') \<and> sql_inv E okt okv s' \<and>
    sql_view E s' = (sql_view E s)\<lparr>v_runs := (v_runs (sql_view E s))(k \<mapsto> apply_patch now p r)\<rparr>"
proof -
  obtain rs where rs: "t_runs (work (guarded s)) = Some (map (run_to_row E) rs)" "runs_rep E okt okv rs"
      "v_runs (sql_view E s) = run_map E rs"
    using sql_inv_runs [OF inv] .
  obtain sel where sel: "select_runs (\<lambda>r. q_run_id r = k) (guarded s) = Inr (map (run_to_row E) sel)"
      "mset sel = mset (filter (\<lambda>r. run_key E r = k) rs)"
    using select_runs_rep [OF sql_inv_parts(5) [OF inv] rs(1), of "\<lambda>r. q_run_id r = k" "\<lambda>r. run_key E r = k"]
    by auto
  have sr: "sel = [r]" using find_run [OF rs(2) sel(2)] r by (simp add: rs(3))
  let ?f = "\<lambda>r. if run_key E r = k then apply_patch now p r else r"
  let ?c = "(guarded s)\<lparr>in_txn := True\<rparr>"
  have steps: "fold col_step (patch_steps now p) = apply_patch now p"
    by (rule ext) (rule patch_steps_apply [OF p(1)])
  obtain i' where loop: "for_each (\<lambda>f _. upd no_fault (x_dt_str E now) k f) (patch_columns E p) () (?c, 2) =
      (Ok (), (?c\<lparr>work := with_runs E (work ?c) (map ?f rs)\<rparr>, i'))"
    using upd_loop [OF patch_columns_steps [of E now p], where c = ?c and rs = rs and k = k and i = 2] rs(1) unfolding steps by auto
  have keep: "run_key E (?f r) = run_key E r \<and> run_ok okt okv (?f r)" if "r \<in> set rs" for r
    using that rs(2) p(2,3) by (auto simp: runs_rep_def run_key_def intro: apply_patch_ok)
  then have "\<forall>r\<in>set rs. run_key E (?f r) = run_key E r \<and> run_ok okt okv (?f r)" by blast
  note M = runs_rep_map [OF rs(2) this]
  have map: "run_map E (map ?f rs) = (run_map E rs)(k \<mapsto> apply_patch now p r)"
  proof
    fix k' show "run_map E (map ?f rs) k' = ((run_map E rs)(k \<mapsto> apply_patch now p r)) k'"
    proof (cases "run_map E rs k'")
      case None
      with r show ?thesis unfolding M(2) by (auto simp: rs(3))
    next
      case (Some a)
      then have "run_key E a = k'" by (simp add: run_map_iff [OF rs(2)])
      with Some r show ?thesis unfolding M(2) by (auto simp: rs(3))
    qed
  qed
  have "sql_update_run E no_fault now k p s =
      (Ok (), s\<lparr>guarded := with_tables (guarded s) (with_runs E (work (guarded s)) (map ?f rs))\<rparr>)"
    unfolding sql_update_run_def update_stmts_def
    by (rule sqlite_op_changed [OF sql_inv_parts(2) [OF inv], of _ _ _ "Suc i'"])
      (simp_all add: query_row_step fetch_step sel(1) sr decode_row_def begin_step sql_inv_parts(3) [OF inv]
        andthen_Ok loop [unfolded numeral_2_eq_2] commit_eq transaction_end)
  then show ?thesis using with_runs_inv [OF inv M(1)] by (simp add: map rs(3))
qed

subsubsection \<open>Claiming\<close>

lemma lease_row_enc:
  "lease_row owner (x_dt_str E exp) (x_dt_str E now) (run_to_row E r) = run_to_row E (lease_run now owner exp r)"
  by (simp add: lease_row_def run_to_row_def lease_run_def opt_dt_to_str_def)

lemma claim_loop:
  "in_txn c \<Longrightarrow> t_runs (work c) = Some (map (run_to_row E) rs) \<Longrightarrow>
    \<exists>i'. for_each (\<lambda>rid _. internal (sql_exec no_fault
        (claim_update owner (x_dt_str E exp) (x_dt_str E now) rid))) ids () (c, i) =
      (Ok (), (c\<lparr>work := with_runs E (work c) (map (\<lambda>r. if run_key E r \<in> set ids \<and> r_status r = Scheduled
        then lease_run now owner exp r else r) rs)\<rparr>, i'))"
proof (induction ids arbitrary: c i rs)
  case Nil
  then show ?case by (simp add: with_runs_same)
next
  case (Cons k ids)
  let ?rs = "map (\<lambda>r. if run_key E r = k \<and> r_status r = Scheduled then lease_run now owner exp r else r) rs"
  have u: "claim_update owner (x_dt_str E exp) (x_dt_str E now) k (work c) = Inr (with_runs E (work c) ?rs)"
    unfolding claim_update_def
    by (rule update_runs_rep [OF Cons.prems(2)])
      (simp_all add: lease_row_enc status_to_str_inj [of _ Scheduled, simplified])
  have "map (\<lambda>r. if run_key E r \<in> set ids \<and> r_status r = Scheduled then lease_run now owner exp r else r) ?rs =
      map (\<lambda>r. if run_key E r \<in> set (k # ids) \<and> r_status r = Scheduled then lease_run now owner exp r else r) rs"
    by (auto simp: run_key_def)
  with Cons.IH [of "c\<lparr>work := with_runs E (work c) ?rs\<rparr>" ?rs "Suc i"] Cons.prems(1) show ?case
    by (simp add: exec_step u del: map_map)
qed

lemma due_row_enc:
  "sql_codec E okt okv \<Longrightarrow> run_ok okt okv r \<Longrightarrow> okt now \<Longrightarrow>
    due_row (x_dt_str E now) (run_to_row E r) = run_due now r"
  using status_to_str_inj [of "r_status r" Scheduled]
  by (simp add: due_row_def run_due_def run_ok_def codec_le)

text \<open>The transaction up to the selection: which runs it works on.\<close>

lemma begin_step_at:
  "flt i = None \<Longrightarrow> \<not> in_txn c \<Longrightarrow> andthen (internal (sql_begin flt)) f (c, i) = f () (c\<lparr>in_txn := True\<rparr>, Suc i)"
  by (simp add: andthen_def map_err_def sql_begin_def)

lemma query_step_at:
  "flt i = None \<Longrightarrow> andthen (internal (sql_query flt q)) f (c, i) =
    (case q c of Inr rows \<Rightarrow> f (rows, None) (c, Suc i) | Inl e \<Rightarrow> (Err (Internal e), (c, Suc i)))"
  by (simp add: andthen_def map_err_def sql_query_def split: sum.split)

lemma claim_prefix:
  assumes inv: "sql_inv E okt okv s" and n: "limit < 2 ^ 63" and ok: "okt now"
    and x: "x_dt_add E now (30 * nanos_per_sec) = Some exp" and flt: "flt 0 = None" "flt 1 = None"
    and rs: "t_runs (work (guarded s)) = Some (map (run_to_row E) rs)" "runs_rep E okt okv rs"
  obtains sel where "mset sel = mset (filter (run_due now) rs)"
    "claim_stmts E flt now owner limit (guarded s, 0) =
      claim_ids E flt owner (x_dt_str E exp) (x_dt_str E now) (map (run_key E) (take limit sel))
        ((guarded s)\<lparr>in_txn := True\<rparr>, 2)"
proof -
  define c where "c = (guarded s)\<lparr>in_txn := True\<rparr>"
  have c: "work c = work (guarded s)" "plans_ok c"
    using sql_inv_parts(5) [OF inv] by (simp_all add: c_def plans_ok_def)
  have "due_row (x_dt_str E now) (run_to_row E r) = run_due now r" if "r \<in> set rs" for r
    using that rs(2) due_row_enc [OF sql_inv_parts(1) [OF inv] _ ok, of r] by (simp add: runs_rep_def)
  then obtain sel where sel: "select_runs (due_row (x_dt_str E now)) c = Inr (map (run_to_row E) sel)"
      "mset sel = mset (filter (run_due now) rs)"
    using select_runs_rep [OF c(2), of E rs "due_row (x_dt_str E now)" "run_due now"] rs(1) c(1) by auto
  have "map q_run_id (sql_limit limit (map (run_to_row E) sel)) = map (run_key E) (take limit sel)"
    using n by (simp add: sql_limit_def take_map)
  then have "claim_stmts E flt now owner limit (guarded s, 0) =
      claim_ids E flt owner (x_dt_str E exp) (x_dt_str E now) (map (run_key E) (take limit sel)) (c, 2)"
    unfolding claim_stmts_def Let_def x unwrap_simps
    by (simp add: begin_step_at query_step_at flt [unfolded One_nat_def] sql_inv_parts(3) [OF inv] sel(1) numeral_2_eq_2 flip: c_def)
  with sel(2) show ?thesis unfolding c_def by (rule that)
qed

text \<open>The runs a claim changes, and the rows it reads back.\<close>

definition leased_runs :: "'j ext \<Rightarrow> time \<Rightarrow> string \<Rightarrow> time \<Rightarrow> string list \<Rightarrow> 'j job_run list \<Rightarrow> 'j job_run list" where
  "leased_runs E now owner exp ids =
    map (\<lambda>r. if run_key E r \<in> set ids \<and> r_status r = Scheduled then lease_run now owner exp r else r)"

definition all_due :: "'j ext \<Rightarrow> time \<Rightarrow> 'j job_run list \<Rightarrow> string list \<Rightarrow> bool" where
  "all_due E now rs ids \<longleftrightarrow> (\<forall>k\<in>set ids. \<exists>r. run_map E rs k = Some r \<and> run_due now r)"

lemma leased_runs_rep:
  assumes "runs_rep E okt okv rs" "okt now" "okt exp" "all_due E now rs ids"
  shows "runs_rep E okt okv (leased_runs E now owner exp ids rs)"
    "run_map E (leased_runs E now owner exp ids rs) k = (if k \<in> set ids
      then map_option (lease_run now owner exp) (run_map E rs k) else run_map E rs k)"
proof -
  let ?f = "\<lambda>r. if run_key E r \<in> set ids \<and> r_status r = Scheduled then lease_run now owner exp r else r"
  have "\<forall>r\<in>set rs. run_key E (?f r) = run_key E r \<and> run_ok okt okv (?f r)"
    using assms by (auto simp: runs_rep_def run_key_def intro: lease_run_ok)
  note M = runs_rep_map [OF assms(1) this]
  show "runs_rep E okt okv (leased_runs E now owner exp ids rs)"
    unfolding leased_runs_def by (rule M(1))
  show "run_map E (leased_runs E now owner exp ids rs) k = (if k \<in> set ids
      then map_option (lease_run now owner exp) (run_map E rs k) else run_map E rs k)"
  proof (cases "run_map E rs k")
    case None
    then show ?thesis unfolding leased_runs_def M(2) by simp
  next
    case (Some r)
    then have "run_key E r = k" by (simp add: run_map_iff [OF assms(1)])
    with Some assms(4) show ?thesis
      unfolding leased_runs_def M(2) by (auto simp: all_due_def run_due_def)
  qed
qed

lemma read_back:
  assumes rs: "runs_rep E okt okv rs" and ok: "okt now" "okt exp" and ids: "distinct ids" "all_due E now rs ids"
    and sel: "mset sel = mset (filter (\<lambda>r. run_key E r \<in> set ids) (leased_runs E now owner exp ids rs))"
  shows "set (map (run_key E) sel) = set ids" "distinct (map (run_key E) sel)" "length sel = length ids"
    "sel = map (\<lambda>k. lease_run now owner exp (the (run_map E rs k))) (map (run_key E) sel)"
    "runs_rep E okt okv sel"
proof -
  note M = leased_runs_rep [OF rs ok ids(2)]
  note S = selection_runs [OF M(1) sel]
  show d: "distinct (map (run_key E) sel)" and "runs_rep E okt okv sel" by (fact S)+
  have mem: "r \<in> set sel \<longleftrightarrow> run_map E (leased_runs E now owner exp ids rs) (run_key E r) = Some r \<and>
      run_key E r \<in> set ids" for r
    by (simp add: S(1) run_map_iff [OF M(1)])
  show set: "set (map (run_key E) sel) = set ids"
  proof
    show "set (map (run_key E) sel) \<subseteq> set ids" using mem by auto
    show "set ids \<subseteq> set (map (run_key E) sel)"
    proof
      fix k assume k: "k \<in> set ids"
      with ids(2) obtain r where r: "run_map E rs k = Some r" by (auto simp: all_due_def)
      then have "run_key E (lease_run now owner exp r) = k"
        by (simp add: run_map_iff [OF rs] run_key_def)
      moreover from this have "lease_run now owner exp r \<in> set sel" unfolding mem M(2) by (simp add: k r)
      ultimately show "k \<in> set (map (run_key E) sel)" by force
    qed
  qed
  show "length sel = length ids"
    using distinct_card [OF d] distinct_card [OF ids(1)] by (simp add: set del: set_map)
  have "lease_run now owner exp (the (run_map E rs (run_key E r))) = r" if "r \<in> set sel" for r
    using that unfolding mem M(2) by (auto split: if_splits)
  then show "sel = map (\<lambda>k. lease_run now owner exp (the (run_map E rs k))) (map (run_key E) sel)"
    unfolding map_map by (intro map_idI [symmetric]) simp
qed

lemma claim_ids_law:
  assumes d: "\<not> in_txn d" "plans_ok d" "t_runs (work d) = Some (map (run_to_row E) rs)"
    and rs: "sql_codec E okt okv" "runs_rep E okt okv rs" and ok: "okt now" "okt exp"
    and ids: "distinct ids" "all_due E now rs ids" "length ids \<le> sql_max_vars E"
  shows "\<exists>sel i. claim_ids E no_fault owner (x_dt_str E exp) (x_dt_str E now) ids (d\<lparr>in_txn := True\<rparr>, 2) =
      (Ok sel, (with_tables d (with_runs E (work d) (leased_runs E now owner exp ids rs)), i)) \<and>
    mset sel = mset (filter (\<lambda>r. run_key E r \<in> set ids) (leased_runs E now owner exp ids rs))"
proof -
  define c where "c = d\<lparr>in_txn := True\<rparr>"
  have c: "in_txn c" "plans_ok c" "t_runs (work c) = Some (map (run_to_row E) rs)"
    using d by (simp_all add: c_def plans_ok_def)
  define c' where "c' = c\<lparr>work := with_runs E (work c) (leased_runs E now owner exp ids rs)\<rparr>"
  obtain i' where loop: "for_each (\<lambda>rid _. internal (sql_exec no_fault
      (claim_update owner (x_dt_str E exp) (x_dt_str E now) rid))) ids () (c, 2) = (Ok (), (c', i'))"
    using claim_loop [OF c(1,3), of owner exp now ids 2] by (auto simp: c'_def leased_runs_def)
  have c': "in_txn c'" "plans_ok c'"
      "t_runs (work c') = Some (map (run_to_row E) (leased_runs E now owner exp ids rs))"
    using c by (simp_all add: c'_def plans_ok_def)
  obtain sel where sel: "select_runs (\<lambda>r. q_run_id r \<in> set ids) c' = Inr (map (run_to_row E) sel)"
      "mset sel = mset (filter (\<lambda>r. run_key E r \<in> set ids) (leased_runs E now owner exp ids rs))"
    using select_runs_rep [OF c'(2,3), of "\<lambda>r. q_run_id r \<in> set ids" "\<lambda>r. run_key E r \<in> set ids"] by auto
  note B = read_back [OF rs(2) ok ids(1,2) sel(2)]
  have fin: "c'\<lparr>in_txn := False, committed := work c'\<rparr> =
      with_tables d (with_runs E (work d) (leased_runs E now owner exp ids rs))"
    using d(1) by (simp add: c'_def c_def with_tables_def)
  have "\<exists>i. claim_ids E no_fault owner (x_dt_str E exp) (x_dt_str E now) ids (c, 2) =
      (Ok sel, (c'\<lparr>in_txn := False, committed := work c'\<rparr>, i))"
  proof (cases "ids = []")
    case True
    with B(3) have "sel = []" by simp
    with loop True show ?thesis by (simp add: claim_ids_def ret_step commit_step c'(1))
  next
    case False
    with ids(3) show ?thesis
      by (simp add: claim_ids_def andthen_Ok loop query_step sel(1) fetch_runs [OF rs(1) B(5)] commit_step c'(1)
          andthen_assoc)
  qed
  with sel(2) show ?thesis unfolding fin c_def by blast
qed

lemma sql_claim_law:
  assumes inv: "sql_inv E okt okv s" and n: "limit \<le> sql_max_vars E" "limit < 2 ^ 63"
    and ok: "okt now" "okt exp" and x: "x_dt_add E now (30 * nanos_per_sec) = Some exp"
  shows "\<exists>ks s'. sql_claim_due_runs E no_fault now owner limit s =
      (Ok (map (\<lambda>k. lease_run now owner exp (the (v_runs (sql_view E s) k))) ks), s') \<and>
    sql_inv E okt okv s' \<and> distinct ks \<and> set ks \<subseteq> due_keys now (sql_view E s) \<and>
    length ks = min limit (card (due_keys now (sql_view E s))) \<and>
    sql_view E s' = lease_keys now owner exp (set ks) (sql_view E s)"
proof -
  obtain rs where rs: "t_runs (work (guarded s)) = Some (map (run_to_row E) rs)" "runs_rep E okt okv rs"
      "v_runs (sql_view E s) = run_map E rs"
    using sql_inv_runs [OF inv] .
  obtain sel where sel: "mset sel = mset (filter (run_due now) rs)"
      "claim_stmts E no_fault now owner limit (guarded s, 0) =
        claim_ids E no_fault owner (x_dt_str E exp) (x_dt_str E now) (map (run_key E) (take limit sel))
          ((guarded s)\<lparr>in_txn := True\<rparr>, 2)"
    by (rule claim_prefix [OF inv n(2) ok(1) x no_fault_simp no_fault_simp rs(1,2)])
  note S = selection_runs [OF rs(2) sel(1)]
  define ids where "ids = map (run_key E) (take limit sel)"
  have keys: "due_keys now (sql_view E s) = set (map (run_key E) sel)"
    by (auto simp: due_keys_def rs(3) run_map_iff [OF rs(2)] S(1))
  have ids: "distinct ids" "set ids \<subseteq> due_keys now (sql_view E s)" "length ids \<le> sql_max_vars E"
    using S(2) n(1) unfolding ids_def keys take_map [symmetric] by (auto dest: in_set_takeD)
  then have due: "all_due E now rs ids" by (auto simp: all_due_def due_keys_def rs(3))
  have len: "length ids = min limit (card (due_keys now (sql_view E s)))"
    unfolding keys distinct_card [OF S(2)] by (simp add: ids_def)
  let ?rs = "leased_runs E now owner exp ids rs"
  obtain out i where out: "claim_ids E no_fault owner (x_dt_str E exp) (x_dt_str E now) ids
        ((guarded s)\<lparr>in_txn := True\<rparr>, 2) =
      (Ok out, (with_tables (guarded s) (with_runs E (work (guarded s)) ?rs), i))"
      "mset out = mset (filter (\<lambda>r. run_key E r \<in> set ids) ?rs)"
    using claim_ids_law [OF sql_inv_parts(3) [OF inv] sql_inv_parts(5) [OF inv] rs(1) sql_inv_parts(1) [OF inv]
        rs(2) ok ids(1) due ids(3), of owner] by blast
  note B = read_back [OF rs(2) ok ids(1) due out(2)]
  note M = leased_runs_rep [OF rs(2) ok due]
  let ?s' = "s\<lparr>guarded := with_tables (guarded s) (with_runs E (work (guarded s)) ?rs)\<rparr>"
  have "sql_claim_due_runs E no_fault now owner limit s = (Ok out, ?s')"
    unfolding sql_claim_due_runs_def
    by (rule sqlite_op_changed [OF sql_inv_parts(2) [OF inv], of _ _ _ i]) (simp_all add: sel(2) out(1) flip: ids_def)
  moreover have "lease_keys now owner exp (set ids) (sql_view E s) = sql_view E ?s'"
    using with_runs_inv(2) [OF inv M(1)] by (simp add: lease_keys_def rs(3) M(2) fun_eq_iff)
  ultimately show ?thesis
    using with_runs_inv(1) [OF inv M(1)] B ids len
    by (intro exI [of _ "map (run_key E) out"] exI [of _ ?s']) (simp only: rs(3) length_map)
qed

subsection \<open>Operations on the jobs\<close>

lemma sql_inv_jobs:
  assumes "sql_inv E okt okv s"
  obtains rows where "t_jobs (work (guarded s)) = Some rows" "jobs_rep E okt okv rows"
    "v_jobs (sql_view E s) = map_of (map (row_job E) rows)"
  using sql_inv_parts(6) [OF assms] that by (auto simp: tables_ok_def sql_view_def tables_view_def)

text \<open>The job a row holds.\<close>

definition holds_job :: "'j ext \<Rightarrow> (time \<Rightarrow> bool) \<Rightarrow> ('j \<Rightarrow> bool) \<Rightarrow> db_job \<Rightarrow> 'j leyla_job \<Rightarrow> bool" where
  "holds_job E okt okv r j \<longleftrightarrow> job_ok okt okv j \<and> jr_id r = j_id j \<and>
    x_job_json E j = Inr (jr_definition_json r) \<and> x_job_parse E (jr_definition_json r) = Inr j"

lemma jobs_rep_alt: "jobs_rep E okt okv rows \<longleftrightarrow>
    distinct (map jr_id rows) \<and> (\<forall>r\<in>set rows. \<exists>j. holds_job E okt okv r j)"
  by (simp add: jobs_rep_def holds_job_def)

lemma row_job_eq: "holds_job E okt okv r j \<Longrightarrow> row_job E r = (j_id j, j)"
  by (simp add: holds_job_def row_job_def)

lemma fst_row_job [simp]: "fst (row_job E r) = jr_id r" "fst \<circ> row_job E = jr_id"
  by (simp_all add: row_job_def fun_eq_iff)

lemma job_lookup:
  assumes "jobs_rep E okt okv rows"
  shows "map_of (map (row_job E) rows) k = Some j \<longleftrightarrow> (\<exists>r\<in>set rows. jr_id r = k \<and> holds_job E okt okv r j)"
proof
  assume "map_of (map (row_job E) rows) k = Some j"
  then obtain r where r: "r \<in> set rows" "row_job E r = (k, j)" by (auto dest!: map_of_SomeD)
  with assms obtain j' where j': "holds_job E okt okv r j'" by (auto simp: jobs_rep_alt)
  with r(2) have "j' = j" "jr_id r = k" using row_job_eq [OF j'] by (auto simp: holds_job_def)
  with r(1) j' show "\<exists>r\<in>set rows. jr_id r = k \<and> holds_job E okt okv r j" by blast
next
  assume "\<exists>r\<in>set rows. jr_id r = k \<and> holds_job E okt okv r j"
  then obtain r where r: "r \<in> set rows" "jr_id r = k" "holds_job E okt okv r j" by blast
  then have "row_job E r = (k, j)" by (simp add: row_job_eq) (simp add: holds_job_def)
  with r(1) have "(k, j) \<in> set (map (row_job E) rows)" by (metis image_eqI set_map)
  with assms show "map_of (map (row_job E) rows) k = Some j"
    by (intro map_of_is_SomeI) (simp_all add: jobs_rep_alt)
qed

lemma job_lookup_None: "map_of (map (row_job E) rows) k = None \<longleftrightarrow> (\<forall>r\<in>set rows. jr_id r \<noteq> k)"
  by (simp add: map_of_eq_None_iff image_image) blast

definition with_jobs :: "sql_tables \<Rightarrow> db_job list \<Rightarrow> sql_tables" where
  "with_jobs d rows = d\<lparr>t_jobs := Some rows\<rparr>"

lemma with_jobs_inv:
  assumes "sql_inv E okt okv s" "jobs_rep E okt okv rows"
  defines "s' \<equiv> s\<lparr>guarded := with_tables (guarded s) (with_jobs (work (guarded s)) rows)\<rparr>"
  shows "sql_inv E okt okv s'" "sql_view E s' = (sql_view E s)\<lparr>v_jobs := map_of (map (row_job E) rows)\<rparr>"
proof -
  have "tables_ok E okt okv (with_jobs (work (guarded s)) rows)"
    using sql_inv_parts(6) [OF assms(1)] assms(2) by (auto simp: tables_ok_def with_jobs_def)
  then show "sql_inv E okt okv s'" unfolding s'_def by (rule sql_inv_with_tables [OF assms(1)])
  show "sql_view E s' = (sql_view E s)\<lparr>v_jobs := map_of (map (row_job E) rows)\<rparr>"
    by (simp add: s'_def sql_view_def tables_view_def with_jobs_def)
qed

text \<open>The rows in plan order that satisfy a condition.\<close>

lemma plan_jobs_set: "plans_ok c \<Longrightarrow> set (plan_jobs c rows) = set rows"
  by (rule mset_eq_setD) (simp add: plans_ok_def)

lemma plan_jobs_distinct: "plans_ok c \<Longrightarrow> distinct (map jr_id (plan_jobs c rows)) = distinct (map jr_id rows)"
  by (rule mset_eq_imp_distinct_iff) (simp add: plans_ok_def)

lemma sql_get_job_law:
  assumes inv: "sql_inv E okt okv s"
  shows "sql_get_job E no_fault k s =
    (case v_jobs (sql_view E s) k of Some j \<Rightarrow> Ok j | None \<Rightarrow> Err (NotFound k), s)"
proof -
  obtain rows where rows: "t_jobs (work (guarded s)) = Some rows" "jobs_rep E okt okv rows"
      "v_jobs (sql_view E s) = map_of (map (row_job E) rows)"
    using sql_inv_jobs [OF inv] .
  define sel where "sel = filter (\<lambda>r. jr_id r = k) (plan_jobs (guarded s) rows)"
  have set_sel: "set sel = {r \<in> set rows. jr_id r = k}"
    by (simp add: sel_def plan_jobs_set [OF sql_inv_parts(5) [OF inv]])
  show ?thesis
  proof (cases sel)
    case Nil
    then have "v_jobs (sql_view E s) k = None"
      using set_sel by (auto simp: rows(3) job_lookup_None)
    with Nil show ?thesis
      unfolding sql_get_job_def
      by (intro sqlite_op_same [OF sql_inv_parts(2) [OF inv], of _ _ 1])
        (simp_all add: query_row_step fetch_step rows(1) decode_row_def flip: sel_def)
  next
    case (Cons r rest)
    then have r: "r \<in> set rows" "jr_id r = k" using set_sel by auto
    with rows(2) obtain j where j: "holds_job E okt okv r j" by (auto simp: jobs_rep_alt)
    with r have "v_jobs (sql_view E s) k = Some j" by (auto simp: rows(3) job_lookup [OF rows(2)])
    with Cons j show ?thesis
      unfolding sql_get_job_def
      by (intro sqlite_op_same [OF sql_inv_parts(2) [OF inv], of _ _ 1])
        (simp_all add: query_row_step fetch_step rows(1) decode_row_def holds_job_def flip: sel_def)
  qed
qed

lemma sql_list_jobs_law:
  assumes inv: "sql_inv E okt okv s"
  shows "\<exists>js. sql_list_jobs E no_fault s = (Ok js, s) \<and>
    distinct (map j_id js) \<and> set js = ran (v_jobs (sql_view E s))"
proof -
  obtain rows where rows: "t_jobs (work (guarded s)) = Some rows" "jobs_rep E okt okv rows"
      "v_jobs (sql_view E s) = map_of (map (row_job E) rows)"
    using sql_inv_jobs [OF inv] .
  define sel where "sel = sort_key jr_created_at (plan_jobs (guarded s) rows)"
  have set_sel: "set sel = set rows"
    by (simp add: sel_def plan_jobs_set [OF sql_inv_parts(5) [OF inv]])
  have dist: "distinct (map jr_id sel)"
    using rows(2) by (simp add: sel_def distinct_map_sort_key jobs_rep_alt
        plan_jobs_distinct [OF sql_inv_parts(5) [OF inv]])
  define js where "js = map (\<lambda>r. snd (row_job E r)) sel"
  have held: "holds_job E okt okv r (snd (row_job E r))" if "r \<in> set rows" for r
    using that rows(2) by (auto simp: jobs_rep_alt row_job_eq)
  have parse: "x_job_parse E (jr_definition_json r) = Inr (snd (row_job E r))" if "r \<in> set sel" for r
    using held that by (simp add: set_sel holds_job_def)
  have "sql_list_jobs E no_fault s = (Ok js, s)"
    unfolding sql_list_jobs_def
    by (rule sqlite_op_same [OF sql_inv_parts(2) [OF inv], of _ _ 1])
      (simp_all add: query_step rows(1) js_def
        fetch_all_ok [of sel "\<lambda>r. x_job_parse E (jr_definition_json r)", OF parse] flip: sel_def)
  moreover have "map j_id js = map jr_id sel"
    using held by (auto simp: js_def set_sel holds_job_def)
  moreover have "set js = ran (v_jobs (sql_view E s))"
    using rows(2) by (simp add: js_def set_sel rows(3) ran_distinct image_image jobs_rep_def)
  ultimately show ?thesis using dist by auto
qed

lemma sql_remove_job_None:
  assumes inv: "sql_inv E okt okv s" and k: "v_jobs (sql_view E s) k = None"
  shows "sql_remove_job no_fault k s = (Err (NotFound k), s)"
proof -
  obtain rows where rows: "t_jobs (work (guarded s)) = Some rows" "jobs_rep E okt okv rows"
      "v_jobs (sql_view E s) = map_of (map (row_job E) rows)"
    using sql_inv_jobs [OF inv] .
  have none: "\<forall>r\<in>set rows. jr_id r \<noteq> k" using k by (simp only: rows(3) job_lookup_None)
  then have sel: "filter (\<lambda>r. jr_id r = k) rows = []" "filter (\<lambda>r. jr_id r \<noteq> k) rows = rows"
    by (simp_all add: filter_empty_conv filter_id_conv)
  have same: "(guarded s)\<lparr>work := (work (guarded s))\<lparr>t_jobs := Some rows\<rparr>,
      committed := (work (guarded s))\<lparr>t_jobs := Some rows\<rparr>\<rparr> = guarded s"
    using sql_inv_parts(4) [OF inv] rows(1) by simp
  show ?thesis
    unfolding sql_remove_job_def
    by (rule sqlite_op_same [OF sql_inv_parts(2) [OF inv], of _ _ 1])
      (simp_all add: exec_step rows(1) sel sql_inv_parts(3) [OF inv] same)
qed

lemma sql_remove_job_Some:
  assumes inv: "sql_inv E okt okv s" and k: "v_jobs (sql_view E s) k = Some j"
  shows "\<exists>s'. sql_remove_job no_fault k s = (Ok (), s') \<and> sql_inv E okt okv s' \<and>
    sql_view E s' = (sql_view E s)\<lparr>v_jobs := (v_jobs (sql_view E s))(k := None)\<rparr>"
proof -
  obtain rows where rows: "t_jobs (work (guarded s)) = Some rows" "jobs_rep E okt okv rows"
      "v_jobs (sql_view E s) = map_of (map (row_job E) rows)"
    using sql_inv_jobs [OF inv] .
  have "\<exists>r\<in>set rows. jr_id r = k" using k by (auto simp: rows(3) job_lookup [OF rows(2)])
  then have sel: "filter (\<lambda>r. jr_id r = k) rows \<noteq> []" by (auto simp: filter_empty_conv)
  let ?rows = "filter (\<lambda>r. jr_id r \<noteq> k) rows"
  have rep: "jobs_rep E okt okv ?rows"
    using rows(2) by (auto simp: jobs_rep_alt distinct_map_filter)
  have view: "map_of (map (row_job E) ?rows) = (map_of (map (row_job E) rows))(k := None)"
  proof
    fix k' show "map_of (map (row_job E) ?rows) k' = ((map_of (map (row_job E) rows))(k := None)) k'"
      by (induction rows) (auto simp: row_job_def)
  qed
  have "sql_remove_job no_fault k s =
      (Ok (), s\<lparr>guarded := with_tables (guarded s) (with_jobs (work (guarded s)) ?rows)\<rparr>)"
    unfolding sql_remove_job_def
    by (rule sqlite_op_changed [OF sql_inv_parts(2) [OF inv], of _ _ _ 1])
      (simp_all add: exec_step rows(1) sel sql_inv_parts(3) [OF inv] with_tables_def with_jobs_def)
  then show ?thesis using with_jobs_inv [OF inv rep] by (simp add: view rows(3))
qed

lemma upsert_row_new: "\<forall>r\<in>set rows. jr_id r \<noteq> jr_id new \<Longrightarrow> upsert_row new rows = rows @ [new]"
  by (auto simp: upsert_row_def)

lemma upsert_row_ids: "distinct (map jr_id rows) \<Longrightarrow> distinct (map jr_id (upsert_row new rows))"
proof (cases "\<exists>r\<in>set rows. jr_id r = jr_id new")
  case True
  have "map jr_id (map (\<lambda>r. if jr_id r = jr_id new then new\<lparr>jr_created_at := jr_created_at r\<rparr> else r) rows) =
      map jr_id rows"
    by simp
  then show "distinct (map jr_id rows) \<Longrightarrow> ?thesis" using True by (simp add: upsert_row_def del: map_map)
qed (auto simp: upsert_row_def)

text \<open>Only the definition column decides which job a row holds.\<close>

lemma holds_job_created:
  "holds_job E okt okv (r\<lparr>jr_created_at := t\<rparr>) j = holds_job E okt okv r j"
  "row_job E (r\<lparr>jr_created_at := t\<rparr>) = row_job E r"
  by (simp_all add: holds_job_def row_job_def)

lemma upsert_row_rep:
  assumes "jobs_rep E okt okv rows" "holds_job E okt okv new j"
  shows "jobs_rep E okt okv (upsert_row new rows)"
    "map_of (map (row_job E) (upsert_row new rows)) = (map_of (map (row_job E) rows))(j_id j \<mapsto> j)"
proof -
  have in_rows: "r = new \<or> (\<exists>t. r = new\<lparr>jr_created_at := t\<rparr>) \<or> r \<in> set rows"
    if "r \<in> set (upsert_row new rows)" for r
    using that by (auto simp: upsert_row_def split: if_splits)
  have held: "\<exists>j. holds_job E okt okv r j" if "r \<in> set (upsert_row new rows)" for r
    using in_rows [OF that] assms by (auto simp: jobs_rep_alt holds_job_created)
  show "jobs_rep E okt okv (upsert_row new rows)"
    using held assms(1) upsert_row_ids by (simp add: jobs_rep_alt)
  have new: "row_job E new = (j_id j, j)" "jr_id new = j_id j"
    using assms(2) by (simp_all add: row_job_eq) (simp add: holds_job_def)
  show "map_of (map (row_job E) (upsert_row new rows)) = (map_of (map (row_job E) rows))(j_id j \<mapsto> j)"
  proof (cases "\<exists>r\<in>set rows. jr_id r = jr_id new")
    case True
    have "map_of (map (row_job E) (map (\<lambda>r. if jr_id r = jr_id new then new\<lparr>jr_created_at := jr_created_at r\<rparr> else r) rows)) k =
        (if k = j_id j then if \<exists>r\<in>set rows. jr_id r = jr_id new then Some j else None
         else map_of (map (row_job E) rows) k)" for k
      by (induction rows) (auto simp: holds_job_created new simp del: map_map)
    with True show ?thesis by (simp add: upsert_row_def fun_eq_iff del: map_map)
  next
    case False
    then have "map_of (map (row_job E) rows) (j_id j) = None"
      by (simp only: job_lookup_None new(2) [symmetric]) blast
    moreover have "upsert_row new rows = rows @ [new]" using False by (auto simp: upsert_row_def)
    ultimately show ?thesis
      by (auto simp: new map_add_def fun_eq_iff split: option.split)
  qed
qed

lemma sql_upsert_job_law:
  assumes inv: "sql_inv E okt okv s" and ok: "job_ok okt okv j"
  shows "\<exists>s'. sql_upsert_job E no_fault j s = (Ok (), s') \<and> sql_inv E okt okv s' \<and>
    sql_view E s' = (sql_view E s)\<lparr>v_jobs := (v_jobs (sql_view E s))(j_id j \<mapsto> j)\<rparr>"
proof -
  obtain rows where rows: "t_jobs (work (guarded s)) = Some rows" "jobs_rep E okt okv rows"
      "v_jobs (sql_view E s) = map_of (map (row_job E) rows)"
    using sql_inv_jobs [OF inv] .
  obtain t where t: "x_job_json E j = Inr t" "x_job_parse E t = Inr j"
    using codec_job [OF sql_inv_parts(1) [OF inv] ok] .
  have held: "holds_job E okt okv (job_to_row E t j) j"
    using ok t by (simp add: holds_job_def job_to_row_def)
  note U = upsert_row_rep [OF rows(2) held]
  have "sql_upsert_job E no_fault j s = (Ok (), s\<lparr>guarded := with_tables (guarded s)
      (with_jobs (work (guarded s)) (upsert_row (job_to_row E t j) rows))\<rparr>)"
    unfolding sql_upsert_job_def t(1) sum.case
    by (rule sqlite_op_changed [OF sql_inv_parts(2) [OF inv], of _ _ _ 1])
      (simp_all add: no_fault_simp map_err_def sql_exec_def rows(1) sql_inv_parts(3) [OF inv] with_tables_def with_jobs_def)
  then show ?thesis using with_jobs_inv [OF inv U(1)] by (simp add: U(2) rows(3))
qed

lemma sql_dead_letters_law:
  assumes inv: "sql_inv E okt okv s"
  shows "\<exists>ds. sql_get_dead_letters E no_fault s = (Ok ds, s) \<and> mset ds = mset (v_dead (sql_view E s))"
proof -
  obtain rows where rows: "t_dead (work (guarded s)) = Some rows" "dead_rep E rows"
    using sql_inv_parts(6) [OF inv] by (auto simp: tables_ok_def)
  define sel where "sel = sort_key z_created_at (plan_dead (guarded s) rows)"
  have sel: "mset sel = mset rows" using sql_inv_parts(5) [OF inv] by (simp add: sel_def plans_ok_def)
  then have "row_to_dead E r = Inr (sum.projr (row_to_dead E r))" if "r \<in> set sel" for r
    using that rows(2) mset_eq_setD [OF sel] by (auto simp: dead_rep_def)
  note read = fetch_all_ok [of sel "row_to_dead E", OF this]
  have "sql_get_dead_letters E no_fault s = (Ok (map (\<lambda>r. sum.projr (row_to_dead E r)) sel), s)"
    unfolding sql_get_dead_letters_def
    by (rule sqlite_op_same [OF sql_inv_parts(2) [OF inv], of _ _ 1])
      (simp_all add: query_step rows(1) read flip: sel_def)
  moreover have "mset (map (\<lambda>r. sum.projr (row_to_dead E r)) sel) = mset (v_dead (sql_view E s))"
    by (simp add: sel sql_view_def tables_view_def rows(1))
  ultimately show ?thesis by blast
qed

lemma sql_migrate_law:
  assumes inv: "sql_inv E okt okv s"
  shows "sql_migrate no_fault s = (Ok (), s)"
proof -
  obtain js rs ds where t: "t_jobs (work (guarded s)) = Some js" "t_runs (work (guarded s)) = Some rs"
      "t_dead (work (guarded s)) = Some ds"
    using sql_inv_parts(6) [OF inv] by (auto simp: tables_ok_def)
  have same: "(guarded s)\<lparr>committed := work (guarded s)\<rparr> = guarded s"
    using sql_inv_parts(4) [OF inv] by simp
  show ?thesis
    unfolding sql_migrate_def
    by (rule sqlite_op_same [OF sql_inv_parts(2) [OF inv], of _ _ 6])
      (simp_all add: exec_step create_jobs_def create_runs_def create_dead_def create_index_def t same
        sql_inv_parts(3) [OF inv])
qed

subsection \<open>The laws of the interface hold\<close>

lemma sqlite_ops_simps [simp]:
  "op_upsert_job (sqlite_ops E flt) = sql_upsert_job E flt" "op_get_job (sqlite_ops E flt) = sql_get_job E flt"
  "op_list_jobs (sqlite_ops E flt) = sql_list_jobs E flt" "op_remove_job (sqlite_ops E flt) = sql_remove_job flt"
  "op_insert_run (sqlite_ops E flt) = sql_insert_run E flt"
  "op_claim_due_runs (sqlite_ops E flt) = sql_claim_due_runs E flt"
  "op_update_run (sqlite_ops E flt) = sql_update_run E flt"
  "op_get_run (sqlite_ops E flt) = sql_get_run E flt" "op_list_runs (sqlite_ops E flt) = sql_list_runs E flt"
  "op_get_stale_runs (sqlite_ops E flt) = sql_get_stale_runs E flt"
  "op_get_dead_letters (sqlite_ops E flt) = sql_get_dead_letters E flt"
  "op_count_active_runs (sqlite_ops E flt) = sql_count_active_runs flt"
  "op_migrate (sqlite_ops E flt) = sql_migrate flt"
  by (simp_all add: sqlite_ops_def)

text \<open>
  A claim may ask for as many runs as a statement may have variables; a larger batch is
  refused by the engine when it claims more.
\<close>

definition sql_batch_ok :: "'j ext \<Rightarrow> nat \<Rightarrow> bool" where
  "sql_batch_ok E n \<longleftrightarrow> n \<le> sql_max_vars E \<and> n < 2 ^ 63"

interpretation sq: leyla_store "sqlite_ops E no_fault" E "sql_inv E okt okv" "sql_view E" okt okv "sql_batch_ok E"
  for E okt okv
proof (unfold_locales, unfold sqlite_ops_simps, goal_cases)
  case (1 s)
  then show ?case by (rule sql_inv_runs) (simp add: run_map_def finite_dom_map_of)
next
  case (2 s k r)
  from 2(1) show ?case by (rule sql_inv_runs) (use 2(2) in \<open>auto simp: run_map_iff run_key_def\<close>)
next
  case (3 s k r)
  from 3(1) show ?case by (rule sql_inv_runs) (use 3(2) in \<open>auto simp: run_map_iff runs_rep_def\<close>)
next
  case (4 s k j)
  from 4(1) show ?case by (rule sql_inv_jobs) (use 4(2) in \<open>auto simp: job_lookup holds_job_def\<close>)
next
  case (5 s k j)
  from 5(1) show ?case by (rule sql_inv_jobs) (use 5(2) in \<open>auto simp: job_lookup holds_job_def\<close>)
next
  case 6 then show ?case by (rule sql_upsert_job_law)
next
  case 7 then show ?case by (rule sql_get_job_law)
next
  case 8 then show ?case by (rule sql_list_jobs_law)
next
  case 9 then show ?case by (rule sql_remove_job_None)
next
  case 10 then show ?case by (rule sql_remove_job_Some)
next
  case 11 then show ?case by (simp add: sql_insert_run_Some flip: run_key_def)
next
  case 12 then show ?case using sql_insert_run_None by (simp flip: run_key_def)
next
  case (13 s limit now exp owner)
  then have "limit \<le> sql_max_vars E" "limit < 2 ^ 63" by (simp_all add: sql_batch_ok_def)
  with 13 show ?case by (intro sql_claim_law)
next
  case 14 then show ?case by (intro sql_update_run_None)
next
  case 15 then show ?case by (intro sql_update_run_Some)
next
  case 16 then show ?case by (rule sql_get_run_law)
next
  case 17 then show ?case by (rule sql_list_runs_law)
next
  case 18 then show ?case by (intro sql_get_stale_runs_law)
next
  case 19
  then show ?case
    unfolding sql_get_stale_runs_def
    by (intro sqlite_op_same [OF sql_inv_parts(2), of E okt okv _ _ _ 0]) simp_all
next
  case 20 then show ?case by (rule sql_dead_letters_law)
next
  case 21 then show ?case by (rule sql_count_active_law)
next
  case 22 then show ?case by (rule sql_migrate_law)
qed

subsection \<open>A sample store\<close>

text \<open>
  A store without jobs over the sample environment, for the concrete instances of the
  properties: it keeps runs without payloads, at times from 1970 on.
\<close>

definition sample_sqlite :: "string job_run list \<Rightarrow> sqlite_store" where
  "sample_sqlite rs = (let d = \<lparr>t_jobs = Some [], t_runs = Some (map (run_to_row sample_ext) rs), t_dead = Some []\<rparr>
     in new_mutex \<lparr>work = d, committed = d, in_txn = False, plan_jobs = (\<lambda>xs. xs), plan_runs = (\<lambda>xs. xs),
       plan_dead = (\<lambda>xs. xs)\<rparr>)"

abbreviation sample_okt :: "time \<Rightarrow> bool" where "sample_okt t \<equiv> 0 \<le> t"
abbreviation sample_okv :: "string \<Rightarrow> bool" where "sample_okv v \<equiv> False"

lemma replicate_le: "replicate m x \<le> replicate n (x :: 'a :: linorder) \<longleftrightarrow> m \<le> n"
proof (induction m arbitrary: n)
  case (Suc m) then show ?case by (cases n) simp_all
qed simp

lemma sample_status_parse: "x_status_parse sample_ext ([CHR 0x22] @ status_to_str s @ [CHR 0x22]) = Inr s"
  by (cases s) (simp_all add: sample_ext_def all_run_status_def status_to_str_def)

lemma sample_codec: "sql_codec sample_ext sample_okt sample_okv"
  unfolding sql_codec_def
proof (intro conjI allI impI)
  fix s show "x_status_parse sample_ext ([CHR 0x22] @ status_to_str s @ [CHR 0x22]) = Inr s"
    by (rule sample_status_parse)
qed (auto simp: sample_ext_def replicate_le job_ok_def)

lemma sample_sqlite_inv:
  "runs_rep sample_ext sample_okt sample_okv rs \<Longrightarrow> sql_inv sample_ext sample_okt sample_okv (sample_sqlite rs)"
  by (auto simp: sql_inv_def sample_codec sample_sqlite_def Let_def plans_ok_def tables_ok_def jobs_rep_def
      dead_rep_def)

lemma sample_sqlite_view:
  assumes "runs_rep sample_ext sample_okt sample_okv rs"
  shows "v_runs (sql_view sample_ext (sample_sqlite rs)) = run_map sample_ext rs"
  by (simp add: sql_view_def tables_view_def sample_sqlite_def Let_def row_runs [OF sample_codec assms] run_map_def)

end
