(* ===== verification/Sqlite_Faults.thy ===== *)
theory Sqlite_Faults
  imports Sqlite_Laws
begin

section \<open>The SQLite store when statements fail\<close>

text \<open>
  What \<open>claim_due_runs\<close> and \<open>update_run\<close> leave behind when a statement of theirs fails: they end
  their transaction only on the way that succeeds. The claims are triples over the statements;
  a fault that makes the engine roll back on its own is excluded where it makes a difference.
\<close>

subsection \<open>Statements\<close>

definition open_txn :: "sql_tables \<Rightarrow> connection \<times> nat \<Rightarrow> bool" where
  "open_txn C w \<longleftrightarrow> in_txn (fst w) \<and> committed (fst w) = C"

definition saved :: "sql_tables \<Rightarrow> connection \<times> nat \<Rightarrow> bool" where
  "saved C w \<longleftrightarrow> committed (fst w) = C"

definition settled :: "connection \<times> nat \<Rightarrow> bool" where
  "settled w \<longleftrightarrow> \<not> in_txn (fst w) \<and> committed (fst w) = work (fst w)"

lemmas txn_defs = open_txn_def saved_def settled_def

lemma sql_tripleI:
  "(\<And>c i. P (c, i) \<Longrightarrow> case m (c, i) of (Ok x, w') \<Rightarrow> Q x w' | (_, w') \<Rightarrow> R w') \<Longrightarrow> triple P m Q R"
  by (rule tripleI) force

lemma failed_saved [simp]: "committed (snd (failed e c)) = committed c"
  by (simp add: failed_def roll_back_def split: sql_fault.split)

lemma open_saved: "open_txn C w \<Longrightarrow> saved C w"
  by (simp add: txn_defs)

lemma exec_txn [triple_intros]: "triple (open_txn C) (sql_exec flt f) (\<lambda>_. open_txn C) (saved C)"
  by (rule sql_tripleI)
    (simp add: sql_exec_def txn_defs failed_def roll_back_def split: option.split sum.split sql_fault.split)

lemma query_txn: "triple (open_txn C) (sql_query flt q)
    (\<lambda>x w. saved C w \<and> (snd x = None \<longrightarrow> open_txn C w)) (saved C)"
  by (rule sql_tripleI)
    (simp add: sql_query_def txn_defs roll_back_def split: option.split sum.split sql_fault.split)

lemma commit_txn: "triple (open_txn C) (sql_commit flt) (\<lambda>_. settled) (saved C)"
  by (rule sql_tripleI)
    (simp add: sql_commit_def txn_defs failed_def roll_back_def split: option.split sum.split sql_fault.split)

lemma begin_settled: "triple (\<lambda>w. settled w \<and> saved C w) (sql_begin flt) (\<lambda>_. open_txn C) (saved C)"
  by (rule sql_tripleI)
    (auto simp: sql_begin_def txn_defs failed_def roll_back_def split: option.split sum.split sql_fault.split)

lemma begin_txn: "triple (\<lambda>w. settled w \<and> saved C w \<and> snd w = n) (sql_begin flt)
    (\<lambda>_ w. open_txn C w \<and> snd w = Suc n) (saved C)"
  by (rule sql_tripleI)
    (auto simp: sql_begin_def txn_defs failed_def roll_back_def split: option.split sum.split sql_fault.split)

text \<open>A query that cannot make the engine roll back.\<close>

lemma query_txn_kept:
  "(\<And>k msg. flt n \<noteq> Some (Rolled_Back k msg)) \<Longrightarrow>
    triple (\<lambda>w. open_txn C w \<and> snd w = n) (sql_query flt q) (\<lambda>_. open_txn C) (saved C)"
  by (rule sql_tripleI)
    (auto simp: sql_query_def txn_defs split: option.split sum.split sql_fault.split)

lemma fetch_all_Ok: "fetch_all dec rows e = Ok xs \<Longrightarrow> e = None"
  by (induction dec rows e arbitrary: xs rule: fetch_all.induct) (auto split: sum.splits outcome.splits)

text \<open>Reading a result to its end: a query that was cut off is an error.\<close>

lemma fetch_txn:
  "triple (\<lambda>w. saved C w \<and> (e = None \<longrightarrow> open_txn C w)) (lift_outcome (fetch_all dec rows e))
    (\<lambda>_. open_txn C) (saved C)"
  by (rule triple_lift) (auto dest: fetch_all_Ok)

text \<open>From the program on the connection to the operation on the store.\<close>

lemma sqlite_op_triple:
  assumes "triple P p Q R" "\<not> poisoned m" "P (guarded m, 0)" "sqlite_op p m = (r, m')"
  shows "if is_Ok r then \<exists>i. Q (ok_val r) (guarded m', i) else \<exists>i. R (guarded m', i)"
proof -
  obtain r0 c i where p: "p (guarded m, 0) = (r0, (c, i))" by (metis prod.exhaust)
  have "r = r0" "guarded m' = c" using assms(2,4) p by (auto simp: sqlite_op_def with_lock_def)
  with p assms(1,3) show ?thesis
    unfolding triple_def by (cases r0) (fastforce split: prod.splits outcome.splits)+
qed

subsection \<open>Transactions commit all or nothing\<close>

lemma claim_loop_txn:
  "triple (open_txn C) (for_each (\<lambda>rid _. internal (sql_exec flt (claim_update owner l n rid))) ids ())
    (\<lambda>_. open_txn C) (saved C)"
  by (intro triple_for_each triple_map_err exec_txn)

lemma claim_read_txn:
  "triple (open_txn C)
    (if ids = [] then ret []
     else if sql_max_vars E < length ids then fail (Internal (x_sql_var_error E))
     else andthen (internal (sql_query flt q)) (\<lambda>(rows, e).
       internal (lift_outcome (fetch_all (row_to_run E) rows e))))
    (\<lambda>_. open_txn C) (saved C)"
  by (intro triple_if triple_ret triple_fail triple_andthen [OF triple_map_err [OF query_txn]])
    (auto simp: open_saved intro!: triple_map_err triple_weaken [OF fetch_txn])

lemma claim_txn:
  assumes "\<And>k msg. flt 1 \<noteq> Some (Rolled_Back k msg)"
  shows "triple (\<lambda>w. settled w \<and> saved C w \<and> snd w = 0) (claim_stmts E flt now owner limit) (\<lambda>_. settled) (saved C)"
  unfolding claim_stmts_def Let_def
  apply (rule triple_andthen [where Q = "\<lambda>_ w. settled w \<and> saved C w \<and> snd w = 0"])
   apply (rule triple_lift; simp)
  apply (rule triple_andthen [OF triple_map_err [OF begin_txn]])
  apply (rule triple_andthen [OF triple_map_err [OF query_txn_kept]])
   apply (simp add: assms [unfolded One_nat_def])
  apply (rule triple_case_prod)
  unfolding claim_ids_def
  apply (rule triple_andthen [OF claim_loop_txn])
  apply (rule triple_andthen [OF claim_read_txn])
  apply (rule triple_andthen [OF triple_map_err [OF commit_txn]])
  apply (rule triple_ret)
  apply simp
  done

lemma upd_txn [triple_intros]: "triple (open_txn C) (upd flt n k f) (\<lambda>_. open_txn C) (saved C)"
  by (cases f) (simp_all, (rule triple_ret triple_map_err exec_txn; assumption?)+)

lemma query_row_settled: "triple (\<lambda>w. settled w \<and> saved C w) (sql_query_row flt q)
    (\<lambda>_ w. settled w \<and> saved C w) (saved C)"
  by (rule sql_tripleI)
    (auto simp: sql_query_row_def txn_defs failed_def roll_back_def split: option.splits sum.split sql_fault.split)

lemma update_txn:
  "triple (\<lambda>w. settled w \<and> saved C w) (update_stmts E flt now k p) (\<lambda>_. settled) (saved C)"
  unfolding update_stmts_def Let_def
  apply (rule triple_andthen [OF triple_map_err [OF query_row_settled]])
  apply (rule triple_if)
   apply (rule triple_fail; simp)
  apply (rule triple_andthen [OF triple_map_err [OF begin_settled]])
  apply (rule triple_andthen [where Q = "\<lambda>_. open_txn C"])
   apply (rule triple_for_each [OF upd_txn])
  apply (rule triple_map_err [OF commit_txn])
  done

subsection \<open>In a transaction that was left open\<close>

text \<open>No statement makes the engine roll back.\<close>

definition quiet :: "faults \<Rightarrow> bool" where
  "quiet flt \<longleftrightarrow> (\<forall>i k msg. flt i \<noteq> Some (Rolled_Back k msg))"

lemma quiet_no_fault [simp]: "quiet no_fault"
  by (simp add: quiet_def no_fault_def)

lemma quiet_failed: "quiet flt \<Longrightarrow> flt i = Some e \<Longrightarrow> snd (failed e c) = c"
  by (cases e) (simp_all add: quiet_def failed_def)

lemma open_exec [preserve_intros]: "quiet flt \<Longrightarrow> preserves (open_txn C) (sql_exec flt f)"
  by (rule preservesI)
    (auto simp: sql_exec_def open_txn_def case_prod_unfold quiet_failed split: option.split sum.split)

lemma open_query [preserve_intros]: "quiet flt \<Longrightarrow> preserves (open_txn C) (sql_query flt q)"
  by (rule preservesI)
    (auto simp: sql_query_def open_txn_def case_prod_unfold quiet_def split: option.split sum.split sql_fault.split)

lemma open_query_row [preserve_intros]: "quiet flt \<Longrightarrow> preserves (open_txn C) (sql_query_row flt q)"
  by (rule preservesI)
    (auto simp: sql_query_row_def open_txn_def case_prod_unfold quiet_def failed_def
      split: option.split sum.split sql_fault.split)

lemma begin_in_txn: "quiet flt \<Longrightarrow> triple (open_txn C) (sql_begin flt) (\<lambda>_ _. False) (open_txn C)"
  by (rule tripleI)
    (simp add: sql_begin_def open_txn_def case_prod_unfold quiet_failed split: option.split)

lemma triple_False: "triple (\<lambda>_. False) m Q R"
  by (simp add: triple_def)

text \<open>What follows a \<open>BEGIN\<close> does not run.\<close>

lemma open_begin:
  "quiet flt \<Longrightarrow> preserves (open_txn C) (andthen (internal (sql_begin flt)) f)"
  unfolding triple_preserves
  by (rule triple_andthen [OF triple_map_err [OF begin_in_txn]]) (simp_all add: triple_False)

text \<open>The connection of the store is in a transaction, over the committed tables \<open>C\<close>.\<close>

definition uncommitted :: "sql_tables \<Rightarrow> sqlite_store \<Rightarrow> bool" where
  "uncommitted C m \<longleftrightarrow> in_txn (guarded m) \<and> committed (guarded m) = C"

lemma preserves_at_state: "(\<And>c. preserves I (f c)) \<Longrightarrow> preserves I (\<lambda>(c, i). f c (c, i))"
  by (auto simp: preserves_def)

lemma sqlite_op_open:
  assumes "preserves (open_txn C) p"
  shows "preserves (uncommitted C) (sqlite_op p)"
proof
  fix m :: sqlite_store assume m: "uncommitted C m"
  then have "open_txn C (snd (p (guarded m, 0)))"
    using assms by (auto simp: preserves_def open_txn_def uncommitted_def)
  then show "uncommitted C (snd (sqlite_op p m))"
    using m by (auto simp: uncommitted_def sqlite_op_def with_lock_def open_txn_def split: prod.splits)
qed

text \<open>
  C21: Once a transaction was left open, nothing the store is asked to do reaches the database
  any more: every operation, however its statements end (short of the engine rolling back),
  leaves the transaction open and the committed tables as they were, although insertions,
  removals and updates of jobs still answer \<open>Ok\<close>.
\<close>
lemma open_transaction_commits_nothing:
  assumes "quiet flt"
  shows "preserves (uncommitted C) (sql_upsert_job E flt job) \<and>
    preserves (uncommitted C) (sql_get_job E flt jid) \<and> preserves (uncommitted C) (sql_list_jobs E flt) \<and>
    preserves (uncommitted C) (sql_remove_job flt jid) \<and> preserves (uncommitted C) (sql_insert_run E flt run) \<and>
    preserves (uncommitted C) (sql_claim_due_runs E flt now owner n) \<and>
    preserves (uncommitted C) (sql_update_run E flt now rid patch) \<and>
    preserves (uncommitted C) (sql_get_run E flt rid) \<and> preserves (uncommitted C) (sql_list_runs E flt f) \<and>
    preserves (uncommitted C) (sql_get_stale_runs E flt now thr) \<and>
    preserves (uncommitted C) (sql_get_dead_letters E flt) \<and>
    preserves (uncommitted C) (sql_count_active_runs flt jid) \<and> preserves (uncommitted C) (sql_migrate flt)"
proof (intro conjI)
  show "preserves (uncommitted C) (sql_claim_due_runs E flt now owner n)"
    unfolding sql_claim_due_runs_def claim_stmts_def Let_def
    by (intro sqlite_op_open preserves_andthen preserves_lift open_begin assms)
  show "preserves (uncommitted C) (sql_update_run E flt now rid patch)"
    unfolding sql_update_run_def update_stmts_def Let_def
    by (intro sqlite_op_open preserves_andthen [OF preserves_map_err [OF open_query_row]] preserves_if
        preserves_fail open_begin assms)
  show "preserves (uncommitted C) (sql_remove_job flt jid)"
    unfolding sql_remove_job_def Let_def
    by (intro sqlite_op_open preserves_at_state preserve_intros assms)
qed (unfold sql_upsert_job_def sql_get_job_def sql_list_jobs_def sql_insert_run_def sql_get_run_def sql_list_runs_def
    sql_get_stale_runs_def sql_get_dead_letters_def sql_count_active_runs_def sql_migrate_def Let_def,
    (intro sqlite_op_open preserve_intros assms)+)

lemma open_transaction_commits_nothing_witness:
  "\<exists>m'. sql_insert_run sample_ext no_fault (job_run_new_scheduled 0 1 ''a'' 7 3)
      ((sample_sqlite [])\<lparr>guarded := (guarded (sample_sqlite []))\<lparr>in_txn := True\<rparr>\<rparr>) = (Ok (), m') \<and>
    uncommitted (committed (guarded (sample_sqlite []))) m'"
proof -
  let ?m = "(sample_sqlite [])\<lparr>guarded := (guarded (sample_sqlite []))\<lparr>in_txn := True\<rparr>\<rparr>"
  let ?C = "committed (guarded (sample_sqlite []))"
  let ?run = "job_run_new_scheduled 0 1 ''a'' 7 3 :: string job_run"
  have "fst (sql_insert_run sample_ext no_fault ?run ?m) = Ok ()"
    by (simp add: sql_insert_run_def sqlite_op_def with_lock_def map_err_def sql_exec_def no_fault_simp
        sample_sqlite_def Let_def)
  moreover have "uncommitted ?C ?m" by (simp add: uncommitted_def)
  then have "uncommitted ?C (snd (sql_insert_run sample_ext no_fault ?run ?m))"
    using open_transaction_commits_nothing [OF quiet_no_fault, of ?C sample_ext]
    by (blast intro: preservesD)
  ultimately show ?thesis by (metis prod.collapse)
qed

subsection \<open>Properties of failing transactions\<close>

text \<open>Either everything was committed, or nothing.\<close>

definition all_or_nothing :: "sqlite_store \<Rightarrow> ('e, 'a) outcome \<times> sqlite_store \<Rightarrow> bool" where
  "all_or_nothing m x \<longleftrightarrow> (let c = guarded m; c' = guarded (snd x) in
     if is_Ok (fst x) then \<not> in_txn c' \<and> committed c' = work c' else committed c' = committed c)"

lemma all_or_nothingI:
  assumes "triple P p (\<lambda>_. settled) (saved (committed (guarded m)))" "\<not> poisoned m" "P (guarded m, 0)"
  shows "all_or_nothing m (sqlite_op p m)"
  using sqlite_op_triple [OF assms, of "fst (sqlite_op p m)" "snd (sqlite_op p m)"]
  by (auto simp: all_or_nothing_def Let_def txn_defs)

text \<open>
  C13: Whatever statements fail, in whatever way, with one exception, \<open>claim_due_runs\<close> and \<open>update_run\<close>
  change the committed tables only when they return \<open>Ok\<close>, and then everything they did is committed and
  the transaction is closed. The exception is an engine that rolls back in the selection of a claim
  (the hypothesis on \<open>flt 1\<close>), where a claim that fails leaves committed leases behind, as shown below.
\<close>
lemma transactions_all_or_nothing:
  assumes "\<not> poisoned m" "\<not> in_txn (guarded m)" "committed (guarded m) = work (guarded m)"
    and "\<forall>k msg. flt 1 \<noteq> Some (Rolled_Back k msg)"
  shows "all_or_nothing m (sql_claim_due_runs E flt now owner limit m) \<and>
    all_or_nothing m (sql_update_run E flt' now' k p m)"
  unfolding sql_claim_due_runs_def sql_update_run_def
  using assms
  by (intro conjI all_or_nothingI [OF claim_txn] all_or_nothingI [OF update_txn]) (simp_all add: txn_defs)

lemma transactions_all_or_nothing_witness:
  "all_or_nothing (sample_sqlite [job_run_new_scheduled 0 1 ''a'' 7 3])
    (sql_claim_due_runs sample_ext (\<lambda>i. if i = 2 then Some (Refused ''busy'') else None) 9 ''i'' 4
      (sample_sqlite [job_run_new_scheduled 0 1 ''a'' 7 3]))"
  by (rule transactions_all_or_nothing [THEN conjunct1]) (simp_all add: sample_sqlite_def Let_def)

subsection \<open>A claim whose selection rolls back\<close>

text \<open>
  When the engine rolls back in the selection, \<open>filter_map\<close> drops the error: the leases of the rows that
  were delivered are written outside the transaction, each committed at once, and the \<open>COMMIT\<close> fails.
\<close>

definition commit_error :: store_error where
  "commit_error = Internal ''cannot commit - no transaction is active''"

lemma exec_step_at:
  "flt i = None \<Longrightarrow> andthen (internal (sql_exec flt q)) f (c, i) =
    (case q (work c) of
       Inr d \<Rightarrow> f () (c\<lparr>work := d, committed := if in_txn c then committed c else d\<rparr>, Suc i)
     | Inl e \<Rightarrow> (Err (Internal e), (c, Suc i)))"
  by (simp add: andthen_def map_err_def sql_exec_def split: sum.split)

lemma commit_outside:
  "flt i = None \<Longrightarrow> \<not> in_txn c \<Longrightarrow> andthen (internal (sql_commit flt)) f (c, i) = (Err commit_error, (c, Suc i))"
  by (simp add: andthen_def map_err_def sql_commit_def commit_error_def)

lemma with_tables_twice: "with_tables (c\<lparr>work := d, committed := d\<rparr>) d' = with_tables c d'"
  by (simp add: with_tables_def)

lemma claim_loop_outside:
  "\<not> in_txn c \<Longrightarrow> committed c = work c \<Longrightarrow> t_runs (work c) = Some (map (run_to_row E) rs) \<Longrightarrow>
    \<forall>j>1. flt j = None \<Longrightarrow> 1 < i \<Longrightarrow>
    \<exists>i'>1. for_each (\<lambda>rid _. internal (sql_exec flt
        (claim_update owner (x_dt_str E exp) (x_dt_str E now) rid))) ids () (c, i) =
      (Ok (), (with_tables c (with_runs E (work c) (leased_runs E now owner exp ids rs)), i'))"
proof (induction ids arbitrary: c i rs)
  case Nil
  then have "with_tables c (work c) = c" by (simp add: with_tables_def)
  with Nil show ?case by (auto simp: leased_runs_def with_runs_same)
next
  case (Cons k ids)
  let ?rs = "map (\<lambda>r. if run_key E r = k \<and> r_status r = Scheduled then lease_run now owner exp r else r) rs"
  have u: "claim_update owner (x_dt_str E exp) (x_dt_str E now) k (work c) = Inr (with_runs E (work c) ?rs)"
    unfolding claim_update_def
    by (rule update_runs_rep [OF Cons.prems(3)])
      (simp_all add: lease_row_enc status_to_str_inj [of _ Scheduled, simplified])
  have rest: "leased_runs E now owner exp ids ?rs = leased_runs E now owner exp (k # ids) rs"
    by (auto simp: leased_runs_def run_key_def)
  let ?c = "c\<lparr>work := with_runs E (work c) ?rs, committed := with_runs E (work c) ?rs\<rparr>"
  have f: "flt i = None" using Cons.prems(4,5) by blast
  have pre: "\<not> in_txn ?c" "committed ?c = work ?c" "t_runs (work ?c) = Some (map (run_to_row E) ?rs)" "1 < Suc i"
    using Cons.prems(1,5) by simp_all
  from Cons.IH [OF pre(1-3) Cons.prems(4) pre(4)] Cons.prems(1) show ?case
    by (simp add: exec_step_at f u rest with_tables_twice del: map_map)
qed

lemma claim_outside:
  assumes d: "\<not> in_txn d" "committed d = work d" "plans_ok d" "t_runs (work d) = Some (map (run_to_row E) rs)"
    and rs: "sql_codec E okt okv" "runs_rep E okt okv rs" and ok: "okt now" "okt exp"
    and ids: "distinct ids" "all_due E now rs ids" "length ids \<le> sql_max_vars E"
    and flt: "\<forall>j>1. flt j = None"
  shows "\<exists>i. claim_ids E flt owner (x_dt_str E exp) (x_dt_str E now) ids (d, 2) =
    (Err commit_error, (with_tables d (with_runs E (work d) (leased_runs E now owner exp ids rs)), i))"
proof -
  define c' where "c' = with_tables d (with_runs E (work d) (leased_runs E now owner exp ids rs))"
  obtain i' where i': "1 < i'" and loop: "for_each (\<lambda>rid _. internal (sql_exec flt
      (claim_update owner (x_dt_str E exp) (x_dt_str E now) rid))) ids () (d, 2) = (Ok (), (c', i'))"
    using claim_loop_outside [OF d(1,2,4) flt, of 2 owner exp now ids] by (auto simp: c'_def)
  have c': "\<not> in_txn c'" "plans_ok c'"
      "t_runs (work c') = Some (map (run_to_row E) (leased_runs E now owner exp ids rs))"
    using d by (simp_all add: c'_def)
  obtain sel where sel: "select_runs (\<lambda>r. q_run_id r \<in> set ids) c' = Inr (map (run_to_row E) sel)"
      "mset sel = mset (filter (\<lambda>r. run_key E r \<in> set ids) (leased_runs E now owner exp ids rs))"
    using select_runs_rep [OF c'(2,3), of "\<lambda>r. q_run_id r \<in> set ids" "\<lambda>r. run_key E r \<in> set ids"] by auto
  note B = read_back [OF rs(2) ok ids(1,2) sel(2)]
  have f: "flt i' = None" "flt (Suc i') = None" using flt i' by simp_all
  show ?thesis
  proof (cases "ids = []")
    case True
    have "claim_ids E flt owner (x_dt_str E exp) (x_dt_str E now) ids (d, 2) = (Err commit_error, (c', Suc i'))"
      using loop f(1) c'(1) by (simp add: True claim_ids_def ret_step commit_outside)
    then show ?thesis unfolding c'_def by blast
  next
    case False
    with ids(3) show ?thesis
      by (simp add: claim_ids_def andthen_Ok loop query_step_at f(1) sel(1) fetch_runs [OF rs(1) B(5)]
          commit_outside f(2) c'(1) andthen_assoc flip: c'_def)
  qed
qed

text \<open>
  C14: When SQLite rolls the transaction back while a claim selects its runs (an I/O error, a full disk),
  after \<open>n\<close> of the rows, the claim goes on and answers with the error of its \<open>COMMIT\<close>; but the leases of
  these runs are in the database, committed, under an owner who was told that the claim has failed.
\<close>
lemma rolled_back_claim_leases:
  assumes inv: "sql_inv E okt okv m" and n: "limit \<le> sql_max_vars E" "limit < 2 ^ 63"
    and ok: "okt now" "okt exp" and x: "x_dt_add E now (30 * nanos_per_sec) = Some exp"
    and flt: "flt 0 = None" "flt 1 = Some (Rolled_Back n msg)" "\<forall>j>1. flt j = None"
  shows "\<exists>ks m'. sql_claim_due_runs E flt now owner limit m =
      (Err (Internal ''cannot commit - no transaction is active''), m') \<and> sql_inv E okt okv m' \<and>
    distinct ks \<and> set ks \<subseteq> due_keys now (sql_view E m) \<and>
    length ks = min n (min limit (card (due_keys now (sql_view E m)))) \<and>
    sql_view E m' = lease_keys now owner exp (set ks) (sql_view E m) \<and>
    committed (guarded m') = work (guarded m')"
proof -
  obtain rs where rs: "t_runs (work (guarded m)) = Some (map (run_to_row E) rs)" "runs_rep E okt okv rs"
      "v_runs (sql_view E m) = run_map E rs"
    using sql_inv_runs [OF inv] .
  define c where "c = (guarded m)\<lparr>in_txn := True\<rparr>"
  have c: "work c = work (guarded m)" "plans_ok c" "roll_back c = guarded m"
    using sql_inv_parts [OF inv] by (simp_all add: c_def plans_ok_def roll_back_def)
  have "due_row (x_dt_str E now) (run_to_row E r) = run_due now r" if "r \<in> set rs" for r
    using that rs(2) due_row_enc [OF sql_inv_parts(1) [OF inv] _ ok(1), of r] by (simp add: runs_rep_def)
  then obtain sel where sel: "select_runs (due_row (x_dt_str E now)) c = Inr (map (run_to_row E) sel)"
      "mset sel = mset (filter (run_due now) rs)"
    using select_runs_rep [OF c(2), of E rs "due_row (x_dt_str E now)" "run_due now"] rs(1) c(1) by auto
  note S = selection_runs [OF rs(2) sel(2)]
  define ids where "ids = map (run_key E) (take n (take limit sel))"
  have rows: "map q_run_id (take n (sql_limit limit (map (run_to_row E) sel))) = ids"
    using n(2) by (simp add: sql_limit_def take_map ids_def)
  have query: "andthen (internal (sql_query flt q)) f (c, 1) =
      (case q c of Inr rows \<Rightarrow> f (take n rows, Some msg) (guarded m, 2) | Inl e \<Rightarrow> (Err (Internal e), (c, 2)))" for q f
    by (simp add: andthen_def map_err_def sql_query_def flt(2) [unfolded One_nat_def] c(3) numeral_2_eq_2 split: sum.split)
  have stmts: "claim_stmts E flt now owner limit (guarded m, 0) =
      claim_ids E flt owner (x_dt_str E exp) (x_dt_str E now) ids (guarded m, 2)"
    unfolding claim_stmts_def Let_def x unwrap_simps
    by (simp add: begin_step_at flt(1) sql_inv_parts(3) [OF inv] flip: c_def One_nat_def)
      (simp add: query [unfolded One_nat_def] sel(1) rows)
  have keys: "due_keys now (sql_view E m) = set (map (run_key E) sel)"
    by (auto simp: due_keys_def rs(3) run_map_iff [OF rs(2)] S(1))
  have ids: "distinct ids" "set ids \<subseteq> due_keys now (sql_view E m)" "length ids \<le> sql_max_vars E"
    using S(2) n(1) unfolding ids_def keys take_map [symmetric] by (auto dest!: in_set_takeD)
  then have due: "all_due E now rs ids" by (auto simp: all_due_def due_keys_def rs(3))
  have len: "length ids = min n (min limit (card (due_keys now (sql_view E m))))"
    unfolding keys distinct_card [OF S(2)] by (simp add: ids_def)
  let ?rs = "leased_runs E now owner exp ids rs"
  note P = sql_inv_parts [OF inv]
  obtain i where "claim_ids E flt owner (x_dt_str E exp) (x_dt_str E now) ids (guarded m, 2) =
      (Err commit_error, (with_tables (guarded m) (with_runs E (work (guarded m)) ?rs), i))"
    using claim_outside [OF P(3,4,5) rs(1) P(1) rs(2) ok ids(1) due ids(3) flt(3), of owner] by blast
  note M = leased_runs_rep [OF rs(2) ok due]
  let ?m' = "m\<lparr>guarded := with_tables (guarded m) (with_runs E (work (guarded m)) ?rs)\<rparr>"
  have "sql_claim_due_runs E flt now owner limit m = (Err commit_error, ?m')"
    unfolding sql_claim_due_runs_def
    by (rule sqlite_op_changed [OF P(2), of _ _ _ i]) (simp_all add: stmts \<open>claim_ids _ _ _ _ _ _ _ = _\<close>)
  moreover have "lease_keys now owner exp (set ids) (sql_view E m) = sql_view E ?m'"
    using with_runs_inv(2) [OF inv M(1)] by (simp add: lease_keys_def rs(3) M(2) fun_eq_iff)
  ultimately show ?thesis
    using with_runs_inv(1) [OF inv M(1)] ids len unfolding commit_error_def
    by (intro exI [of _ ids] exI [of _ ?m']) simp
qed

text \<open>In an open transaction a claim, and the update of a run that exists, end at their \<open>BEGIN\<close>.\<close>

definition nested_error :: store_error where
  "nested_error = Internal ''cannot start a transaction within a transaction''"

lemma begin_nested:
  "in_txn c \<Longrightarrow> andthen (internal (sql_begin no_fault)) f (c, i) = (Err nested_error, (c, Suc i))"
  by (simp add: andthen_def map_err_def sql_begin_def no_fault_simp nested_error_def)

lemma claim_in_open_transaction:
  assumes "\<not> poisoned m" "in_txn (guarded m)" "x_dt_add E now (30 * nanos_per_sec) = Some exp"
  shows "sql_claim_due_runs E no_fault now owner n m = (Err nested_error, m)"
  unfolding sql_claim_due_runs_def claim_stmts_def Let_def assms(3) unwrap_simps
  by (rule sqlite_op_same [OF assms(1), of _ _ 1]) (simp_all add: assms begin_nested)

lemma update_in_open_transaction:
  assumes "\<not> poisoned m" "in_txn (guarded m)"
    and "select_runs (\<lambda>r. q_run_id r = k) (guarded m) = Inr (row # rows)"
  shows "sql_update_run E no_fault now k p m = (Err nested_error, m)"
  unfolding sql_update_run_def
  by (rule sqlite_op_same [OF assms(1), of _ _ 2])
    (simp_all add: update_stmts_def query_row_step assms Let_def begin_nested numeral_2_eq_2)

text \<open>The store after a claim that ended between its \<open>BEGIN\<close> and its \<open>COMMIT\<close>.\<close>

definition left_open :: "'j ext \<Rightarrow> (time \<Rightarrow> bool) \<Rightarrow> ('j \<Rightarrow> bool) \<Rightarrow> sqlite_store \<Rightarrow> sqlite_store \<Rightarrow> bool" where
  "left_open E okt okv m m' \<longleftrightarrow> \<not> poisoned m' \<and> in_txn (guarded m') \<and>
    committed (guarded m') = committed (guarded m) \<and> plans_ok (guarded m') \<and>
    (\<exists>rs. t_runs (work (guarded m')) = Some (map (run_to_row E) rs) \<and> run_key E ` set rs = dom (v_runs (sql_view E m)))"

lemma left_open_blocks:
  assumes "left_open E okt okv m m'"
  shows "x_dt_add E now (30 * nanos_per_sec) = Some exp \<Longrightarrow>
      sql_claim_due_runs E no_fault now owner n m' = (Err nested_error, m')"
    and "k \<in> dom (v_runs (sql_view E m)) \<Longrightarrow> sql_update_run E no_fault now k p m' = (Err nested_error, m')"
proof -
  have m': "\<not> poisoned m'" "in_txn (guarded m')" "plans_ok (guarded m')"
    using assms by (simp_all add: left_open_def)
  show "x_dt_add E now (30 * nanos_per_sec) = Some exp \<Longrightarrow>
      sql_claim_due_runs E no_fault now owner n m' = (Err nested_error, m')"
    by (rule claim_in_open_transaction [OF m'(1,2)])
  assume k: "k \<in> dom (v_runs (sql_view E m))"
  obtain rs where rs: "t_runs (work (guarded m')) = Some (map (run_to_row E) rs)" "k \<in> run_key E ` set rs"
    using assms k unfolding left_open_def by blast
  obtain sel where sel: "select_runs (\<lambda>r. q_run_id r = k) (guarded m') = Inr (map (run_to_row E) sel)"
      "mset sel = mset (filter (\<lambda>r. run_key E r = k) rs)"
    using select_runs_rep [OF m'(3) rs(1), of "\<lambda>r. q_run_id r = k" "\<lambda>r. run_key E r = k"] by auto
  have "set sel \<noteq> {}" using mset_eq_setD [OF sel(2)] rs(2) by auto
  then obtain r rest where "sel = r # rest" by (cases sel) auto
  with sel(1) show "sql_update_run E no_fault now k p m' = (Err nested_error, m')"
    by (intro update_in_open_transaction [OF m'(1,2)]) simp
qed

lemma claim_refused:
  assumes inv: "sql_inv E okt okv m" and n: "limit < 2 ^ 63" "0 < limit" and ok: "okt now"
    and x: "x_dt_add E now (30 * nanos_per_sec) = Some exp"
    and flt: "flt 0 = None" "flt 1 = None" "flt 2 = Some (Refused msg)"
    and due: "due_keys now (sql_view E m) \<noteq> {}"
  shows "\<exists>m'. sql_claim_due_runs E flt now owner limit m = (Err (Internal msg), m') \<and> left_open E okt okv m m'"
proof -
  obtain rs where rs: "t_runs (work (guarded m)) = Some (map (run_to_row E) rs)" "runs_rep E okt okv rs"
      "v_runs (sql_view E m) = run_map E rs"
    using sql_inv_runs [OF inv] .
  obtain sel where sel: "mset sel = mset (filter (run_due now) rs)"
      "claim_stmts E flt now owner limit (guarded m, 0) =
        claim_ids E flt owner (x_dt_str E exp) (x_dt_str E now) (map (run_key E) (take limit sel))
          ((guarded m)\<lparr>in_txn := True\<rparr>, 2)"
    by (rule claim_prefix [OF inv n(1) ok x flt(1,2) rs(1,2)])
  have "set sel \<noteq> {}"
    using due selection_runs(1) [OF rs(2) sel(1)] by (auto simp: due_keys_def rs(3) run_map_iff [OF rs(2)])
  then obtain k ks where ids: "map (run_key E) (take limit sel) = k # ks"
    using n(2) by (cases sel; cases limit) auto
  have stop: "andthen (internal (sql_exec flt f)) g (c, 2) = (Err (Internal msg), (c, 3))" for f c and g
    by (simp add: andthen_def map_err_def sql_exec_def flt(3) failed_def)
  let ?m' = "m\<lparr>guarded := (guarded m)\<lparr>in_txn := True\<rparr>\<rparr>"
  have "sql_claim_due_runs E flt now owner limit m = (Err (Internal msg), ?m')"
    unfolding sql_claim_due_runs_def
    by (rule sqlite_op_changed [OF sql_inv_parts(2) [OF inv], of _ _ _ 3])
      (simp_all add: sel(2) ids claim_ids_def andthen_assoc stop)
  moreover have "left_open E okt okv m ?m'"
    using sql_inv_parts [OF inv] rs by (auto simp: left_open_def plans_ok_def run_map_def dom_map_of_conv_image_fst image_image)
  ultimately show ?thesis by blast
qed

lemma claim_too_many:
  assumes inv: "sql_inv E okt okv m" and n: "limit < 2 ^ 63" and ok: "okt now" "okt exp"
    and x: "x_dt_add E now (30 * nanos_per_sec) = Some exp"
    and many: "sql_max_vars E < min limit (card (due_keys now (sql_view E m)))"
  shows "\<exists>m'. sql_claim_due_runs E no_fault now owner limit m = (Err (Internal (x_sql_var_error E)), m') \<and>
    left_open E okt okv m m'"
proof -
  obtain rs where rs: "t_runs (work (guarded m)) = Some (map (run_to_row E) rs)" "runs_rep E okt okv rs"
      "v_runs (sql_view E m) = run_map E rs"
    using sql_inv_runs [OF inv] .
  obtain sel where sel: "mset sel = mset (filter (run_due now) rs)"
      "claim_stmts E no_fault now owner limit (guarded m, 0) =
        claim_ids E no_fault owner (x_dt_str E exp) (x_dt_str E now) (map (run_key E) (take limit sel))
          ((guarded m)\<lparr>in_txn := True\<rparr>, 2)"
    by (rule claim_prefix [OF inv n ok(1) x no_fault_simp no_fault_simp rs(1,2)])
  note S = selection_runs [OF rs(2) sel(1)]
  define ids where "ids = map (run_key E) (take limit sel)"
  have keys: "due_keys now (sql_view E m) = set (map (run_key E) sel)"
    by (auto simp: due_keys_def rs(3) run_map_iff [OF rs(2)] S(1))
  have long: "sql_max_vars E < length ids" "ids \<noteq> []"
    using many unfolding keys distinct_card [OF S(2)] by (auto simp: ids_def)
  have "set ids \<subseteq> due_keys now (sql_view E m)"
    unfolding ids_def keys take_map [symmetric] by (auto dest: in_set_takeD)
  then have due: "all_due E now rs ids" by (auto simp: all_due_def due_keys_def rs(3))
  note M = leased_runs_rep [OF rs(2) ok due, of owner]
  define c where "c = (guarded m)\<lparr>in_txn := True\<rparr>"
  have c: "in_txn c" "t_runs (work c) = Some (map (run_to_row E) rs)" using rs(1) by (simp_all add: c_def)
  obtain i' where loop: "for_each (\<lambda>rid _. internal (sql_exec no_fault
      (claim_update owner (x_dt_str E exp) (x_dt_str E now) rid))) ids () (c, 2) =
      (Ok (), (c\<lparr>work := with_runs E (work c) (leased_runs E now owner exp ids rs)\<rparr>, i'))"
    using claim_loop [OF c, of owner exp now ids 2] by (auto simp: leased_runs_def)
  let ?m' = "m\<lparr>guarded := c\<lparr>work := with_runs E (work c) (leased_runs E now owner exp ids rs)\<rparr>\<rparr>"
  have "sql_claim_due_runs E no_fault now owner limit m = (Err (Internal (x_sql_var_error E)), ?m')"
    unfolding sql_claim_due_runs_def
    by (rule sqlite_op_changed [OF sql_inv_parts(2) [OF inv], of _ _ _ i'])
      (simp_all add: sel(2) claim_ids_def andthen_Ok loop andthen_Err long flip: ids_def c_def)
  moreover have "left_open E okt okv m ?m'"
    unfolding left_open_def
  proof (intro conjI exI)
    show "run_key E ` set (leased_runs E now owner exp ids rs) = dom (v_runs (sql_view E m))"
      unfolding rs(3) dom_run_map [symmetric] by (auto simp: dom_def M(2))
  qed (use sql_inv_parts [OF inv] c in \<open>simp_all add: plans_ok_def c_def\<close>)
  ultimately show ?thesis by blast
qed

text \<open>
  C20: A claim whose first update is refused (another process holds the database) fails, and
  from then on every claim, and every update of a run the store has, fails too, even when
  nothing else goes wrong: the transaction it opened is never closed.
\<close>
lemma failed_claim_blocks:
  assumes "sql_inv E okt okv m" "0 < limit" "limit < 2 ^ 63" "okt now"
    and "x_dt_add E now (30 * nanos_per_sec) = Some exp" "due_keys now (sql_view E m) \<noteq> {}"
    and "flt 0 = None" "flt 1 = None" "flt 2 = Some (Refused msg)"
    and "x_dt_add E now' (30 * nanos_per_sec) = Some exp'" "v_runs (sql_view E m) k = Some r"
  shows "\<exists>m'. sql_claim_due_runs E flt now owner limit m = (Err (Internal msg), m') \<and>
    committed (guarded m') = committed (guarded m) \<and>
    sql_claim_due_runs E no_fault now' owner' n m' = (Err nested_error, m') \<and>
    sql_update_run E no_fault now'' k p m' = (Err nested_error, m')"
proof -
  obtain m' where m': "sql_claim_due_runs E flt now owner limit m = (Err (Internal msg), m')"
      "left_open E okt okv m m'"
    using claim_refused [OF assms(1,3,2,4,5,7,8,9,6)] by blast
  moreover have "k \<in> dom (v_runs (sql_view E m))" using assms(11) by blast
  ultimately show ?thesis
    using left_open_blocks(1) [OF m'(2) assms(10)] left_open_blocks(2) [OF m'(2)]
    by (intro exI [of _ m']) (simp add: left_open_def)
qed

abbreviation sample_due :: "string job_run" where
  "sample_due \<equiv> job_run_new_scheduled 0 1 ''a'' 7 3"

lemma sample_due_store:
  "runs_rep sample_ext sample_okt sample_okv [sample_due]" "run_key sample_ext sample_due = ''u''"
  "run_due 9 sample_due"
  by (simp_all add: runs_rep_def run_ok_def run_key_def run_due_def job_run_new_scheduled_def sample_ext_def)

lemma sample_due_view:
  "v_runs (sql_view sample_ext (sample_sqlite [sample_due])) ''u'' = Some sample_due"
  "due_keys 9 (sql_view sample_ext (sample_sqlite [sample_due])) = {''u''}"
  using sample_due_store
  by (auto simp: due_keys_def sample_sqlite_view [OF sample_due_store(1)] run_map_def split: if_splits)

lemma failed_claim_blocks_witness:
  "\<exists>m'. sql_claim_due_runs sample_ext (\<lambda>i. if i = 2 then Some (Refused ''busy'') else None) 9 ''i'' 4
      (sample_sqlite [sample_due]) = (Err (Internal ''busy''), m') \<and>
    sql_claim_due_runs sample_ext no_fault 20 ''j'' 4 m' = (Err nested_error, m')"
proof -
  have x: "x_dt_add sample_ext 9 (30 * nanos_per_sec) = Some (9 + 30 * nanos_per_sec)"
    "x_dt_add sample_ext 20 (30 * nanos_per_sec) = Some (20 + 30 * nanos_per_sec)"
    by (simp_all add: sample_ext_def)
  have "due_keys 9 (sql_view sample_ext (sample_sqlite [sample_due])) \<noteq> {}" by (simp add: sample_due_view(2))
  from failed_claim_blocks [OF sample_sqlite_inv [OF sample_due_store(1)] _ _ _ x(1) this _ _ _ x(2) sample_due_view(1),
      of 4 "\<lambda>i. if i = 2 then Some (Refused ''busy'') else None" "''busy''" "''i''" "''j''" 4]
  show ?thesis by auto
qed

lemma rolled_back_claim_leases_witness:
  "\<exists>m'. sql_claim_due_runs sample_ext (\<lambda>i. if i = 1 then Some (Rolled_Back 5 ''disk I/O error'') else None) 9 ''i'' 4
      (sample_sqlite [sample_due]) = (Err (Internal ''cannot commit - no transaction is active''), m') \<and>
    v_runs (sql_view sample_ext m') ''u'' = Some (lease_run 9 ''i'' (9 + 30 * nanos_per_sec) sample_due)"
proof -
  let ?flt = "\<lambda>i. if i = 1 then Some (Rolled_Back 5 ''disk I/O error'') else None"
  have x: "x_dt_add sample_ext 9 (30 * nanos_per_sec) = Some (9 + 30 * nanos_per_sec)"
    by (simp add: sample_ext_def)
  obtain ks m' where m': "sql_claim_due_runs sample_ext ?flt 9 ''i'' 4 (sample_sqlite [sample_due]) =
        (Err (Internal ''cannot commit - no transaction is active''), m')" "set ks \<subseteq> {''u''}" "length ks = 1"
      "sql_view sample_ext m' = lease_keys 9 ''i'' (9 + 30 * nanos_per_sec) (set ks) (sql_view sample_ext (sample_sqlite [sample_due]))"
    using rolled_back_claim_leases [OF sample_sqlite_inv [OF sample_due_store(1)] _ _ _ _ x, of 4 ?flt 5 "''disk I/O error''" "''i''"]
    by (auto simp: sample_due_view(2) sql_max_vars_def)
  then have "ks = [''u'']" by (cases ks) auto
  with m' show ?thesis by (simp add: sample_due_view(1))
qed

text \<open>
  C22: A claim of more runs than the engine allows variables in a statement fails after it has
  leased them all inside its transaction; the transaction stays open, so nothing is committed
  and every later claim fails.
\<close>
lemma oversized_claim_blocks:
  assumes "sql_inv E okt okv m" "limit < 2 ^ 63" "okt now" "okt exp"
    and "x_dt_add E now (30 * nanos_per_sec) = Some exp"
    and "sql_max_vars E < min limit (card (due_keys now (sql_view E m)))"
    and "x_dt_add E now' (30 * nanos_per_sec) = Some exp'"
  shows "\<exists>m'. sql_claim_due_runs E no_fault now owner limit m = (Err (Internal (x_sql_var_error E)), m') \<and>
    committed (guarded m') = committed (guarded m) \<and>
    sql_claim_due_runs E no_fault now' owner' n m' = (Err nested_error, m')"
proof -
  obtain m' where m': "sql_claim_due_runs E no_fault now owner limit m = (Err (Internal (x_sql_var_error E)), m')"
      "left_open E okt okv m m'"
    using claim_too_many [OF assms(1-6)] by blast
  then show ?thesis
    using left_open_blocks(1) [OF m'(2) assms(7)] by (intro exI [of _ m']) (simp add: left_open_def)
qed

text \<open>The same environment with no parameters to spare, and more due runs than it has parameters.\<close>

abbreviation few_vars_ext :: "string ext" where
  "few_vars_ext \<equiv> sample_ext\<lparr>x_sql_spare_vars := 0, x_sql_var_error := ''variable number must be between ?1 and ?17''\<rparr>"

lemma few_vars_frame:
  "sql_inv few_vars_ext okt okv m = sql_inv sample_ext okt okv m"
  "sql_view few_vars_ext m = sql_view sample_ext m"
proof -
  have row: "run_to_row few_vars_ext = run_to_row sample_ext" "row_to_run few_vars_ext = row_to_run sample_ext"
    "row_to_dead few_vars_ext = row_to_dead sample_ext" "run_key few_vars_ext = run_key sample_ext"
    by (simp_all add: fun_eq_iff run_to_row_def row_to_run_def row_to_dead_def run_key_def opt_dt_to_str_def)
  show "sql_inv few_vars_ext okt okv m = sql_inv sample_ext okt okv m"
    by (simp add: sql_inv_def sql_codec_def tables_ok_def jobs_rep_def runs_rep_def dead_rep_def row)
  show "sql_view few_vars_ext m = sql_view sample_ext m"
    by (simp add: sql_view_def tables_view_def row_job_def [abs_def] row_run_def [abs_def] row)
qed

definition sample_crowd :: "nat \<Rightarrow> string job_run list" where
  "sample_crowd n = map (\<lambda>i. job_run_new_scheduled 0 (of_nat i) ''a'' 7 3) [0..<n]"

lemma sample_crowd_store:
  assumes "n < 2 ^ 128"
  shows "runs_rep sample_ext sample_okt sample_okv (sample_crowd n)"
    and "card (due_keys 9 (sql_view sample_ext (sample_sqlite (sample_crowd n)))) = n"
proof -
  have key: "run_key sample_ext (job_run_new_scheduled 0 (of_nat i) ''a'' 7 3) = replicate i (CHR ''u'')" if "i < n" for i
    using that assms by (simp add: run_key_def sample_ext_def job_run_new_scheduled_def unsigned_of_nat take_bit_nat_eq_self)
  have "inj_on (\<lambda>i. replicate i (CHR ''u'')) {0..<n}"
    by (rule inj_onI) (drule arg_cong [where f = length]; simp)
  then have d: "distinct (map (run_key sample_ext) (sample_crowd n))"
    by (simp add: sample_crowd_def distinct_map comp_def key inj_on_def)
  then show rep: "runs_rep sample_ext sample_okt sample_okv (sample_crowd n)"
    by (auto simp: runs_rep_def run_ok_def sample_crowd_def job_run_new_scheduled_def)
  have due: "run_due 9 r" if "r \<in> set (sample_crowd n)" for r
    using that by (auto simp: sample_crowd_def run_due_def job_run_new_scheduled_def)
  have "due_keys 9 (sql_view sample_ext (sample_sqlite (sample_crowd n))) = set (map (run_key sample_ext) (sample_crowd n))"
    unfolding due_keys_def sample_sqlite_view [OF rep] run_map_iff [OF rep] using due by auto
  then show "card (due_keys 9 (sql_view sample_ext (sample_sqlite (sample_crowd n)))) = n"
    using distinct_card [OF d] by (simp add: sample_crowd_def)
qed

lemma oversized_claim_blocks_witness:
  "\<exists>m'. sql_claim_due_runs few_vars_ext no_fault 9 ''i'' 50 (sample_sqlite (sample_crowd 18)) =
      (Err (Internal ''variable number must be between ?1 and ?17''), m') \<and>
    sql_claim_due_runs few_vars_ext no_fault 20 ''j'' 50 m' = (Err nested_error, m')"
proof -
  let ?E = few_vars_ext and ?m = "sample_sqlite (sample_crowd 18)"
  note crowd = sample_crowd_store [of 18, simplified]
  have "sql_inv ?E sample_okt sample_okv ?m"
    unfolding few_vars_frame by (rule sample_sqlite_inv [OF crowd(1)])
  moreover have "sql_max_vars ?E < min 50 (card (due_keys 9 (sql_view ?E ?m)))"
    unfolding few_vars_frame crowd(2) by (simp add: sql_max_vars_def)
  moreover have "x_dt_add ?E 9 (30 * nanos_per_sec) = Some (9 + 30 * nanos_per_sec)"
    "x_dt_add ?E 20 (30 * nanos_per_sec) = Some (20 + 30 * nanos_per_sec)"
    by (simp_all add: sample_ext_def)
  ultimately show ?thesis
    using oversized_claim_blocks [of ?E sample_okt sample_okv ?m 50 9 "9 + 30 * nanos_per_sec" 20
        "20 + 30 * nanos_per_sec" "''i''" "''j''" 50] by (auto simp: sample_ext_def)
qed

end
