(* ===== verification/Sqlite_Clients.thy ===== *)
theory Sqlite_Clients
  imports Sqlite_Faults Memory_Store Recovery Leyla_Engine Cli_Commands
begin

section \<open>The two stores, and the schedulers over SQLite\<close>

text \<open>
  The program's own database is SQLite; the in-memory store stands in for it in tests. The
  first part shows where the two agree, call by call, and the one call where they do not. The
  second part is what the recovery manager and the commands do to the database, from the
  lemmas proved once in the locale of the interface.
\<close>

subsection \<open>The memory store and the SQLite store agree\<close>

definition agree :: "'j ext \<Rightarrow> (time \<Rightarrow> bool) \<Rightarrow> ('j \<Rightarrow> bool) \<Rightarrow> 'j memory_store \<Rightarrow> sqlite_store \<Rightarrow> bool" where
  "agree E okt okv m s \<longleftrightarrow> mem_inv E m \<and> sql_inv E okt okv s \<and> mem_view m = sql_view E s"

text \<open>Two calls answer the same and leave stores that agree.\<close>

definition same_effect :: "'j ext \<Rightarrow> (time \<Rightarrow> bool) \<Rightarrow> ('j \<Rightarrow> bool) \<Rightarrow>
    ('e, 'a) outcome \<times> 'j memory_store \<Rightarrow> ('e, 'a) outcome \<times> sqlite_store \<Rightarrow> bool" where
  "same_effect E okt okv x y \<longleftrightarrow> fst x = fst y \<and> agree E okt okv (snd x) (snd y)"

lemma same_effectI:
  "x = (r, m') \<Longrightarrow> y = (r, s') \<Longrightarrow> agree E okt okv m' s' \<Longrightarrow> same_effect E okt okv x y"
  by (simp add: same_effect_def)

lemma agreeD:
  assumes "agree E okt okv m s"
  shows "mem_inv E m" "sql_inv E okt okv s" "sql_view E s = mem_view m"
  using assms by (simp_all add: agree_def)














lemma sample_one_rep: "runs_rep sample_ext sample_okt sample_okv [sample_run 1 st n]"
  by (simp add: runs_rep_def run_ok_def sample_run_def job_run_new_scheduled_def)

lemma sample_one_view:
  "v_runs (sql_view sample_ext (sample_sqlite [sample_run 1 st n])) = [''u'' \<mapsto> sample_run 1 st n]"
  by (simp add: sample_sqlite_view [OF sample_one_rep] run_map_def run_key_def sample_run_fields)

lemma sample_agree:
  "agree sample_ext sample_okt sample_okv (sample_runs [sample_run 1 st n]) (sample_sqlite [sample_run 1 st n])"
proof -
  have "mem_view (sample_runs [sample_run 1 st n]) = sql_view sample_ext (sample_sqlite [sample_run 1 st n])"
  proof (rule store_view.equality)
    show "v_runs (mem_view (sample_runs [sample_run 1 st n])) =
        v_runs (sql_view sample_ext (sample_sqlite [sample_run 1 st n]))"
      unfolding sample_one_view by (simp add: sample_runs_store sample_run_fields)
  qed (simp_all add: sample_runs_store sql_view_def tables_view_def sample_sqlite_def Let_def)
  moreover have "mem_inv sample_ext (sample_runs [sample_run 1 st n])"
    by (rule sample_runs_store) simp
  ultimately show ?thesis using sample_sqlite_inv [OF sample_one_rep] by (simp add: agree_def)
qed


text \<open>
  The stores part on the empty patch: the in-memory store stamps the run with the time of
  the update, the SQLite store, which stamps it with each column it sets, leaves it alone.
\<close>
lemma empty_patch_diverges:
  assumes "agree E okt okv m s" "v_runs (mem_view m) k = Some r"
  shows "\<exists>m'. mem_update_run now k run_patch_default m = (Ok (), m') \<and>
    v_runs (mem_view m') k = Some (r\<lparr>r_updated_at := now\<rparr>) \<and>
    sql_update_run E no_fault now k run_patch_default s = (Ok (), s)"
proof -
  note inv = agreeD(2) [OF assms(1)]
  obtain rs where rs: "t_runs (work (guarded s)) = Some (map (run_to_row E) rs)" "runs_rep E okt okv rs"
      "v_runs (sql_view E s) = run_map E rs"
    using sql_inv_runs [OF inv] .
  obtain sel where sel: "select_runs (\<lambda>r. q_run_id r = k) (guarded s) = Inr (map (run_to_row E) sel)"
      "mset sel = mset (filter (\<lambda>r. run_key E r = k) rs)"
    using select_runs_rep [OF sql_inv_parts(5) [OF inv] rs(1), of "\<lambda>r. q_run_id r = k" "\<lambda>r. run_key E r = k"]
    by auto
  have "sel = [r]" using find_run [OF rs(2) sel(2)] assms(2) by (simp add: rs(3) [symmetric] agreeD(3) [OF assms(1)])
  have cols: "patch_columns E run_patch_default = replicate 10 None"
    by (simp add: patch_columns_def run_patch_default_def numeral_eq_Suc)
  have loop: "for_each (\<lambda>f _. upd no_fault t k f) (replicate n None) () w = (Ok (), w)" for t n and w :: "connection \<times> nat"
    by (induction n) (simp_all add: ret_step)
  have same: "(guarded s)\<lparr>in_txn := False, committed := work (guarded s)\<rparr> = guarded s"
    using sql_inv_parts(3,4) [OF inv] by simp
  have "sql_update_run E no_fault now k run_patch_default s = (Ok (), s)"
    unfolding sql_update_run_def update_stmts_def cols
    by (rule sqlite_op_same [OF sql_inv_parts(2) [OF inv], of _ _ 3])
      (simp_all add: query_row_step sel(1) \<open>sel = [r]\<close> begin_step sql_inv_parts(3) [OF inv] andthen_Ok loop commit_eq same)
  moreover have "apply_patch now run_patch_default r = r\<lparr>r_updated_at := now\<rparr>"
    by (simp add: apply_patch_def run_patch_default_def)
  ultimately show ?thesis
    using assms(2) agreeD(1) [OF assms(1)]
    by (auto simp: mem_update_run_def mem_unfold mem_patch_run_apply)
qed

lemma empty_patch_diverges_witness:
  "\<exists>m'. mem_update_run 9 ''u'' run_patch_default (sample_runs [sample_run 1 Leased 3]) = (Ok (), m') \<and>
    v_runs (mem_view m') ''u'' = Some ((sample_run 1 Leased 3)\<lparr>r_updated_at := 9\<rparr>) \<and>
    sql_update_run sample_ext no_fault 9 ''u'' run_patch_default (sample_sqlite [sample_run 1 Leased 3]) =
      (Ok (), sample_sqlite [sample_run 1 Leased 3])"
  by (rule empty_patch_diverges [OF sample_agree]) (simp add: sample_runs_store sample_run_fields)

subsection \<open>The engine over a database that refuses every statement\<close>

abbreviation busy :: faults where
  "busy \<equiv> \<lambda>_. Some (Refused ''database is locked'')"

lemmas busy_defs = sqlite_ops_def sqlite_op_def with_lock_def map_err_def sql_query_def sql_begin_def failed_def
  andthen_def on_db_def sample_sys_def sample_sqlite_def Let_def clock_now_def fake_clock_now_def fake_clock_new_def
  new_mutex_def engine_new_def engine_config_new_def

lemma engine_loop_survives_errors_witness:
  "fst (materialize sample_ext (engine_materializer (engine_new (engine_config_new (sqlite_ops sample_ext busy) FakeClock ''i'')))
      (sample_sys (sample_sqlite []))) = Err (Internal ''database is locked'') \<and>
    engine_loop sample_ext (engine_new (engine_config_new (sqlite_ops sample_ext busy) FakeClock ''i''))
      [PollTick, Shutdown, PollTick] (sample_sys (sample_sqlite [])) = (Ok False, sample_sys (sample_sqlite []))"
proof -
  let ?e = "engine_new (engine_config_new (sqlite_ops sample_ext busy) FakeClock ''i'')"
  let ?w = "sample_sys (sample_sqlite [])"
  have m: "materialize sample_ext (engine_materializer ?e) ?w = (Err (Internal ''database is locked''), ?w)"
    by (simp add: materialize_def engine_materializer_def sql_list_jobs_def table_of_def map_inr_def busy_defs)
  have c: "claim_batch (engine_lease_manager ?e) ?w = (Err (Internal ''database is locked''), ?w)"
    by (simp add: claim_batch_def engine_lease_manager_def lease_manager_new_def sql_claim_due_runs_def
        claim_stmts_def sample_ext_def unwrap_def busy_defs)
  have "\<not> cancelled ?w" by (simp add: sample_sys_def)
  then show ?thesis
    using engine_loop_survives_errors [where E = sample_ext and e = ?e and w = ?w and bs = "[PollTick, Shutdown, PollTick]"] m c
    by (simp add: handled_def then_run_def)
qed

subsection \<open>Schedulers and commands over SQLite\<close>

text \<open>
  C8: \<open>recover\<close> does to the SQLite database what it does to the in-memory store: exactly the
  stale and the ready runs change, each as \<open>recovery_action\<close> prescribes, provided no statement
  fails and the times involved have a faithful text form.
\<close>
lemma recover_sqlite:
  assumes "sql_inv E okt okv (db w)" "utc_ok okt w" "okt now" "rm_store m = sqlite_ops E no_fault"
    and "clock_now (rm_clock m) w = ((Ok now :: (store_error, time) outcome), w0)"
    and "x_td_from_std E (rm_stale_threshold m) = Inr d" "x_dt_sub E now d = Some cutoff" "okt cutoff"
    and "\<And>k r. v_runs (sql_view E (db w)) k = Some r \<Longrightarrow> r_status r = RetryWait \<Longrightarrow> retry_computable E r"
  shows "\<exists>w'. recover E m w =
      (Ok (card {k. \<exists>r. v_runs (sql_view E (db w)) k = Some r \<and> recovery_action E now cutoff r \<noteq> None}), w') \<and>
    sql_inv E okt okv (db w') \<and>
    runs_updated (recovery_action E now cutoff) (\<lambda>_. True) (sql_view E (db w)) (sql_view E (db w'))"
  by (rule leyla_store.recover_effect [OF sq.leyla_store_axioms assms])

lemma recover_sqlite_witness:
  "\<exists>w' r'. recover sample_ext \<lparr>rm_store = sqlite_ops sample_ext no_fault, rm_clock = FakeClock, rm_stale_threshold = 100\<rparr>
      (sample_sys (sample_sqlite [sample_run 1 Running 1])) = (Ok 1, w') \<and>
    v_runs (sql_view sample_ext (db w')) ''u'' = Some r' \<and> r_status r' = DeadLetter"
proof -
  let ?m = "\<lparr>rm_store = sqlite_ops sample_ext no_fault, rm_clock = FakeClock, rm_stale_threshold = 100\<rparr>"
  let ?r = "sample_run 1 Running 1"
  let ?w = "sample_sys (sample_sqlite [?r])"
  have db: "db ?w = sample_sqlite [?r]" by (simp add: sample_sys_def)
  have inv: "sql_inv sample_ext sample_okt sample_okv (db ?w)"
    unfolding db by (rule sample_sqlite_inv [OF sample_one_rep])
  have runs: "v_runs (sql_view sample_ext (db ?w)) = [''u'' \<mapsto> ?r]" unfolding db by (rule sample_one_view)
  have act: "recovery_action sample_ext 1000 900 ?r = Some (?r\<lparr>r_status := DeadLetter\<rparr>)"
    by (simp add: recovery_action_def stale_action_def run_stale_def sample_run_fields)
  have "{k. \<exists>r. v_runs (sql_view sample_ext (db ?w)) k = Some r \<and> recovery_action sample_ext 1000 900 r \<noteq> None} = {''u''}"
    using act by (auto simp: runs split: if_splits)
  then have one: "card {k. \<exists>r. v_runs (sql_view sample_ext (db ?w)) k = Some r \<and>
      recovery_action sample_ext 1000 900 r \<noteq> None} = 1"
    by simp
  have utc: "utc_ok sample_okt ?w" by (simp add: utc_ok_def sample_sys_def)
  have clock: "clock_now (rm_clock ?m) ?w = ((Ok 1000 :: (store_error, time) outcome), ?w)"
    by (simp add: sample_clock)
  have thr: "x_td_from_std sample_ext (rm_stale_threshold ?m) = Inr 100" "x_dt_sub sample_ext 1000 100 = Some 900"
    by (simp_all add: sample_ext_def)
  have retry: "retry_computable sample_ext r"
    if "v_runs (sql_view sample_ext (db ?w)) k = Some r" "r_status r = RetryWait" for k r
    using that by (auto simp: runs sample_run_fields split: if_splits)
  have store: "rm_store ?m = sqlite_ops sample_ext no_fault" by simp
  have ok: "sample_okt 1000" "sample_okt 900" by simp_all
  obtain w' where w': "recover sample_ext ?m ?w = (Ok 1, w')"
    "runs_updated (recovery_action sample_ext 1000 900) (\<lambda>_. True) (sql_view sample_ext (db ?w)) (sql_view sample_ext (db w'))"
    using recover_sqlite [OF inv utc ok(1) store clock thr ok(2)] retry unfolding one by blast
  have "v_runs (sql_view sample_ext (db ?w)) ''u'' = Some ?r" by (simp add: runs)
  from runs_updatedD [OF w'(2) this] w'(1) act show ?thesis by (auto simp: run_updated_def)
qed

text \<open>
  C23: A run that was inserted into the SQLite database is read back as it was, field by field,
  through its text columns, and a second insertion under its id is a conflict.
\<close>
lemma sqlite_insert_get:
  assumes "sql_inv E okt okv s" "run_ok okt okv r" "v_runs (sql_view E s) (x_uuid_str E (r_run_id r)) = None"
  shows "row_to_run E (run_to_row E r) = Inr r \<and>
    (\<exists>s'. sql_insert_run E no_fault r s = (Ok (), s') \<and>
      sql_get_run E no_fault (x_uuid_str E (r_run_id r)) s' = (Ok r, s') \<and>
      sql_insert_run E no_fault r s' = (Err (Conflict (x_uuid_str E (r_run_id r))), s'))"
  using sq.insert_then_get [OF assms] row_to_run_to_row [OF sql_inv_parts(1) [OF assms(1)] assms(2)] by simp

lemma sqlite_insert_get_witness:
  "\<exists>s'. sql_insert_run sample_ext no_fault sample_due (sample_sqlite []) = (Ok (), s') \<and>
    sql_get_run sample_ext no_fault ''u'' s' = (Ok sample_due, s')"
proof -
  have "runs_rep sample_ext sample_okt sample_okv []" by (simp add: runs_rep_def)
  then have "sql_inv sample_ext sample_okt sample_okv (sample_sqlite [])" by (rule sample_sqlite_inv)
  moreover have "run_ok sample_okt sample_okv sample_due" "x_uuid_str sample_ext (r_run_id sample_due) = ''u''"
    using sample_due_store(1,2) by (simp_all add: runs_rep_def run_key_def)
  moreover have "v_runs (sql_view sample_ext (sample_sqlite [])) ''u'' = None"
    by (simp add: sql_view_def tables_view_def sample_sqlite_def Let_def)
  ultimately show ?thesis using sqlite_insert_get by metis
qed

end
