(* ===== verification/Leyla_Main.thy ===== *)
theory Leyla_Main
  imports Sqlite_Clients Cli_Daemon
begin

section \<open>One invocation of the command line (leyla-cli/src/main.rs)\<close>

text \<open>
  \<open>main\<close> after clap has parsed the arguments: the data directory, the database file, the
  migration, and the handler of the command. The state is that of the process (\<open>sys\<close>, whose
  store is the one opened here) and that of the operating system.
\<close>

datatype command =
    CmdJob job_action
  | CmdRun run_action
  | CmdDoctor
  | CmdRecover
  | CmdDaemon daemon_action

text \<open>\<open>Display\<close> of \<open>StoreError\<close>\<close>

definition show_store_error :: "store_error \<Rightarrow> string" where
  "show_store_error e = (case e of
      NotFound s \<Rightarrow> ''not found: '' @ s | Conflict s \<Rightarrow> ''conflict: '' @ s | Internal s \<Rightarrow> ''internal: '' @ s)"

text \<open>The handler of a command; the daemon's handler works on the operating system.\<close>

definition dispatch_command_line ::
  "'j ext \<Rightarrow> 'j cli_ext \<Rightarrow> (nat \<Rightarrow> nat \<Rightarrow> nat \<Rightarrow> bool \<Rightarrow> string + string) \<Rightarrow> ('s, 'j) store_ops \<Rightarrow> bool \<Rightarrow> command \<Rightarrow>
    's sys \<times> os \<Rightarrow> ((cli_error, unit) outcome \<times> 's sys \<times> os) option" where
  "dispatch_command_line E X report S json cmd = (\<lambda>(w, os). case cmd of
      CmdJob action \<Rightarrow> Some (case handle_job E X S json action w of (r, w') \<Rightarrow> (r, w', os))
    | CmdRun action \<Rightarrow> Some (case handle_run E X S json action w of (r, w') \<Rightarrow> (r, w', os))
    | CmdDoctor \<Rightarrow> Some (case handle_doctor S report os json w of (r, w') \<Rightarrow> (r, w', os))
    | CmdRecover \<Rightarrow> Some (case handle_recover E S w of (r, w') \<Rightarrow> (r, w', os))
    | CmdDaemon action \<Rightarrow> map_option (\<lambda>(r, os'). (r, w, os')) (handle_daemon action os))"

text \<open>
  \<open>file\<close> is what opening the database file gives, \<open>plans\<close> the orders its queries deliver rows
  in; \<open>None\<close> is an invocation that does not return.
\<close>

record query_plans =
  qp_jobs :: "db_job list \<Rightarrow> db_job list"
  qp_runs :: "db_run list \<Rightarrow> db_run list"
  qp_dead :: "db_dead list \<Rightarrow> db_dead list"

definition open_database ::
  "faults \<Rightarrow> string + sql_tables \<Rightarrow> query_plans \<Rightarrow> os \<Rightarrow> (cli_error, sqlite_store) outcome" where
  "open_database flt file plans os = (case home_dir os of
      None \<Rightarrow> Err (CliMsg ''Cannot determine home directory'')
    | Some h \<Rightarrow> (case mkdir_error os (join_path h ''.leyla'') of
        Some e \<Rightarrow> Err (CliMsg e)
      | None \<Rightarrow> (case sqlite_open flt file (qp_jobs plans) (qp_runs plans) (qp_dead plans) of
          Err e \<Rightarrow> Err (CliMsg (show_store_error e))
        | Panic \<Rightarrow> Panic
        | Ok store \<Rightarrow> (case sql_migrate flt store of
            (Ok _, store') \<Rightarrow> Ok store' | (Err e, _) \<Rightarrow> Err (CliStore e) | (Panic, _) \<Rightarrow> Panic))))"

definition leyla_main ::
  "'j ext \<Rightarrow> 'j cli_ext \<Rightarrow> (nat \<Rightarrow> nat \<Rightarrow> nat \<Rightarrow> bool \<Rightarrow> string + string) \<Rightarrow> faults \<Rightarrow> string + sql_tables \<Rightarrow> query_plans \<Rightarrow>
    bool \<Rightarrow> command \<Rightarrow> sqlite_store sys \<times> os \<Rightarrow> ((cli_error, unit) outcome \<times> sqlite_store sys \<times> os) option" where
  "leyla_main E X report flt file plans json cmd = (\<lambda>(w, os).
    case open_database flt file plans os of
      Err e \<Rightarrow> Some (Err e, w, os)
    | Panic \<Rightarrow> Some (Panic, w, os)
    | Ok store \<Rightarrow> dispatch_command_line E X report (sqlite_ops E flt) json cmd (w\<lparr>db := store\<rparr>, os))"

subsection \<open>The database a process opens\<close>

definition query_plans_ok :: "query_plans \<Rightarrow> bool" where
  "query_plans_ok p \<longleftrightarrow> (\<forall>xs. mset (qp_jobs p xs) = mset xs) \<and> (\<forall>xs. mset (qp_runs p xs) = mset xs) \<and>
    (\<forall>xs. mset (qp_dead p xs) = mset xs)"

text \<open>Tables that exist are kept, the others are created empty.\<close>

definition migrated :: "sql_tables \<Rightarrow> sql_tables" where
  "migrated d = \<lparr>t_jobs = Some (case t_jobs d of Some rows \<Rightarrow> rows | None \<Rightarrow> []),
     t_runs = Some (case t_runs d of Some rows \<Rightarrow> rows | None \<Rightarrow> []),
     t_dead = Some (case t_dead d of Some rows \<Rightarrow> rows | None \<Rightarrow> [])\<rparr>"

lemma migrate_free:
  assumes "\<not> poisoned m" "\<not> in_txn (guarded m)"
  shows "sql_migrate no_fault m = (Ok (), m\<lparr>guarded := with_tables (guarded m) (migrated (work (guarded m)))\<rparr>)"
proof -
  obtain d where d: "work (guarded m) = d" by simp
  have "for_each (\<lambda>stmt _. internal (sql_exec no_fault stmt))
      [create_jobs, create_runs, create_index, create_index, create_index, create_dead] () (guarded m, 0) =
    (Ok (), (with_tables (guarded m) (migrated d), 6))"
    by (cases "t_jobs d"; cases "t_runs d"; cases "t_dead d"; cases d)
      (simp_all add: exec_step create_jobs_def create_runs_def create_index_def create_dead_def d assms(2)
        migrated_def with_tables_def)
  then show ?thesis
    unfolding sql_migrate_def d by (intro sqlite_op_changed [OF assms(1)]) simp_all
qed

lemma migrated_ok:
  assumes "\<And>rows. t_jobs d = Some rows \<Longrightarrow> jobs_rep E okt okv rows"
    and "\<And>rows. t_runs d = Some rows \<Longrightarrow> \<exists>rs. rows = map (run_to_row E) rs \<and> runs_rep E okt okv rs"
    and "\<And>rows. t_dead d = Some rows \<Longrightarrow> dead_rep E rows"
  shows "tables_ok E okt okv (migrated d)"
proof -
  have "jobs_rep E okt okv []" "runs_rep E okt okv []" "dead_rep E []"
    by (simp_all add: jobs_rep_def runs_rep_def dead_rep_def)
  then show ?thesis
    using assms by (force simp: tables_ok_def migrated_def split: option.split)
qed

lemma migrated_idem: "migrated (migrated d) = migrated d"
  by (simp add: migrated_def)

lemma migrated_view: "tables_view E (migrated d) = tables_view E d"
  by (simp add: tables_view_def migrated_def split: option.split)

text \<open>A database file whose tables, as far as they exist, hold representable rows.\<close>

definition file_ok :: "'j ext \<Rightarrow> (time \<Rightarrow> bool) \<Rightarrow> ('j \<Rightarrow> bool) \<Rightarrow> sql_tables \<Rightarrow> bool" where
  "file_ok E okt okv d \<longleftrightarrow> tables_ok E okt okv (migrated d)"

lemma open_database_Ok:
  assumes "home_dir os = Some h" "mkdir_error os (join_path h ''.leyla'') = None"
  shows "\<exists>store. open_database no_fault (Inr d) plans os = (Ok store :: (cli_error, sqlite_store) outcome) \<and>
    \<not> poisoned store \<and> guarded store = \<lparr>work = migrated d, committed = migrated d, in_txn = False,
      plan_jobs = qp_jobs plans, plan_runs = qp_runs plans, plan_dead = qp_dead plans\<rparr>"
proof -
  let ?c = "\<lparr>work = d, committed = d, in_txn = False, plan_jobs = qp_jobs plans, plan_runs = qp_runs plans,
    plan_dead = qp_dead plans\<rparr>"
  have "sqlite_open no_fault (Inr d) (qp_jobs plans) (qp_runs plans) (qp_dead plans) = Ok (new_mutex ?c)"
    by (simp add: sqlite_open_def map_err_def sql_exec_def no_fault_simp)
  moreover have "sql_migrate no_fault (new_mutex ?c) =
      (Ok (), (new_mutex ?c)\<lparr>guarded := with_tables ?c (migrated d)\<rparr>)"
    using migrate_free [of "new_mutex ?c"] by simp
  ultimately show ?thesis
    using assms by (simp add: open_database_def with_tables_def)
qed

text \<open>
  C34: Opening a database file and migrating it gives a store that satisfies the invariant of
  the SQLite store and holds what the file held (nothing, if it was new); opening what the
  migration has left changes nothing more.
\<close>
lemma open_database_spec:
  assumes "home_dir os = Some h" "mkdir_error os (join_path h ''.leyla'') = None"
    and "sql_codec E okt okv" "file_ok E okt okv d" "query_plans_ok plans"
  shows "\<exists>store. open_database no_fault (Inr d) plans os = Ok store \<and> sql_inv E okt okv store \<and>
    sql_view E store = tables_view E d \<and>
    open_database no_fault (Inr (committed (guarded store))) plans os = Ok store"
proof -
  obtain store where s: "open_database no_fault (Inr d) plans os = Ok store" "\<not> poisoned store"
      "guarded store = \<lparr>work = migrated d, committed = migrated d, in_txn = False, plan_jobs = qp_jobs plans,
        plan_runs = qp_runs plans, plan_dead = qp_dead plans\<rparr>"
    using open_database_Ok [OF assms(1,2), of d plans] by blast
  obtain store' where s': "open_database no_fault (Inr (migrated d)) plans os = Ok store'" "\<not> poisoned store'"
      "guarded store' = guarded store"
    using open_database_Ok [OF assms(1,2), of "migrated d" plans] by (auto simp: migrated_idem s(3))
  have "store' = store" using s(2,3) s'(2,3) by (intro mutex.equality) simp_all
  moreover have "sql_inv E okt okv store"
    using assms(3-5) s(2) by (simp add: sql_inv_def s(3) plans_ok_def query_plans_ok_def file_ok_def)
  moreover have "sql_view E store = tables_view E d"
    by (simp add: sql_view_def s(3) migrated_view)
  ultimately show ?thesis using s(1) s'(1) by (simp add: s(3))
qed

text \<open>The sample store as a file, with its queries in table order.\<close>

definition sample_file :: "run_status \<Rightarrow> sql_tables" where
  "sample_file st = work (guarded (sample_sqlite [sample_run 1 st 3]))"

definition sample_plans :: query_plans where
  "sample_plans = \<lparr>qp_jobs = (\<lambda>xs. xs), qp_runs = (\<lambda>xs. xs), qp_dead = (\<lambda>xs. xs)\<rparr>"

lemma sample_file_ok:
  "file_ok sample_ext sample_okt sample_okv (sample_file st)" "query_plans_ok sample_plans"
  "tables_view sample_ext (sample_file st) = \<lparr>v_jobs = Map.empty, v_runs = [''u'' \<mapsto> sample_run 1 st 3], v_dead = []\<rparr>"
proof -
  note inv = sample_sqlite_inv [OF sample_one_rep, of st 3]
  have "migrated (sample_file st) = sample_file st"
    by (simp add: sample_file_def migrated_def sample_sqlite_def Let_def)
  with sql_inv_parts(6) [OF inv] show "file_ok sample_ext sample_okt sample_okv (sample_file st)"
    by (simp add: file_ok_def sample_file_def)
  show "query_plans_ok sample_plans" by (simp add: query_plans_ok_def sample_plans_def)
  have "tables_view sample_ext (sample_file st) = sql_view sample_ext (sample_sqlite [sample_run 1 st 3])"
    by (simp add: sql_view_def sample_file_def)
  then show "tables_view sample_ext (sample_file st) =
      \<lparr>v_jobs = Map.empty, v_runs = [''u'' \<mapsto> sample_run 1 st 3], v_dead = []\<rparr>"
    using sample_agree [of st 3] by (simp add: agree_def sample_runs_store sample_run_fields)
qed

lemma sample_os_home:
  "home_dir sample_os = Some ''/home/u''" "mkdir_error sample_os (join_path ''/home/u'' ''.leyla'') = None"
  by (simp_all add: sample_os_def)

lemma open_database_spec_witness:
  "\<exists>store. open_database no_fault (Inr (sample_file Leased)) sample_plans sample_os = Ok store \<and>
    v_runs (sql_view sample_ext store) ''u'' = Some (sample_run 1 Leased 3)"
  using open_database_spec [OF sample_os_home sample_codec sample_file_ok(1,2), of Leased]
  by (auto simp: sample_file_ok(3))

text \<open>
  C33: \<open>leyla run retry\<close>, from the arguments to the database file: if the run is \<open>Failed\<close>,
  \<open>DeadLetter\<close> or \<open>Cancelled\<close>, the process succeeds and leaves a file that differs from the one it
  found in this run only, which is \<open>Scheduled\<close> again; the next process can open it.
\<close>
lemma main_run_retry:
  assumes "home_dir os = Some h" "mkdir_error os (join_path h ''.leyla'') = None"
    and "sql_codec E okt okv" "file_ok E okt okv d" "query_plans_ok plans" "utc_ok okt w"
    and "v_runs (tables_view E d) k = Some r" "r_status r \<in> {Failed, DeadLetter, Cancelled}"
  shows "\<exists>w' t. leyla_main E X report no_fault (Inr d) plans json (CmdRun (RunRetry k)) (w, os) = Some (Ok (), w', os) \<and>
    file_ok E okt okv (committed (guarded (db w'))) \<and>
    tables_view E (committed (guarded (db w'))) = (tables_view E d)\<lparr>v_runs := (v_runs (tables_view E d))
      (k \<mapsto> r\<lparr>r_status := Scheduled, r_updated_at := t\<rparr>)\<rparr>"
proof -
  obtain store where s: "open_database no_fault (Inr d) plans os = Ok store" "sql_inv E okt okv store"
      "sql_view E store = tables_view E d"
    using open_database_spec [OF assms(1-5)] by blast
  let ?w = "w\<lparr>db := store\<rparr>"
  have "sql_inv E okt okv (db ?w)" "utc_ok okt ?w" using s(2) assms(6) by (simp_all add: utc_ok_def)
  from leyla_store.run_retry_effect [OF sq.leyla_store_axioms this, of k]
  obtain w' t where w': "run_retry (sqlite_ops E no_fault) k ?w = (Ok (), w')" "sql_inv E okt okv (db w')"
      "sql_view E (db w') = (sql_view E (db ?w))\<lparr>v_runs := (v_runs (sql_view E (db ?w)))
        (k \<mapsto> r\<lparr>r_status := Scheduled, r_updated_at := t\<rparr>)\<rparr>"
    using assms(7,8) by (auto simp: s(3))
  have "leyla_main E X report no_fault (Inr d) plans json (CmdRun (RunRetry k)) (w, os) = Some (Ok (), w', os)"
    by (simp add: leyla_main_def dispatch_command_line_def handle_run_def s(1) w'(1))
  moreover have saved: "committed (guarded (db w')) = work (guarded (db w'))"
    by (rule sql_inv_parts(4) [OF w'(2)])
  have "migrated (work (guarded (db w'))) = work (guarded (db w'))"
    using sql_inv_parts(6) [OF w'(2)] by (cases "work (guarded (db w'))") (auto simp: tables_ok_def migrated_def)
  then have "file_ok E okt okv (committed (guarded (db w')))"
    using sql_inv_parts(6) [OF w'(2)] by (simp add: file_ok_def saved)
  moreover have "tables_view E (committed (guarded (db w'))) = (tables_view E d)\<lparr>v_runs := (v_runs (tables_view E d))
      (k \<mapsto> r\<lparr>r_status := Scheduled, r_updated_at := t\<rparr>)\<rparr>"
    using w'(3) by (simp add: sql_view_def saved s(3) [unfolded sql_view_def])
  ultimately show ?thesis by blast
qed

lemma main_run_retry_witness:
  "\<exists>w' t. leyla_main sample_ext sample_cli_ext (\<lambda>_ _ _ _. Inr ''{}'') no_fault (Inr (sample_file Failed)) sample_plans False
      (CmdRun (RunRetry ''u'')) (sample_sys (sample_sqlite []), sample_os) = Some (Ok (), w', sample_os) \<and>
    v_runs (tables_view sample_ext (committed (guarded (db w')))) ''u'' =
      Some ((sample_run 1 Failed 3)\<lparr>r_status := Scheduled, r_updated_at := t\<rparr>)"
proof -
  have "utc_ok sample_okt (sample_sys (sample_sqlite []))" by (simp add: utc_ok_def sample_sys_def)
  moreover have "v_runs (tables_view sample_ext (sample_file Failed)) ''u'' = Some (sample_run 1 Failed 3)"
    "r_status (sample_run 1 Failed 3) \<in> {Failed, DeadLetter, Cancelled}"
    by (simp_all add: sample_file_ok(3) sample_run_fields)
  ultimately obtain w' t where "leyla_main sample_ext sample_cli_ext (\<lambda>_ _ _ _. Inr ''{}'') no_fault (Inr (sample_file Failed))
      sample_plans False (CmdRun (RunRetry ''u'')) (sample_sys (sample_sqlite []), sample_os) = Some (Ok (), w', sample_os)"
    "tables_view sample_ext (committed (guarded (db w'))) = (tables_view sample_ext (sample_file Failed))\<lparr>v_runs :=
      (v_runs (tables_view sample_ext (sample_file Failed)))
        (''u'' \<mapsto> (sample_run 1 Failed 3)\<lparr>r_status := Scheduled, r_updated_at := t\<rparr>)\<rparr>"
    using main_run_retry [OF sample_os_home sample_codec sample_file_ok(1,2)] by blast
  then show ?thesis by (intro exI [of _ w'] exI [of _ t]) simp
qed

end
