(* ===== verification/Leyla_System.thy ===== *)
theory Leyla_System
  imports Cli_Daemon
begin

section \<open>The whole system: what no sequence of operations can do to the runs\<close>

text \<open>
  The engine's ticks, its methods, the commands of the command line and the movements of the
  fake clock as one step relation on \<open>sys\<close>, in any order and however each ends. The locale
  \<open>run_keeper\<close> is what a store promises about the runs it holds (\<open>I\<close>), for the runs that are
  inserted (\<open>G\<close>) and the patches that are applied (\<open>A\<close>, both of the locale \<open>run_policy\<close>); inside it every operation of the
  program, hence every reachable state, is shown to keep \<open>I\<close>.
\<close>

subsection \<open>Steps\<close>

inductive sys_step ::
  "'j ext \<Rightarrow> 'j cli_ext \<Rightarrow> (nat \<Rightarrow> nat \<Rightarrow> nat \<Rightarrow> bool \<Rightarrow> string + string) \<Rightarrow> ('s, 'j) engine \<Rightarrow> 's sys \<Rightarrow> 's sys \<Rightarrow> bool"
  for E X report e where
  poll: "sys_step E X report e w (snd (poll_tick E e w))"
| recovery: "sys_step E X report e w (snd (recovery_tick E e w))"
| stop: "sys_step E X report e w (snd (engine_stop w :: (store_error, unit) outcome \<times> 's sys))"
| schedule: "sys_step E X report e w (snd (engine_schedule e job w))"
| unschedule: "sys_step E X report e w (snd (engine_unschedule e jid w))"
| pause: "sys_step E X report e w (snd (engine_pause e jid w))"
| resume: "sys_step E X report e w (snd (engine_resume e jid w))"
| trigger: "sys_step E X report e w (snd (engine_trigger E e jid input w))"
| get_job: "sys_step E X report e w (snd (engine_get_job e jid w))"
| list_jobs: "sys_step E X report e w (snd (engine_list_jobs e w))"
| get_run: "sys_step E X report e w (snd (engine_get_run e rid w))"
| list_runs: "sys_step E X report e w (snd (engine_list_runs e f w))"
| job_command: "sys_step E X report e w (snd (handle_job E X (e_store e) json ja w))"
| run_command: "sys_step E X report e w (snd (handle_run E X (e_store e) json ra w))"
| recover_command: "sys_step E X report e w (snd (handle_recover E (e_store e) w))"
| doctor_command: "sys_step E X report e w (snd (handle_doctor (e_store e) report os json w))"
| clock_set: "sys_step E X report e w (w\<lparr>fake_clock := snd (fake_clock_set t (fake_clock w) :: (store_error, unit) outcome \<times> _)\<rparr>)"
| clock_advance: "sys_step E X report e w (w\<lparr>fake_clock := snd (fake_clock_advance E delta (fake_clock w) :: (store_error, unit) outcome \<times> _)\<rparr>)"

text \<open>
  \<open>es\<close> are the engines that take the steps, each with its configuration and its store (the faults
  of a SQLite store may so differ from step to step).
\<close>

inductive reachable ::
  "'j ext \<Rightarrow> 'j cli_ext \<Rightarrow> (nat \<Rightarrow> nat \<Rightarrow> nat \<Rightarrow> bool \<Rightarrow> string + string) \<Rightarrow> ('s, 'j) engine set \<Rightarrow> 's sys \<Rightarrow> 's sys \<Rightarrow> bool"
  for E X report es w where
  start: "reachable E X report es w w"
| step: "reachable E X report es w w' \<Longrightarrow> e \<in> es \<Longrightarrow> sys_step E X report e w' w'' \<Longrightarrow> reachable E X report es w w''"

lemma reachable_one: "e \<in> es \<Longrightarrow> sys_step E X report e w w' \<Longrightarrow> reachable E X report es w w'"
  by (rule reachable.step [OF reachable.start])

lemma reachable_invariant:
  assumes "reachable E X report es w w'"
    and "\<And>e w w'. e \<in> es \<Longrightarrow> sys_step E X report e w w' \<Longrightarrow> J w \<Longrightarrow> J w'"
    and "J w"
  shows "J w'"
  using assms(1) by induction (auto intro: assms(2,3))

subsection \<open>Preservation on the state of the process\<close>

lemma triple_on_db:
  "triple P m Q R \<Longrightarrow> triple (\<lambda>w. P (db w)) (on_db m) (\<lambda>x w. Q x (db w)) (\<lambda>w. R (db w))"
  unfolding triple_def on_db_def by (fastforce split: prod.splits outcome.splits)

lemma preserves_println [preserve_intros]:
  "preserves (\<lambda>w. P (db w)) (println l)" "preserves (\<lambda>w. P (db w)) (print_lines ls)"
  by (simp_all add: preserves_def println_def print_lines_def)

lemma preserves_print_json [preserve_intros]: "preserves (\<lambda>w. P (db w)) (print_json r)"
  unfolding print_json_def by (cases r) (auto intro: preserve_intros)

lemma preserves_warn [preserve_intros]: "preserves I m \<Longrightarrow> preserves I (warn_on_err m)"
  unfolding preserves_def warn_on_err_def by (force split: prod.splits outcome.splits)

lemma preserves_found [preserve_intros]: "preserves I m \<Longrightarrow> preserves I (found m)"
  unfolding preserves_def found_def by (force split: prod.splits outcome.splits store_error.splits)

lemma preserves_clock [preserve_intros]:
  "preserves (\<lambda>w. P (db w)) (clock_now c :: ('s sys, store_error, time) prog)"
  by (rule clk.now_preserves)

text \<open>An invariant of what a mutex guards is one of the operations under its lock.\<close>

lemma with_lock_inv: "preserves J f \<Longrightarrow> preserves (\<lambda>m. J (guarded m)) (with_lock f)"
  by (auto simp: preserves_def with_lock_def split: prod.splits)

lemma with_lock_triple:
  fixes f :: "('s, 'e, 'a) prog"
  assumes "triple J f (\<lambda>x g. J g \<and> Q x) J"
  shows "triple (\<lambda>m. J (guarded m)) (with_lock f) (\<lambda>x m. J (guarded m) \<and> Q x) (\<lambda>m. J (guarded m))"
proof (rule tripleI)
  fix m :: "'s mutex"
  assume m: "J (guarded m)"
  obtain o' g where f: "f (guarded m) = (o', g)" by force
  have "case (o', g) of (Ok x, w') \<Rightarrow> J w' \<and> Q x | (_, w') \<Rightarrow> J w'"
    using spec [OF assms [unfolded triple_def], of "guarded m"] m f by simp
  then show "case with_lock f m of (Ok x, w') \<Rightarrow> J (guarded w') \<and> Q x | (_, w') \<Rightarrow> J (guarded w')"
    using m f by (cases o') (simp_all add: with_lock_def)
qed

text \<open>A program whose result satisfies \<open>Q\<close>, followed by one that relies on it.\<close>

lemma preserves_andthen_post:
  assumes "triple I m (\<lambda>x w. I w \<and> Q x) I" and "\<And>x. Q x \<Longrightarrow> preserves I (f x)"
  shows "preserves I (andthen m f)"
  unfolding triple_preserves
proof (rule triple_andthen [OF assms(1)])
  fix x show "triple (\<lambda>w. I w \<and> Q x) (f x) (\<lambda>_. I) I"
    using assms(2) [of x] unfolding triple_preserves by (auto simp: triple_def)
qed

subsection \<open>What a store promises about its runs\<close>

text \<open>
  Which runs may be inserted and which patches applied: what the program itself needs of them.
\<close>

locale run_policy =
  fixes G :: "'j job_run \<Rightarrow> bool"
    and A :: "'j run_patch \<Rightarrow> bool"
  assumes fresh_run: "G (job_run_new_scheduled t u jid due m)"
    and fresh_input: "G r \<Longrightarrow> G (r\<lparr>r_input_json := x\<rparr>)"
    and may_schedule: "A (status_patch Scheduled)"
    and may_release: "A (release_patch t)"
    and may_cancel: "A (cancel_patch t)"
    and may_orphan: "G r \<Longrightarrow> r_status r = Running \<Longrightarrow> A (status_patch Orphaned) \<and> A (status_patch DeadLetter)"

locale run_keeper = run_policy G A
  for G :: "'j job_run \<Rightarrow> bool" and A :: "'j run_patch \<Rightarrow> bool" +
  fixes S :: "('s, 'j) store_ops"
    and I :: "'s \<Rightarrow> bool"
  assumes keeps_upsert: "preserves I (op_upsert_job S j)"
    and keeps_get_job: "preserves I (op_get_job S jid)"
    and keeps_list_jobs: "preserves I (op_list_jobs S)"
    and keeps_remove: "preserves I (op_remove_job S jid)"
    and keeps_insert: "G r \<Longrightarrow> preserves I (op_insert_run S r)"
    and keeps_claim: "preserves I (op_claim_due_runs S now owner n)"
    and keeps_update: "A p \<Longrightarrow> preserves I (op_update_run S now rid p)"
    and keeps_get_run: "preserves I (op_get_run S rid)"
    and keeps_list_runs: "preserves I (op_list_runs S f)"
    and keeps_stale: "triple I (op_get_stale_runs S now thr) (\<lambda>rs s. I s \<and> (\<forall>r\<in>set rs. G r)) I"
    and keeps_dead: "preserves I (op_get_dead_letters S)"
begin

abbreviation held :: "'s sys \<Rightarrow> bool" where "held w \<equiv> I (db w)"

lemmas store_keeps = keeps_upsert keeps_get_job keeps_list_jobs keeps_remove keeps_claim keeps_get_run
  keeps_list_runs keeps_dead

lemma on_db_keeps: "preserves I m \<Longrightarrow> preserves held (on_db m)"
  by (rule preserves_on_db)

lemma update_keeps: "A p \<Longrightarrow> preserves held (store_update_run S rid p)"
  unfolding store_update_run_def by (intro preserves_andthen preserves_utc_now on_db_keeps keeps_update)

lemma new_run_post:
  "triple held (new_scheduled_run jid due m) (\<lambda>r w. held w \<and> G r) held"
  by (simp add: triple_def new_scheduled_run_simp fresh_run split: prod.split)

lemma insert_keeps: "G r \<Longrightarrow> preserves held (on_db (op_insert_run S r))"
  by (intro on_db_keeps keeps_insert)

lemma materialize_job_keeps: "preserves held (materialize_job E S now j n)"
  unfolding materialize_job_def
  by (intro preserves_if preserves_ret preserves_case_option preserves_andthen_post [OF new_run_post]
      preserves_andthen preserves_lift insert_keeps on_db_keeps store_keeps)

lemma materialize_keeps: "dm_store m = S \<Longrightarrow> preserves held (materialize E m)"
  unfolding materialize_def
  by (intro preserves_andthen preserves_clock preserves_for_each)
    (simp_all add: on_db_keeps store_keeps materialize_job_keeps)

lemma recover_stale_run_keeps: "G r \<Longrightarrow> preserves held (recover_stale_run E S now r n)"
  unfolding recover_stale_run_def Let_def
  by (intro preserves_if preserves_andthen preserves_ret update_keeps may_schedule may_release)
    (simp_all add: may_orphan)

lemma recover_retry_run_keeps: "preserves held (recover_retry_run E S now r n)"
  unfolding recover_retry_run_def
  by (intro preserves_if preserves_andthen preserves_lift preserves_ret update_keeps may_schedule)

lemma recover_keeps:
  assumes "rm_store m = S"
  shows "preserves held (recover E m)"
  unfolding recover_def assms
  by (intro preserves_andthen preserves_clock preserves_andthen_post [OF triple_on_db [OF keeps_stale]]
      preserves_for_each recover_stale_run_keeps recover_retry_run_keeps on_db_keeps store_keeps) blast

lemma poll_tick_keeps: "e_store e = S \<Longrightarrow> preserves held (poll_tick E e)"
  unfolding poll_tick_def claim_batch_def
  by (intro preserves_andthen preserves_warn preserves_clock materialize_keeps)
    (simp_all add: engine_materializer_def engine_lease_manager_def lease_manager_new_def on_db_keeps store_keeps)

lemma recovery_tick_keeps: "e_store e = S \<Longrightarrow> preserves held (recovery_tick E e)"
  unfolding recovery_tick_def
  by (intro preserves_warn recover_keeps) (simp add: engine_recovery_manager_def)

lemma trigger_keeps: "e_store e = S \<Longrightarrow> preserves held (engine_trigger E e jid x)"
  unfolding engine_trigger_def Let_def
  by (intro preserves_andthen preserves_clock preserves_andthen_post [OF new_run_post] preserves_ret)
    (simp_all add: on_db_keeps store_keeps insert_keeps fresh_input)

lemma methods_keep:
  assumes "e_store e = S"
  shows "preserves held (engine_schedule e j)" "preserves held (engine_unschedule e jid)"
    "preserves held (engine_pause e jid)" "preserves held (engine_resume e jid)"
    "preserves held (engine_get_job e jid)" "preserves held (engine_list_jobs e)"
    "preserves held (engine_get_run e rid)" "preserves held (engine_list_runs e f)"
  unfolding engine_schedule_def engine_unschedule_def engine_pause_def engine_resume_def engine_get_job_def
    engine_list_jobs_def engine_get_run_def engine_list_runs_def assms
  by (intro preserves_andthen preserves_found on_db_keeps store_keeps)+

lemma job_command_keeps: "preserves held (handle_job E X S json a)"
  unfolding handle_job_def job_add_def set_enabled_def Let_def
  by (cases a)
    (simp_all, (intro preserves_andthen preserves_lift preserves_case_option preserves_fail preserves_utc_now
      preserves_map_err preserves_if preserves_print_json preserves_println on_db_keeps store_keeps)+)

lemma print_runs_table_keeps: "preserves held (print_runs_table E X rs)"
  unfolding print_runs_table_def by (intro preserve_intros)

lemma run_trigger_keeps: "preserves held (run_trigger E S json jid)"
  unfolding run_trigger_def Let_def
  by (intro preserves_andthen preserves_map_err on_db_keeps store_keeps preserves_utc_now
      preserves_andthen_post [OF new_run_post] keeps_insert preserves_if preserves_println)

lemma run_retry_keeps: "preserves held (run_retry S rid)"
  unfolding run_retry_def
  by (intro preserves_andthen preserves_map_err preserves_if preserves_fail preserves_println update_keeps
      may_schedule on_db_keeps store_keeps)

lemma run_cancel_keeps: "preserves held (run_cancel S rid)"
  unfolding run_cancel_def
  by (intro preserves_andthen preserves_map_err preserves_if preserves_fail preserves_println preserves_utc_now
      update_keeps may_cancel on_db_keeps store_keeps)

lemma run_list_keeps: "preserves held (run_list E X S json job status limit)"
  unfolding run_list_def
  by (intro preserves_andthen preserves_case_option preserves_ret preserves_fail preserves_map_err preserves_if
      preserves_print_json print_runs_table_keeps on_db_keeps store_keeps)

lemma run_command_keeps: "preserves held (handle_run E X S json a)"
proof (cases a)
  case (RunInspect rid)
  show ?thesis
    unfolding handle_run_def RunInspect run_action.case
    by (intro preserves_andthen preserves_map_err preserves_if preserves_print_json preserves_println
        on_db_keeps store_keeps)
qed (simp_all add: handle_run_def run_trigger_keeps run_retry_keeps run_cancel_keeps run_list_keeps)

lemma recover_command_keeps: "preserves held (handle_recover E S)"
  unfolding handle_recover_def
  by (intro preserves_andthen preserves_map_err recover_keeps preserves_println) simp

lemma stale_keeps: "preserves I (op_get_stale_runs S now thr)"
  unfolding triple_preserves by (rule triple_weaken [OF keeps_stale]) simp_all

lemma doctor_command_keeps: "preserves held (handle_doctor S report os json)"
  unfolding handle_doctor_def Let_def
  by (intro preserves_andthen preserves_map_err preserves_if preserves_print_json preserves_println
      preserves_utc_now on_db_keeps store_keeps stale_keeps)

text \<open>No step of the system breaks what the store promises.\<close>

lemma step_keeps: "sys_step E X report e w w' \<Longrightarrow> e_store e = S \<Longrightarrow> held w \<Longrightarrow> held w'"
  by (induction rule: sys_step.induct)
    (simp_all add: engine_stop_def preservesD [OF poll_tick_keeps] preservesD [OF recovery_tick_keeps]
      preservesD [OF trigger_keeps] methods_keep [THEN preservesD] preservesD [OF job_command_keeps]
      preservesD [OF run_command_keeps] preservesD [OF recover_command_keeps] preservesD [OF doctor_command_keeps])

lemma reachable_keeps:
  assumes "reachable E X report es w w'" "\<forall>e\<in>es. e_store e = S" "held w"
  shows "held w'"
  using assms(1) by (rule reachable_invariant) (use assms(2,3) step_keeps in blast)+

end

end
