(* ===== verification/Sqlite_Keeper.thy ===== *)
theory Sqlite_Keeper
  imports Leyla_System Sqlite_Store
begin

section \<open>Invariants of the tables, whatever statements fail\<close>

text \<open>
  The locale \<open>table_invariant\<close>: a property \<open>T\<close> of the tables that the writing statements of
  \<open>store/sqlite.rs\<close> keep is one that the store keeps, for every function of faults, with a
  transaction open or not, committed and rolled back (\<open>kept\<close>). So a \<open>table_invariant\<close> gives a
  \<open>run_keeper\<close>.
\<close>

definition plan_delivers :: "connection \<Rightarrow> bool" where
  "plan_delivers c \<longleftrightarrow> (\<forall>rows. set (plan_runs c rows) \<subseteq> set rows)"

definition kept :: "(sql_tables \<Rightarrow> bool) \<Rightarrow> connection \<Rightarrow> bool" where
  "kept T c \<longleftrightarrow> T (work c) \<and> T (committed c) \<and> plan_delivers c"

abbreviation "kept_at T \<equiv> (\<lambda>ci. kept T (fst ci))"

subsection \<open>Statements\<close>

lemma kept_roll_back: "kept T c \<Longrightarrow> kept T (roll_back c)"
  by (simp add: kept_def roll_back_def plan_delivers_def)

lemma kept_failed: "kept T c \<Longrightarrow> kept T (snd (failed e c))"
  by (cases e) (simp_all add: failed_def kept_roll_back)

lemma kept_failed_eq: "failed e c = (msg, c') \<Longrightarrow> kept T c \<Longrightarrow> kept T c'"
  using kept_failed [of T c e] by simp

lemma exec_keeps:
  assumes "\<And>d d'. T d \<Longrightarrow> f d = Inr d' \<Longrightarrow> T d'"
  shows "preserves (kept_at T) (sql_exec flt f)"
proof (rule preservesI)
  fix ci :: "connection \<times> nat"
  assume k: "kept T (fst ci)"
  obtain c i where ci: "ci = (c, i)" by force
  show "kept T (fst (snd (sql_exec flt f ci)))"
  proof (cases "flt i")
    case None
    then show ?thesis using k ci assms [of "work c"]
      by (cases "f (work c)") (simp_all add: sql_exec_def kept_def plan_delivers_def)
  next
    case (Some e)
    then show ?thesis using k ci kept_failed_eq by (cases "failed e c") (force simp: sql_exec_def)
  qed
qed

lemma query_keeps: "preserves (kept_at T) (sql_query flt f)"
  by (rule preservesI)
    (auto simp: sql_query_def kept_roll_back split: sum.splits option.splits sql_fault.splits prod.splits)

lemma query_row_keeps: "preserves (kept_at T) (sql_query_row flt f)"
  by (rule preservesI)
    (auto simp: sql_query_row_def split: sum.splits prod.splits dest: kept_failed_eq)

lemma kept_updates:
  "kept T c \<Longrightarrow> kept T (c\<lparr>in_txn := b\<rparr>)" "kept T c \<Longrightarrow> kept T (c\<lparr>in_txn := b, committed := work c\<rparr>)"
  by (simp_all add: kept_def plan_delivers_def)

lemma begin_keeps: "preserves (kept_at T) (sql_begin flt)"
  by (rule preservesI)
    (auto simp: sql_begin_def kept_updates split: option.splits prod.splits dest: kept_failed_eq)

lemma commit_keeps: "preserves (kept_at T) (sql_commit flt)"
  by (rule preservesI)
    (auto simp: sql_commit_def kept_updates split: option.splits prod.splits dest: kept_failed_eq)

lemma op_triple:
  assumes "triple (kept_at T) m (\<lambda>x ci. kept T (fst ci) \<and> Q x) (kept_at T)"
  shows "triple (\<lambda>s. kept T (guarded s)) (sqlite_op m) (\<lambda>x s. kept T (guarded s) \<and> Q x) (\<lambda>s. kept T (guarded s))"
  unfolding sqlite_op_def
proof (rule with_lock_triple, rule tripleI)
  fix c
  assume k: "kept T c"
  obtain r c' i where m: "m (c, 0) = (r, c', i)" by (cases "m (c, 0)")
  have "case m (c, 0) of (Ok x, w') \<Rightarrow> kept T (fst w') \<and> Q x | (_, w') \<Rightarrow> kept T (fst w')"
    using spec [OF assms [unfolded triple_def], of "(c, 0)"] k by simp
  then show "case (case m (c, 0) of (r, c', _) \<Rightarrow> (r, c')) of
      (Ok x, w') \<Rightarrow> kept T w' \<and> Q x | (_, w') \<Rightarrow> kept T w'"
    using m by (cases r) simp_all
qed

lemma op_keeps:
  assumes "preserves (kept_at T) m"
  shows "preserves (\<lambda>s. kept T (guarded s)) (sqlite_op m)"
  unfolding triple_preserves
  by (rule triple_weaken [OF op_triple [where Q = "\<lambda>_. True"]])
    (use assms in \<open>simp_all add: triple_preserves\<close>)

lemmas stmt_keeps = query_keeps query_row_keeps begin_keeps commit_keeps

text \<open>The rows of a query on the runs are rows of the table.\<close>

lemma select_runs_rows:
  "kept T c \<Longrightarrow> select_runs P c = Inr rows \<Longrightarrow>
    \<exists>rs. t_runs (work c) = Some rs \<and> set rows \<subseteq> set rs"
  unfolding select_runs_def map_inr_def table_of_def kept_def plan_delivers_def
  by (fastforce split: option.splits)

lemma fetch_all_decoded:
  "fetch_all dec rs e = Ok xs \<Longrightarrow> x \<in> set xs \<Longrightarrow> \<exists>r\<in>set rs. dec r = Inr x"
  by (induction dec rs e arbitrary: xs rule: fetch_all.induct) (fastforce split: sum.splits outcome.splits)+

subsection \<open>The locale\<close>

text \<open>The row updates of the program: a lease, and one column of a patch with \<open>updated_at\<close>.\<close>

definition row_update :: "'j ext \<Rightarrow> ('j run_patch \<Rightarrow> bool) \<Rightarrow> (db_run \<Rightarrow> db_run) \<Rightarrow> bool" where
  "row_update E A f \<longleftrightarrow> (\<exists>owner lend now. f = lease_row owner lend now) \<or>
    (\<exists>p g now. A p \<and> Some g \<in> set (patch_columns E p) \<and> f = (\<lambda>r. (g r)\<lparr>q_updated_at := now\<rparr>))"

lemma row_updates:
  "row_update E A (lease_row owner lend now)"
  "A p \<Longrightarrow> Some g \<in> set (patch_columns E p) \<Longrightarrow> row_update E A (\<lambda>r. (g r)\<lparr>q_updated_at := now\<rparr>)"
  unfolding row_update_def by blast+

locale table_invariant = run_policy G A
  for G :: "'j job_run \<Rightarrow> bool" and A :: "'j run_patch \<Rightarrow> bool" +
  fixes E :: "'j ext"
    and T :: "sql_tables \<Rightarrow> bool"
  assumes jobs_free: "T d \<Longrightarrow> T (d\<lparr>t_jobs := js\<rparr>)"
    and keeps_row: "T d \<Longrightarrow> t_runs d = Some rows \<Longrightarrow> G r \<Longrightarrow> T (d\<lparr>t_runs := Some (rows @ [run_to_row E r])\<rparr>)"
    and keeps_map: "T d \<Longrightarrow> t_runs d = Some rows \<Longrightarrow> row_update E A f \<Longrightarrow>
      T (d\<lparr>t_runs := Some (map (\<lambda>r. if P r then f r else r) rows)\<rparr>)"
    and decodes: "T d \<Longrightarrow> t_runs d = Some rows \<Longrightarrow> q \<in> set rows \<Longrightarrow> row_to_run E q = Inr r \<Longrightarrow> G r"
begin

lemma update_runs_keeps: "row_update E A f \<Longrightarrow> preserves (kept_at T) (sql_exec flt (update_runs P f))"
  by (rule exec_keeps)
    (auto simp: update_runs_def map_inr_def table_of_def keeps_map split: option.splits)

lemma claim_stmts_keeps: "preserves (kept_at T) (claim_stmts E flt now owner n)"
  unfolding claim_stmts_def claim_ids_def claim_update_def Let_def
  by (intro preserves_andthen preserves_lift preserves_map_err preserves_for_each preserves_if preserves_ret
      preserves_fail preserves_case_prod stmt_keeps update_runs_keeps row_updates)

lemma update_stmts_keeps: "A p \<Longrightarrow> preserves (kept_at T) (update_stmts E flt now rid p)"
  unfolding update_stmts_def upd_def Let_def
  by (intro preserves_andthen preserves_map_err preserves_for_each preserves_if preserves_ret
      preserves_fail preserves_case_option stmt_keeps update_runs_keeps row_updates)
    simp_all

lemma remove_op_keeps:
  "preserves (kept_at T) (\<lambda>(c, i). andthen (internal (sql_exec flt (\<lambda>d. map_inr
      (\<lambda>rows. d\<lparr>t_jobs := Some (filter P rows)\<rparr>) (table_of ''jobs'' (t_jobs d))))) (\<lambda>_.
     if n c then fail e else ret ()) (c, i))"
proof (rule preservesI, clarify)
  fix c :: connection and i :: nat
  assume k: "kept T (fst (c, i))"
  have "preserves (kept_at T) (andthen (internal (sql_exec flt (\<lambda>d. map_inr
      (\<lambda>rows. d\<lparr>t_jobs := Some (filter P rows)\<rparr>) (table_of ''jobs'' (t_jobs d))))) (\<lambda>_.
     if b then fail e else ret ()))" for b
    by (intro preserves_andthen preserves_map_err exec_keeps preserves_if preserves_fail preserves_ret)
      (auto simp: map_inr_def jobs_free split: sum.splits)
  from preservesD [OF this k]
  show "kept_at T (snd (andthen (internal (sql_exec flt (\<lambda>d. map_inr
      (\<lambda>rows. d\<lparr>t_jobs := Some (filter P rows)\<rparr>) (table_of ''jobs'' (t_jobs d))))) (\<lambda>_.
     if n c then fail e else ret ()) (c, i)))" .
qed

lemma insert_exec_keeps:
  "G r \<Longrightarrow> preserves (kept_at T) (sql_exec flt (\<lambda>d. case table_of ''job_runs'' (t_runs d) of
       Inl e \<Rightarrow> Inl e
     | Inr rows \<Rightarrow>
         if \<exists>q\<in>set rows. q_run_id q = x_uuid_str E (r_run_id r) then Inl unique_error
         else Inr (d\<lparr>t_runs := Some (rows @ [run_to_row E r])\<rparr>)))"
  by (rule exec_keeps) (auto simp: table_of_def keeps_row split: sum.splits option.splits if_splits)

lemma upsert_exec_keeps:
  "preserves (kept_at T) (sql_exec flt (\<lambda>d. map_inr (\<lambda>rows. d\<lparr>t_jobs := Some (f rows)\<rparr>)
    (table_of ''jobs'' (t_jobs d))))"
  by (rule exec_keeps) (auto simp: map_inr_def jobs_free split: sum.splits)

text \<open>The stale runs are decoded from rows of the table.\<close>

lemma stale_query:
  "triple (kept_at T) (internal (sql_query flt (select_runs P)))
     (\<lambda>(rows, e) ci. kept T (fst ci) \<and> (\<forall>q\<in>set rows. \<forall>r. row_to_run E q = Inr r \<longrightarrow> G r)) (kept_at T)"
proof (intro triple_map_err tripleI)
  fix ci :: "connection \<times> nat"
  assume k: "kept T (fst ci)"
  obtain c i where ci: "ci = (c, i)" by force
  have G: "\<forall>q\<in>set rows'. \<forall>r. row_to_run E q = Inr r \<longrightarrow> G r"
    if sel: "select_runs P c = Inr rows" and sub: "set rows' \<subseteq> set rows" for rows rows'
  proof -
    obtain rs where "t_runs (work c) = Some rs" "set rows \<subseteq> set rs"
      using select_runs_rows [of T c P rows] sel k ci by auto
    then show ?thesis using sub k ci decodes [of "work c" rs] by (auto simp: kept_def)
  qed
  show "case sql_query flt (select_runs P) ci of
      (Ok x, w') \<Rightarrow> (case x of (rows, e) \<Rightarrow> \<lambda>ci. kept T (fst ci) \<and> (\<forall>q\<in>set rows. \<forall>r. row_to_run E q = Inr r \<longrightarrow> G r)) w'
    | (_, w') \<Rightarrow> kept T (fst w')"
    using k ci G kept_roll_back [of T c]
    by (auto simp: sql_query_def set_take_subset split: sum.splits option.splits sql_fault.splits prod.splits
        dest: in_set_takeD)
qed

lemma stale_op_keeps:
  "triple (\<lambda>s. kept T (guarded s)) (sql_get_stale_runs E flt now thr)
    (\<lambda>rs s. kept T (guarded s) \<and> (\<forall>r\<in>set rs. G r)) (\<lambda>s. kept T (guarded s))"
proof -
  have fetch: "triple (\<lambda>ci. (case x of (rows, e) \<Rightarrow> \<lambda>ci. kept T (fst ci) \<and>
        (\<forall>q\<in>set rows. \<forall>r. row_to_run E q = Inr r \<longrightarrow> G r)) ci)
     (case x of (rows, e) \<Rightarrow> internal (lift_outcome (fetch_all (row_to_run E) rows e)))
     (\<lambda>rs ci. kept T (fst ci) \<and> (\<forall>r\<in>set rs. G r)) (kept_at T)" for x :: "db_run list \<times> string option"
    by (cases x) (auto intro!: triple_map_err triple_lift dest: fetch_all_decoded)
  show ?thesis
    unfolding sql_get_stale_runs_def Let_def
    by (intro op_triple triple_case_sum triple_fail triple_andthen [OF stale_query fetch]
        triple_andthen [where Q = "\<lambda>_. kept_at T", OF triple_lift]) auto
qed

end

sublocale table_invariant \<subseteq> run_keeper G A "sqlite_ops E flt" "\<lambda>s. kept T (guarded s)"
proof (unfold_locales, unfold sqlite_ops_def store_ops.simps, goal_cases)
  case (1 j) then show ?case
    unfolding sql_upsert_job_def
    by (intro op_keeps preserves_case_sum preserves_fail preserves_map_err upsert_exec_keeps)
next
  case (2 jid) then show ?case
    unfolding sql_get_job_def
    by (intro op_keeps preserves_andthen preserves_map_err stmt_keeps preserves_case_option preserves_case_sum
        preserves_fail preserves_ret)
next
  case 3 then show ?case
    unfolding sql_list_jobs_def
    by (intro op_keeps preserves_andthen preserves_map_err stmt_keeps preserves_case_prod preserves_lift)
next
  case (4 jid) then show ?case
    unfolding sql_remove_job_def Let_def by (intro op_keeps remove_op_keeps)
next
  case (5 r) then show ?case
    unfolding sql_insert_run_def by (intro op_keeps preserves_map_err insert_exec_keeps)
next
  case (6 now owner n) then show ?case
    unfolding sql_claim_due_runs_def by (intro op_keeps claim_stmts_keeps)
next
  case (7 p now rid) then show ?case
    unfolding sql_update_run_def by (intro op_keeps update_stmts_keeps)
next
  case (8 rid) then show ?case
    unfolding sql_get_run_def
    by (intro op_keeps preserves_andthen preserves_map_err stmt_keeps preserves_case_option preserves_lift
        preserves_fail preserves_ret)
next
  case (9 f) then show ?case
    unfolding sql_list_runs_def
    by (intro op_keeps preserves_andthen preserves_map_err stmt_keeps preserves_case_prod preserves_lift)
next
  case (10 now thr) then show ?case by (rule stale_op_keeps)
next
  case 11 then show ?case
    unfolding sql_get_dead_letters_def
    by (intro op_keeps preserves_andthen preserves_map_err stmt_keeps preserves_case_prod preserves_lift)
qed

context table_invariant
begin

lemma reachable_kept:
  assumes "reachable E X report es w w'" "\<forall>e\<in>es. \<exists>flt. e_store e = sqlite_ops E flt"
    and "kept T (guarded (db w))"
  shows "kept T (guarded (db w'))"
  using assms(1) by (rule reachable_invariant) (use assms(2,3) step_keeps in blast)+

end

end
