(* ===== verification/Run_Invariants.thy ===== *)
theory Run_Invariants
  imports Sqlite_Keeper Leyla_Main
begin

section \<open>Invariants of the runs, over both stores\<close>

text \<open>
  Two invariants, each for both stores: every run is still before its execution (\<open>early_run\<close>),
  and a run that was stored stays stored with its identity (\<open>same_run\<close>). The SQLite store is
  shown to keep any invariant of its tables that its statements keep, whatever statements fail.
\<close>

subsection \<open>The two invariants of a run\<close>

definition early_status :: "run_status \<Rightarrow> bool" where
  "early_status st \<longleftrightarrow> st \<in> {Scheduled, Leased, Cancelled}"

definition early_run :: "'j job_run \<Rightarrow> bool" where
  "early_run r \<longleftrightarrow> early_status (r_status r) \<and> r_attempt r = 1"

text \<open>A patch that neither counts an attempt nor moves a run past the lease.\<close>

definition calm_patch :: "'j run_patch \<Rightarrow> bool" where
  "calm_patch p \<longleftrightarrow> p_attempt p = None \<and> (case p_status p of Some st \<Rightarrow> early_status st | None \<Rightarrow> True)"

definition same_run :: "'j job_run \<Rightarrow> 'j job_run \<Rightarrow> bool" where
  "same_run r0 r \<longleftrightarrow> r_run_id r = r_run_id r0 \<and> r_job_id r = r_job_id r0 \<and>
    r_scheduled_for r = r_scheduled_for r0 \<and> r_max_attempts r = r_max_attempts r0 \<and>
    r_input_json r = r_input_json r0 \<and> r_created_at r = r_created_at r0"

interpretation early: run_policy early_run calm_patch
  by unfold_locales
    (auto simp: early_run_def early_status_def calm_patch_def job_run_new_scheduled_def status_patch_def
      release_patch_def cancel_patch_def run_patch_default_def)

interpretation any: run_policy "\<lambda>_. True" "\<lambda>_. True"
  by unfold_locales simp_all

lemma apply_patch_early: "calm_patch p \<Longrightarrow> early_run r \<Longrightarrow> early_run (apply_patch now p r)"
  by (auto simp: calm_patch_def early_run_def split: option.splits)

lemma lease_run_early: "early_run r \<Longrightarrow> early_run (lease_run now owner lend r)"
  by (simp add: early_run_def early_status_def)

lemma same_run_updates:
  "same_run r0 r \<Longrightarrow> same_run r0 (apply_patch now p r)" "same_run r0 r \<Longrightarrow> same_run r0 (lease_run now owner lend r)"
  by (simp_all add: same_run_def apply_patch_def lease_run_def)

subsection \<open>The memory store\<close>

lemma hm_insert_memberD: "kv \<in> set (hm_insert k v xs) \<Longrightarrow> kv = (k, v) \<or> kv \<in> set xs"
  by (induction xs) (auto split: if_splits)

lemma list_all_map_of: "\<forall>x\<in>set xs. case x of (k, r) \<Rightarrow> P r \<Longrightarrow> map_of xs k = Some r \<Longrightarrow> P r"
  by (auto dest: map_of_SomeD)

definition inner_early :: "'j inner \<Rightarrow> bool" where
  "inner_early g \<longleftrightarrow> list_all (\<lambda>(k, r). early_run r) (runs g) \<and> dead_letters g = []"

definition inner_has :: "string \<Rightarrow> 'j job_run \<Rightarrow> 'j inner \<Rightarrow> bool" where
  "inner_has k r0 g \<longleftrightarrow> (\<exists>r. map_of (runs g) k = Some r \<and> same_run r0 r)"

lemma claim_each_early:
  "list_all (\<lambda>(k, r). early_run r) rs \<Longrightarrow> list_all (\<lambda>(k, r). early_run r) (fst (claim_each now owner lend ids rs cl))"
proof (induction ids arbitrary: rs cl)
  case (Cons i ids)
  show ?case
  proof (cases "map_of rs i")
    case (Some r)
    then have "early_run r" using Cons.prems by (auto simp: list_all_iff dest: map_of_SomeD)
    then have "early_run (lease_run now owner lend r)" by (rule lease_run_early)
    then show ?thesis using Cons Some by (simp add: Let_def list_all_hm_insert lease_run_def)
  qed (use Cons in simp)
qed simp

lemma claim_each_early_eq:
  "claim_each now owner lend ids rs cl = (rs', cl') \<Longrightarrow> list_all (\<lambda>(k, r). early_run r) rs \<Longrightarrow>
    list_all (\<lambda>(k, r). early_run r) rs'"
  using claim_each_early [of rs now owner lend ids cl] by simp

lemma claim_each_has:
  "\<exists>r. map_of rs k = Some r \<and> same_run r0 r \<Longrightarrow>
    \<exists>r. map_of (fst (claim_each now owner lend ids rs cl)) k = Some r \<and> same_run r0 r"
proof (induction ids arbitrary: rs cl)
  case (Cons i ids)
  show ?case
  proof (cases "map_of rs i")
    case (Some r)
    have "same_run r0 (lease_run now owner lend r)" if "same_run r0 r" by (rule same_run_updates(2) [OF that])
    then show ?thesis using Cons.prems Some
      by (auto simp: Let_def lease_run_def intro!: Cons.IH)
  qed (use Cons in simp)
qed simp

lemma claim_each_has_eq:
  "claim_each now owner lend ids rs cl = (rs', cl') \<Longrightarrow> map_of rs k = Some r \<Longrightarrow> same_run r0 r \<Longrightarrow>
    \<exists>r. map_of rs' k = Some r \<and> same_run r0 r"
  using claim_each_has [of rs k r0 now owner lend ids cl] by simp

lemmas mem_ops_unfold = mem_upsert_job_def mem_get_job_def mem_list_jobs_def mem_remove_job_def mem_insert_run_def
  mem_claim_due_runs_def mem_update_run_def mem_get_run_def mem_list_runs_def mem_get_stale_runs_def
  mem_get_dead_letters_def

interpretation mem_early: run_keeper early_run calm_patch "memory_ops E" "\<lambda>m. inner_early (guarded m)" for E
proof (unfold_locales, unfold memory_ops_simps mem_ops_unfold, goal_cases)
  case (5 r) then show ?case
    by (intro with_lock_inv) (auto simp: preserves_def inner_early_def Let_def list_all_hm_insert)
next
  case (6 now owner n) then show ?case
    by (intro with_lock_inv)
      (auto simp: preserves_def inner_early_def Let_def split: option.splits prod.splits dest: claim_each_early_eq)
next
  case (7 p now rid) then show ?case
    by (intro with_lock_inv) (auto simp: preserves_def inner_early_def mem_patch_run_apply list_all_iff
        dest!: hm_insert_memberD intro!: apply_patch_early elim: list_all_map_of split: option.splits)
next
  case (10 now thr) then show ?case
    by (intro with_lock_triple)
      (auto simp: triple_def inner_early_def list_all_iff split: sum.splits option.splits)
qed (auto simp: inner_early_def preserves_def with_lock_def Let_def split: option.splits sum.splits)

interpretation mem_has: run_keeper "\<lambda>_. True" "\<lambda>_. True" "memory_ops E" "\<lambda>m. inner_has k r0 (guarded m)" for E k r0
proof (unfold_locales, unfold memory_ops_simps mem_ops_unfold, goal_cases)
  case (5 r) then show ?case
    by (intro with_lock_inv) (auto simp: preserves_def inner_has_def Let_def)
next
  case (6 now owner n) then show ?case
    by (intro with_lock_inv)
      (auto simp: preserves_def inner_has_def Let_def split: option.splits prod.splits dest: claim_each_has_eq)
next
  case (7 p now rid) then show ?case
    by (intro with_lock_inv) (auto simp: preserves_def inner_has_def mem_patch_run_apply
        intro!: same_run_updates split: option.splits)
next
  case (10 now thr) then show ?case
    by (intro with_lock_triple)
      (auto simp: triple_def inner_has_def split: sum.splits option.splits)
qed (auto simp: inner_has_def preserves_def with_lock_def Let_def split: option.splits sum.splits)

text \<open>
  C19: No operation ever starts a run. From a fresh memory store, whatever sequence of engine ticks,
  engine methods, commands and clock movements follows, and however each of them ends, every run in
  the store is Scheduled, Leased or Cancelled and still at its first attempt, and there is no dead
  letter: nothing in the program moves a claimed run to Dispatched or Running.
\<close>

lemma memory_runs_never_start:
  assumes "reachable E X report es w w'" and "\<forall>e\<in>es. e_store e = memory_ops E"
    and "db w = memory_store_new"
  shows "(\<forall>(k, r) \<in> set (runs (guarded (db w'))). r_status r \<in> {Scheduled, Leased, Cancelled} \<and> r_attempt r = 1) \<and>
    dead_letters (guarded (db w')) = []"
proof -
  have "inner_early (guarded (db w))"
    by (simp add: assms(3) memory_store_new_def inner_early_def)
  from mem_early.reachable_keeps [OF assms(1,2) this] show ?thesis
    by (auto simp: inner_early_def list_all_iff early_run_def early_status_def)
qed

abbreviation sample_engine :: "('s, 'j) store_ops \<Rightarrow> ('s, 'j) engine" where
  "sample_engine S \<equiv> engine_new (engine_config_new S SystemClock ''i'')"

abbreviation no_report :: "nat \<Rightarrow> nat \<Rightarrow> nat \<Rightarrow> bool \<Rightarrow> string + string" where
  "no_report \<equiv> (\<lambda>_ _ _ _. Inr ''{}'')"

lemma memory_runs_never_start_witness:
  "dead_letters (guarded (db (snd (poll_tick sample_ext (sample_engine (memory_ops sample_ext))
     (sample_sys memory_store_new))))) = []"
  by (rule conjunct2 [OF memory_runs_never_start [OF reachable_one [where es = "{sample_engine (memory_ops sample_ext)}"
        and X = sample_cli_ext and report = no_report, OF singletonI sys_step.poll]]])
    (simp_all add: engine_new_def engine_config_new_def sample_sys_def)

text \<open>
  No operation loses a run of the memory store. A run that is stored under a key is still
  stored under it after any sequence of engine ticks, methods, commands and clock movements, and
  however each of them ends, with the same id, job, scheduled time, input, attempt limit and
  creation time.
\<close>

lemma memory_runs_never_lost:
  assumes "reachable E X report es w w'" and "\<forall>e\<in>es. e_store e = memory_ops E"
    and "map_of (runs (guarded (db w))) k = Some r0"
  shows "\<exists>r. map_of (runs (guarded (db w'))) k = Some r \<and> same_run r0 r"
proof -
  have "inner_has k r0 (guarded (db w))" by (simp add: assms(3) inner_has_def same_run_def)
  from mem_has.reachable_keeps [OF assms(1,2) this] show ?thesis by (simp add: inner_has_def)
qed

lemma memory_runs_never_lost_witness:
  "\<exists>r. map_of (runs (guarded (db (snd (poll_tick sample_ext (sample_engine (memory_ops sample_ext))
     (sample_sys (sample_runs [sample_run 1 Scheduled 3]))))))) ''u'' = Some r \<and> same_run (sample_run 1 Scheduled 3) r"
  by (rule memory_runs_never_lost [OF reachable_one [where es = "{sample_engine (memory_ops sample_ext)}"
        and X = sample_cli_ext and report = no_report, OF singletonI sys_step.poll]])
    (simp_all add: engine_new_def engine_config_new_def sample_sys_def sample_runs_def sample_run_fields)

subsection \<open>The SQLite store\<close>

definition early_row :: "db_run \<Rightarrow> bool" where
  "early_row q \<longleftrightarrow> q_status q \<in> {''scheduled'', ''leased'', ''cancelled''} \<and> q_attempt q = 1"

definition early_tables :: "sql_tables \<Rightarrow> bool" where
  "early_tables d \<longleftrightarrow> (case t_runs d of Some rows \<Rightarrow> \<forall>q\<in>set rows. early_row q | None \<Rightarrow> True) \<and>
    (case t_dead d of Some zs \<Rightarrow> zs = [] | None \<Rightarrow> True)"

definition same_row :: "db_run \<Rightarrow> db_run \<Rightarrow> bool" where
  "same_row q0 q \<longleftrightarrow> q_run_id q = q_run_id q0 \<and> q_job_id q = q_job_id q0 \<and>
    q_scheduled_for q = q_scheduled_for q0 \<and> q_max_attempts q = q_max_attempts q0 \<and>
    q_input_json q = q_input_json q0 \<and> q_created_at q = q_created_at q0"

definition row_held :: "db_run \<Rightarrow> sql_tables \<Rightarrow> bool" where
  "row_held q0 d \<longleftrightarrow> (\<exists>rows. t_runs d = Some rows \<and> (\<exists>q\<in>set rows. same_row q0 q))"

lemma Some_map_option: "Some y = map_option f x \<longleftrightarrow> (\<exists>z. x = Some z \<and> y = f z)"
  by (cases x) auto

lemma row_update_same: "row_update E A f \<Longrightarrow> same_row q (f q)"
  by (auto simp: row_update_def same_row_def lease_row_def patch_columns_def Some_map_option)

lemma same_row_trans: "same_row q0 q \<Longrightarrow> same_row q q' \<Longrightarrow> same_row q0 q'"
  by (simp add: same_row_def)

interpretation held: table_invariant "\<lambda>_. True" "\<lambda>_. True" E "row_held q0" for E q0
proof
  fix d rows f P
  assume h: "row_held q0 d" "t_runs d = Some rows" "row_update E (\<lambda>_. True) f"
  then obtain q where q: "q \<in> set rows" "same_row q0 q" by (auto simp: row_held_def)
  have "same_row q0 (if P q then f q else q)"
    using same_row_trans [OF q(2) row_update_same [OF h(3)]] q(2) by simp
  then have "\<exists>q\<in>set (map (\<lambda>r. if P r then f r else r) rows). same_row q0 q"
    unfolding set_map by (rule bexI [OF _ imageI [OF q(1)]])
  then show "row_held q0 (d\<lparr>t_runs := Some (map (\<lambda>r. if P r then f r else r) rows)\<rparr>)"
    unfolding row_held_def by simp
qed (auto simp: row_held_def)

lemma early_row_status: "status_to_str st \<in> {''scheduled'', ''leased'', ''cancelled''} \<longleftrightarrow> early_status st"
  by (cases st) (simp_all add: early_status_def status_to_str_def)

lemma early_row_columns [simp]:
  "early_row (q\<lparr>q_lease_owner := o1\<rparr>) = early_row q" "early_row (q\<lparr>q_lease_expires_at := o1\<rparr>) = early_row q"
  "early_row (q\<lparr>q_dispatched_at := o1\<rparr>) = early_row q" "early_row (q\<lparr>q_started_at := o1\<rparr>) = early_row q"
  "early_row (q\<lparr>q_heartbeat_at := o1\<rparr>) = early_row q" "early_row (q\<lparr>q_finished_at := o1\<rparr>) = early_row q"
  "early_row (q\<lparr>q_output_json := o1\<rparr>) = early_row q" "early_row (q\<lparr>q_error_json := o1\<rparr>) = early_row q"
  "early_row (q\<lparr>q_updated_at := t\<rparr>) = early_row q"
  by (simp_all add: early_row_def)

lemma early_row_new_status: "early_row q \<Longrightarrow> early_status st \<Longrightarrow> early_row (q\<lparr>q_status := status_to_str st\<rparr>)"
  using early_row_status [of st] by (simp add: early_row_def)

lemma row_update_early:
  assumes "row_update E calm_patch f" and early: "early_row q"
  shows "early_row (f q)"
  using assms(1) unfolding row_update_def
proof (elim disjE exE conjE)
  fix owner lend now
  assume "f = lease_row owner lend now"
  then show ?thesis using early by (simp add: lease_row_def early_row_def)
next
  fix p g now
  assume calm: "calm_patch p" and g: "Some g \<in> set (patch_columns E p)" and f: "f = (\<lambda>r. (g r)\<lparr>q_updated_at := now\<rparr>)"
  have "early_row (g q)"
    using g calm early early_row_new_status [OF early]
    by (auto simp: patch_columns_def calm_patch_def Some_map_option)
  then show ?thesis using f by simp
qed

lemma status_names: "status_to_str Cancelled = ''cancelled''"
  by (simp add: status_to_str_def)

lemma early_decodes:
  assumes "\<forall>st. x_status_parse E ([CHR 0x22] @ status_to_str st @ [CHR 0x22]) = Inr st"
    and "early_row q" and "row_to_run E q = Inr r"
  shows "early_run r"
proof -
  obtain st where st: "q_status q = status_to_str st" "early_status st"
    using assms(2) status_to_str_simps
    by (metis early_row_def early_row_status early_status_def insert_iff status_names empty_iff)
  then show ?thesis
    using assms by (auto simp: row_to_run_def bind_sum_def early_run_def early_row_def split: sum.splits)
qed

lemma early_invariant:
  assumes "\<forall>st. x_status_parse E ([CHR 0x22] @ status_to_str st @ [CHR 0x22]) = Inr st"
  shows "table_invariant early_run calm_patch E early_tables"
proof
  show "early_run r" if "early_tables d" "t_runs d = Some rows" "q \<in> set rows" "row_to_run E q = Inr r" for d rows q r
    using early_decodes [OF assms _ that(4)] that(1-3) by (simp add: early_tables_def)
  show "early_tables (d\<lparr>t_runs := Some (rows @ [run_to_row E r])\<rparr>)"
    if "early_tables d" "t_runs d = Some rows" "early_run r" for d rows r
    using that early_row_status [of "r_status r"]
    by (auto simp: early_tables_def early_row_def early_run_def run_to_row_def)
qed (auto simp: early_tables_def row_update_early)

text \<open>
  C17: The same over SQLite, with any statements failing at any step: if the tables hold only runs
  that are Scheduled, Leased or Cancelled at their first attempt and no dead letter (a migrated new
  file, say), they do so, committed and in an open transaction, after any sequence of engine ticks,
  methods, commands and clock movements.
\<close>

lemma sqlite_runs_never_start:
  assumes "reachable E X report es w w'" and "\<forall>e\<in>es. \<exists>flt. e_store e = sqlite_ops E flt"
    and "\<forall>st. x_status_parse E ([CHR 0x22] @ status_to_str st @ [CHR 0x22]) = Inr st"
    and "kept early_tables (guarded (db w))"
  shows "early_tables (committed (guarded (db w'))) \<and> early_tables (work (guarded (db w')))"
  using table_invariant.reachable_kept [OF early_invariant [OF assms(3)] assms(1,2,4)] by (simp add: kept_def)

lemma sqlite_runs_never_start_witness:
  "early_tables (committed (guarded (db (snd (poll_tick sample_ext (sample_engine (sqlite_ops sample_ext
     (\<lambda>i. if i = 2 then Some (Rolled_Back 0 ''disk I/O error'') else None)))
     (sample_sys (sample_sqlite [sample_run 1 Scheduled 3])))))))"
proof (rule conjunct1 [OF sqlite_runs_never_start [OF reachable_one [where X = sample_cli_ext and report = no_report,
        OF singletonI sys_step.poll] _ _]])
  show "\<forall>st. x_status_parse sample_ext ([CHR 0x22] @ status_to_str st @ [CHR 0x22]) = Inr st"
    by (simp only: sample_status_parse) simp
qed (auto simp: engine_new_def engine_config_new_def sample_sys_def sample_sqlite_def Let_def kept_def plan_delivers_def
    early_tables_def early_row_def run_to_row_def sample_run_fields)

text \<open>
  C18: No operation loses a run of the SQLite store, with any statements failing at any step. A row
  of the run table that is committed (and not hidden by an open transaction) is still there,
  committed and in an open transaction, after any sequence of engine ticks, methods, commands and
  clock movements, with the same key, job, scheduled time, input, attempt limit and creation time.
\<close>

lemma sqlite_runs_never_lost:
  assumes "reachable E X report es w w'" and "\<forall>e\<in>es. \<exists>flt. e_store e = sqlite_ops E flt"
    and "plan_delivers (guarded (db w))"
    and "t_runs (committed (guarded (db w))) = Some rows" and "q0 \<in> set rows"
    and "work (guarded (db w)) = committed (guarded (db w))"
  shows "row_held q0 (committed (guarded (db w'))) \<and> row_held q0 (work (guarded (db w')))"
proof -
  have "kept (row_held q0) (guarded (db w))"
    using assms(3-6) by (auto simp: kept_def row_held_def same_row_def)
  from held.reachable_kept [OF assms(1,2) this] show ?thesis by (simp add: kept_def)
qed

lemma sqlite_runs_never_lost_witness:
  "row_held (run_to_row sample_ext (sample_run 1 Scheduled 3)) (committed (guarded (db (snd (poll_tick sample_ext
     (sample_engine (sqlite_ops sample_ext (\<lambda>i. if i = 2 then Some (Rolled_Back 0 ''disk I/O error'') else None)))
     (sample_sys (sample_sqlite [sample_run 1 Scheduled 3])))))))"
  by (rule conjunct1 [OF sqlite_runs_never_lost [OF reachable_one [where X = sample_cli_ext and report = no_report,
        OF singletonI sys_step.poll], where rows = "[run_to_row sample_ext (sample_run 1 Scheduled 3)]"]])
    (auto simp: engine_new_def engine_config_new_def sample_sys_def sample_sqlite_def Let_def plan_delivers_def)

end
