(* ===== verification/Claim_Progress.thy ===== *)
theory Claim_Progress
  imports Leyla_Engine
begin

section \<open>Polling at a fixed time drains the due runs\<close>

text \<open>
  A claim takes due runs in whatever order the store has them, up to the batch size. As long as
  nothing else becomes due, no due run waits for ever: enough ticks lease every run that is due and
  every run they create.
\<close>

lemma due_after_lease: "due_keys now (lease_keys t ow lend K v) = due_keys now v - K"
  by (auto simp: due_keys_def run_due_def split: if_splits)

lemma lease_rest:
  "K \<subseteq> due_keys now v \<Longrightarrow> lease_keys t i lend (due_keys now v - K) (lease_keys t i lend K v) =
    lease_keys t i lend (due_keys now v) v"
  by (intro store_view.equality) (auto simp: fun_eq_iff)

lemma due_after_materialize:
  "due_keys now (materialized E t w js v) \<subseteq> due_keys now v \<union> set (drawn_keys E w (length js))"
  by (auto simp: due_keys_def materialized_def map_add_Some_iff simp flip: new_runs_dom)

lemma new_runs_member:
  "j \<in> set js \<Longrightarrow> \<exists>k r. (k, r) \<in> set (new_runs E w js) \<and> r_job_id r = j_id j \<and> r_status r = Scheduled \<and>
    r_scheduled_for r = the (j_next_run_at j)"
proof (induction js arbitrary: w)
  case (Cons i js)
  show ?case
  proof (cases "j = i")
    case True
    then show ?thesis by (intro exI) (auto simp: new_run_def job_run_new_scheduled_def)
  next
    case False
    then have "j \<in> set js" using Cons.prems by simp
    from Cons.IH [OF this, of "draw 1 w"] show ?thesis by auto
  qed
qed simp

text \<open>What the due jobs become is not due again at once.\<close>

definition settles :: "'j ext \<Rightarrow> time \<Rightarrow> 'j leyla_job \<Rightarrow> bool" where
  "settles E now j \<longleftrightarrow> (case next_run E now j of Some t \<Rightarrow> now < t | None \<Rightarrow> True)"

lemma settles_advance: "settles E now j \<Longrightarrow> \<not> job_due now (advance_job E now j)"
  by (auto simp: settles_def job_due_def advance_job_def split: option.splits)

lemma materialized_settled:
  assumes "\<And>k j. v_jobs v k = Some j \<Longrightarrow> j_id j = k" and "set js = {j \<in> ran (v_jobs v). job_due now j}"
    and "\<And>j. j \<in> set js \<Longrightarrow> settles E now j" and "v_jobs (materialized E now w js v) k = Some j"
  shows "\<not> job_due now j"
proof (cases "map_of (map (\<lambda>j. (j_id j, advance_job E now j)) js) k")
  case None
  then have "v_jobs v k = Some j" "k \<notin> j_id ` set js"
    using assms(4) None by (simp_all add: materialized_def map_add_def map_of_eq_None_iff image_image)
  then show ?thesis using assms(1) [of k j] assms(2) by (force simp: ran_def)
next
  case (Some i)
  then have "i = j" using assms(4) by (simp add: materialized_def map_add_def)
  then show ?thesis using Some settles_advance [OF assms(3)] by (auto dest!: map_of_SomeD)
qed

context leyla_store
begin

lemma tick_without_jobs:
  assumes "invar (db w)" "utc_ok okt w" "okt now" "e_store e = S" "e_clock e = FakeClock"
    and okn: "okn (unat (e_claim_batch_size e))"
    and fc: "\<not> poisoned (fake_clock w)" "guarded (fake_clock w) = now"
    and lend: "x_dt_add E now (30 * nanos_per_sec) = Some lend" "okt lend"
    and none: "\<And>k j. v_jobs (view (db w)) k = Some j \<Longrightarrow> \<not> job_due now j"
  shows "\<exists>ks d. poll_tick E e w = (Ok (), w\<lparr>db := d\<rparr>) \<and> invar d \<and> ks \<subseteq> due_keys now (view (db w)) \<and>
    card ks = min (unat (e_claim_batch_size e)) (card (due_keys now (view (db w)))) \<and>
    view d = lease_keys now (e_instance_id e) lend ks (view (db w))"
proof -
  have "{k. \<exists>j. v_jobs (view (db w)) k = Some j \<and> job_due now j} = {}" using none by blast
  then have c: "card {k. \<exists>j. v_jobs (view (db w)) k = Some j \<and> job_due now j} = 0" by (simp only: card.empty)
  obtain js ks d where t: "poll_tick E e w = (Ok (), draw (length js) w\<lparr>db := d\<rparr>)" "invar d"
      "set js = {j \<in> ran (v_jobs (view (db w))). job_due now j}" "distinct ks"
      "set ks \<subseteq> due_keys now (materialized E now w js (view (db w)))"
      "length ks = min (unat (e_claim_batch_size e)) (card (due_keys now (materialized E now w js (view (db w)))))"
      "view d = lease_keys now (e_instance_id e) lend (set ks) (materialized E now w js (view (db w)))"
    using poll_tick_effect [OF assms(1-10), unfolded c] none by auto
  have "set js = {}" unfolding t(3) using none by (fastforce simp: ran_def)
  then have "js = []" by simp
  with t show ?thesis by (intro exI [of _ "set ks"] exI [of _ d]) (simp add: distinct_card)
qed

text \<open>\<open>n\<close> ticks lease \<open>n\<close> batches.\<close>

lemma polls_drain:
  assumes "invar (db w)" "utc_ok okt w" "okt now" "e_store e = S" "e_clock e = FakeClock"
    and "okn (unat (e_claim_batch_size e))"
    and "\<not> poisoned (fake_clock w)" "guarded (fake_clock w) = now"
    and "x_dt_add E now (30 * nanos_per_sec) = Some lend" "okt lend"
    and "\<And>k j. v_jobs (view (db w)) k = Some j \<Longrightarrow> \<not> job_due now j"
    and "card (due_keys now (view (db w))) \<le> n * unat (e_claim_batch_size e)"
  shows "\<exists>d. engine_loop E e (replicate n PollTick) w = (Ok False, w\<lparr>db := d\<rparr>) \<and> invar d \<and>
    view d = lease_keys now (e_instance_id e) lend (due_keys now (view (db w))) (view (db w))"
  using assms
proof (induction n arbitrary: w)
  case 0
  have "due_keys now (view (db w)) = {}" using 0(12) due_keys_finite [OF 0(1)] by simp
  then show ?case using 0(1) by (intro exI [of _ "db w"]) (simp add: ret_def lease_keys_def)
next
  case (Suc n)
  let ?b = "unat (e_claim_batch_size e)" and ?v = "view (db w)"
  obtain ks d where t: "poll_tick E e w = (Ok (), w\<lparr>db := d\<rparr>)" "invar d" "ks \<subseteq> due_keys now ?v"
      "card ks = min ?b (card (due_keys now ?v))" "view d = lease_keys now (e_instance_id e) lend ks ?v"
    using tick_without_jobs [OF Suc.prems(1-10)] Suc.prems(11) by blast
  have fin: "finite (due_keys now ?v)" by (rule due_keys_finite [OF Suc.prems(1)])
  have "card (due_keys now (view d)) = card (due_keys now ?v) - card ks"
    unfolding t(5) due_after_lease using t(3) fin by (simp add: card_Diff_subset finite_subset)
  then have "card (due_keys now (view d)) \<le> n * ?b" using t(4) Suc.prems(12) by (auto simp: min_def split: if_splits)
  then obtain d' where d': "engine_loop E e (replicate n PollTick) (w\<lparr>db := d\<rparr>) = (Ok False, w\<lparr>db := d'\<rparr>)" "invar d'"
      "view d' = lease_keys now (e_instance_id e) lend (due_keys now (view d)) (view d)"
    using Suc.IH [of "w\<lparr>db := d\<rparr>"] Suc.prems t(2,5) by (auto simp: utc_ok_def)
  have "view d' = lease_keys now (e_instance_id e) lend (due_keys now ?v) ?v"
    unfolding d'(3) unfolding t(5) due_after_lease by (rule lease_rest [OF t(3)])
  then show ?case using t(1) d'(1,2) by (intro exI [of _ d']) (simp add: andthen_def)
qed

text \<open>With the jobs that are due: the first tick creates their runs, which are leased with the others.\<close>

lemma due_jobs_card:
  assumes "invar s" "distinct (map j_id js)" "set js = {j \<in> ran (v_jobs (view s)). P j}"
  shows "length js = card {k. \<exists>j. v_jobs (view s) k = Some j \<and> P j}"
proof -
  have "{k. \<exists>j. v_jobs (view s) k = Some j \<and> P j} = j_id ` set js"
    using view_job_key [OF assms(1)] by (force simp: assms(3) ran_def)
  then show ?thesis using distinct_card [OF assms(2)] by simp
qed

lemma engine_drains:
  assumes "invar (db w)" "utc_ok okt w" "okt now" "e_store e = S" "e_clock e = FakeClock"
    and "okn (unat (e_claim_batch_size e))"
    and "\<not> poisoned (fake_clock w)" "guarded (fake_clock w) = now"
    and "x_dt_add E now (30 * nanos_per_sec) = Some lend" "okt lend"
    and adv: "\<And>k j. v_jobs (view (db w)) k = Some j \<Longrightarrow> job_due now j \<Longrightarrow> advances E okt now j"
    and settle: "\<And>k j. v_jobs (view (db w)) k = Some j \<Longrightarrow> job_due now j \<Longrightarrow> settles E now j"
    and fresh: "distinct (drawn_keys E w (card {k. \<exists>j. v_jobs (view (db w)) k = Some j \<and> job_due now j}))"
      "set (drawn_keys E w (card {k. \<exists>j. v_jobs (view (db w)) k = Some j \<and> job_due now j})) \<inter>
        dom (v_runs (view (db w))) = {}"
    and ticks: "card {k. \<exists>j. v_jobs (view (db w)) k = Some j \<and> job_due now j} + card (due_keys now (view (db w))) \<le>
      n * unat (e_claim_batch_size e)"
    and "0 < n"
  shows "\<exists>js d. distinct (map j_id js) \<and> set js = {j \<in> ran (v_jobs (view (db w))). job_due now j} \<and>
    engine_loop E e (replicate n PollTick) w = (Ok False, draw (length js) w\<lparr>db := d\<rparr>) \<and> invar d \<and>
    view d = lease_keys now (e_instance_id e) lend (due_keys now (materialized E now w js (view (db w))))
      (materialized E now w js (view (db w)))"
proof -
  obtain m where n: "n = Suc m" using assms(16) by (cases n) simp_all
  let ?v = "view (db w)" and ?b = "unat (e_claim_batch_size e)"
  obtain js ks d where t: "poll_tick E e w = (Ok (), draw (length js) w\<lparr>db := d\<rparr>)" "invar d" "distinct (map j_id js)"
      "set js = {j \<in> ran (v_jobs ?v). job_due now j}" "distinct ks"
      "set ks \<subseteq> due_keys now (materialized E now w js ?v)"
      "length ks = min ?b (card (due_keys now (materialized E now w js ?v)))"
      "view d = lease_keys now (e_instance_id e) lend (set ks) (materialized E now w js ?v)"
    using poll_tick_effect [OF assms(1-10) _ fresh] adv by blast
  let ?m = "materialized E now w js ?v" and ?w = "draw (length js) w\<lparr>db := d\<rparr>"
  have len: "length js = card {k. \<exists>j. v_jobs ?v k = Some j \<and> job_due now j}"
    by (rule due_jobs_card [OF assms(1) t(3,4)])
  have fin: "finite (due_keys now ?m)"
    using due_keys_finite [OF assms(1)] finite_subset [OF due_after_materialize] by blast
  have "card (due_keys now ?m) \<le> card (due_keys now ?v \<union> set (drawn_keys E w (length js)))"
    using due_keys_finite [OF assms(1)] by (intro card_mono due_after_materialize) simp
  also have "\<dots> \<le> card (due_keys now ?v) + length js"
    using card_Un_le [of "due_keys now ?v" "set (drawn_keys E w (length js))"]
      card_length [of "drawn_keys E w (length js)"] by (simp add: drawn_keys_def)
  finally have "card (due_keys now ?m) \<le> ?b + m * ?b" using ticks len by (simp add: n)
  moreover have "card (due_keys now (view d)) = card (due_keys now ?m) - length ks"
    unfolding t(8) due_after_lease using t(5,6) fin by (simp add: card_Diff_subset distinct_card)
  ultimately have left: "card (due_keys now (view d)) \<le> m * ?b" using t(7) by (auto simp: min_def split: if_splits)
  have none: "\<not> job_due now j" if "v_jobs (view d) k = Some j" for k j
  proof (rule materialized_settled [OF view_job_key [OF assms(1)] t(4)])
    show "settles E now i" if "i \<in> set js" for i using that settle by (auto simp: t(4) ran_def)
    show "v_jobs ?m k = Some j" using that by (simp add: t(8))
  qed assumption
  obtain d' where d': "engine_loop E e (replicate m PollTick) ?w = (Ok False, ?w\<lparr>db := d'\<rparr>)" "invar d'"
      "view d' = lease_keys now (e_instance_id e) lend (due_keys now (view d)) (view d)"
    using polls_drain [of ?w now e lend m] assms(2-10) t(2) none left by (auto simp: utc_ok_def)
  have "view d' = lease_keys now (e_instance_id e) lend (due_keys now ?m) ?m"
    unfolding d'(3) unfolding t(8) due_after_lease by (rule lease_rest [OF t(6)])
  then show ?thesis
    using t(1,3,4) d'(1,2) by (intro exI [of _ js] exI [of _ d']) (simp add: n andthen_def)
qed

end

subsection \<open>Properties\<close>

text \<open>
  C6: No due run waits for ever: at a fixed time, over the memory store, polls that claim as many runs
  as there are due runs and due jobs lease every one of these runs and a run of every one of these
  jobs for its due time; afterwards no run is due.
\<close>
lemma enough_polls_drain:
  assumes "mem_inv E (db w)" "e_store e = memory_ops E" "e_clock e = FakeClock"
    and "\<not> poisoned (fake_clock w)" "guarded (fake_clock w) = now"
    and "x_dt_add E now (30 * nanos_per_sec) = Some lend"
    and "\<And>k j. v_jobs (mem_view (db w)) k = Some j \<Longrightarrow> job_due now j \<Longrightarrow> advances E (\<lambda>_. True) now j"
    and "\<And>k j. v_jobs (mem_view (db w)) k = Some j \<Longrightarrow> job_due now j \<Longrightarrow> settles E now j"
    and "distinct (drawn_keys E w (card {k. \<exists>j. v_jobs (mem_view (db w)) k = Some j \<and> job_due now j}))"
      "set (drawn_keys E w (card {k. \<exists>j. v_jobs (mem_view (db w)) k = Some j \<and> job_due now j})) \<inter>
        dom (v_runs (mem_view (db w))) = {}"
    and "card {k. \<exists>j. v_jobs (mem_view (db w)) k = Some j \<and> job_due now j} + card (due_keys now (mem_view (db w))) \<le>
      n * unat (e_claim_batch_size e)"
    and "0 < n"
  shows "\<exists>w'. engine_loop E e (replicate n PollTick) w = (Ok False, w') \<and> mem_inv E (db w') \<and>
    due_keys now (mem_view (db w')) = {} \<and>
    (\<forall>k r. v_runs (mem_view (db w)) k = Some r \<and> run_due now r \<longrightarrow>
      v_runs (mem_view (db w')) k = Some (lease_run now (e_instance_id e) lend r)) \<and>
    (\<forall>k j. v_jobs (mem_view (db w)) k = Some j \<and> job_due now j \<longrightarrow>
      (\<exists>i r. v_runs (mem_view (db w')) i = Some r \<and> r_status r = Leased \<and> r_job_id r = k \<and>
        r_scheduled_for r = the (j_next_run_at j)))"
proof -
  let ?v = "mem_view (db w)"
  obtain js d where js: "distinct (map j_id js)" "set js = {j \<in> ran (v_jobs ?v). job_due now j}"
    "engine_loop E e (replicate n PollTick) w = (Ok False, draw (length js) w\<lparr>db := d\<rparr>)" "mem_inv E d"
    and d: "mem_view d = lease_keys now (e_instance_id e) lend (due_keys now (materialized E now w js ?v))
      (materialized E now w js ?v)"
    using leyla_store.engine_drains [OF mem.leyla_store_axioms assms(1) utc_ok_True TrueI assms(2,3) TrueI assms(4-6)
        TrueI _ _ assms(9-12)] assms(7,8) by blast
  let ?m = "materialized E now w js ?v"
  have leased: "v_runs (mem_view d) k = Some (lease_run now (e_instance_id e) lend r)"
    if "v_runs ?m k = Some r" "run_due now r" for k r
    using that by (auto simp: d due_keys_def)
  have dist: "distinct (map fst (new_runs E w js))" and disj: "fst ` set (new_runs E w js) \<inter> dom (v_runs ?v) = {}"
    using assms(9,10) mem.due_jobs_card [OF assms(1) js(1,2)] new_runs_keys [of E w js]
    by (simp_all flip: set_map)
  have old: "v_runs ?m k = Some r" if "v_runs ?v k = Some r" for k r
    using that disj by (force simp: materialized_def map_add_Some_iff map_of_eq_None_iff)
  have new: "\<exists>i r. v_runs (mem_view d) i = Some r \<and> r_status r = Leased \<and> r_job_id r = k \<and>
      r_scheduled_for r = the (j_next_run_at j)" if "v_jobs ?v k = Some j" "job_due now j" for k j
  proof -
    have "j \<in> set js" using that by (auto simp: js(2) ran_def)
    from new_runs_member [OF this, of E w] obtain i r where r: "(i, r) \<in> set (new_runs E w js)"
      "r_job_id r = j_id j" "r_status r = Scheduled" "r_scheduled_for r = the (j_next_run_at j)" by blast
    have "map_of (new_runs E w js) i = Some r" using r(1) dist by simp
    then have "v_runs ?m i = Some r" by (simp add: materialized_def map_add_Some_iff)
    moreover have "run_due now r" using r(3,4) that(2) by (auto simp: run_due_def job_due_def split: option.splits)
    ultimately have "v_runs (mem_view d) i = Some (lease_run now (e_instance_id e) lend r)" by (rule leased)
    moreover have "j_id j = k" by (rule mem.view_job_key [OF assms(1) that(1)])
    ultimately show ?thesis using r(2,4) by (intro exI [of _ i] exI [of _ "lease_run now (e_instance_id e) lend r"])
        (simp add: lease_run_def)
  qed
  have "due_keys now (mem_view d) = {}" by (simp add: d due_after_lease)
  with js(3,4) leased old new show ?thesis
    by (intro exI [of _ "draw (length js) w\<lparr>db := d\<rparr>"]) auto
qed

abbreviation sample_listed :: "string leyla_job" where
  "sample_listed \<equiv> sample_job ''a'' (Interval 5 Start) (Some 7)"

lemma sample_listed_job:
  "job_due 1000 sample_listed" "advances sample_ext (\<lambda>_. True) 1000 sample_listed"
  "mem_inv sample_ext (db (sample_sys (sample_jobs [sample_listed])))"
  "v_jobs (mem_view (db (sample_sys (sample_jobs [sample_listed])))) = [''a'' \<mapsto> sample_listed]"
  "v_runs (mem_view (db (sample_sys (sample_jobs [sample_listed])))) = Map.empty"
proof -
  have d: "db (sample_sys (sample_jobs [sample_listed])) = sample_jobs [sample_listed]" by (simp add: sample_sys_def)
  show "job_due 1000 sample_listed" by (simp add: job_due_def sample_job_fields)
  show "advances sample_ext (\<lambda>_. True) 1000 sample_listed"
    by (simp add: advances_def compute_next_run_def sample_job_fields sample_ext_def)
  show "mem_inv sample_ext (db (sample_sys (sample_jobs [sample_listed])))"
    unfolding d by (rule sample_store) simp
  show "v_jobs (mem_view (db (sample_sys (sample_jobs [sample_listed])))) = [''a'' \<mapsto> sample_listed]"
    "v_runs (mem_view (db (sample_sys (sample_jobs [sample_listed])))) = Map.empty"
    unfolding d by (simp_all add: sample_store sample_job_fields)
qed

lemma enough_polls_drain_witness:
  "\<exists>w'. engine_loop sample_ext (engine_new (engine_config_new (memory_ops sample_ext) FakeClock ''i''))
      [PollTick] (sample_sys (sample_jobs [sample_listed])) = (Ok False, w') \<and>
    (\<exists>i r. v_runs (mem_view (db w')) i = Some r \<and> r_status r = Leased \<and> r_job_id r = ''a'' \<and> r_scheduled_for r = 7)"
proof -
  let ?w = "sample_sys (sample_jobs [sample_listed])"
  let ?e = "engine_new (engine_config_new (memory_ops sample_ext) FakeClock ''i'')"
  have fc: "\<not> poisoned (fake_clock ?w)" "guarded (fake_clock ?w) = 1000"
    by (simp_all add: sample_sys_def fake_clock_new_def)
  have lend: "x_dt_add sample_ext 1000 (30 * nanos_per_sec) = Some 30000001000" by (simp add: sample_ext_def)
  have e: "e_store ?e = memory_ops sample_ext" "e_clock ?e = FakeClock" "unat (e_claim_batch_size ?e) = 50"
    by (simp_all add: engine_new_def engine_config_new_def)
  have keys: "{k. \<exists>j. v_jobs (mem_view (db ?w)) k = Some j \<and> job_due 1000 j} = {''a''}"
    using sample_listed_job(1) by (auto simp: sample_listed_job(4) split: if_splits)
  have due: "due_keys 1000 (mem_view (db ?w)) = {}" by (simp add: due_keys_def sample_listed_job(5))
  have "settles sample_ext 1000 sample_listed"
    by (simp add: settles_def next_run_def compute_next_run_def sample_job_fields sample_ext_def)
  then have s: "advances sample_ext (\<lambda>_. True) 1000 j" "settles sample_ext 1000 j"
    if "v_jobs (mem_view (db ?w)) k = Some j" for k j
    using that sample_listed_job(2) by (auto simp: sample_listed_job(4) split: if_splits)
  have fresh: "distinct (drawn_keys sample_ext ?w (card {''a''}))"
    "set (drawn_keys sample_ext ?w (card {''a''})) \<inter> dom (v_runs (mem_view (db ?w))) = {}"
    by (simp_all add: drawn_keys_def sample_listed_job(5))
  have ticks: "card {''a''} + card (due_keys 1000 (mem_view (db ?w))) \<le> 1 * unat (e_claim_batch_size ?e)"
    by (simp add: due e(3))
  obtain w' where w': "engine_loop sample_ext ?e (replicate 1 PollTick) ?w = (Ok False, w')"
    "\<forall>k j. v_jobs (mem_view (db ?w)) k = Some j \<and> job_due 1000 j \<longrightarrow>
      (\<exists>i r. v_runs (mem_view (db w')) i = Some r \<and> r_status r = Leased \<and> r_job_id r = k \<and>
        r_scheduled_for r = the (j_next_run_at j))"
    using enough_polls_drain [where n = 1, OF sample_listed_job(3) e(1,2) fc lend _ _ fresh [folded keys] ticks [folded keys]] s
    by auto
  have "v_jobs (mem_view (db ?w)) ''a'' = Some sample_listed" by (simp add: sample_listed_job(4))
  with w'(2) sample_listed_job(1) obtain i r where "v_runs (mem_view (db w')) i = Some r" "r_status r = Leased"
    "r_job_id r = ''a''" "r_scheduled_for r = the (j_next_run_at sample_listed)" by blast
  then show ?thesis using w'(1) by (intro exI [of _ w']) (auto simp: sample_job_fields)
qed

end
