(* ===== verification/Interleavings.thy ===== *)
theory Interleavings
  imports Sqlite_Clients Claim_Progress
begin

section \<open>Operations that interleave between their store calls\<close>

text \<open>
  The store is locked for one call, not for an operation: the materializer and the recovery work on
  copies they have listed, and \<open>pause\<close> writes back the copy it has read. Here another operation comes
  in between, on the definitions of the operations themselves, which take the copy as an argument.
\<close>

lemma preserves_src [preserve_intros]:
  "preserves (\<lambda>w. utc_src w = u) (on_db m)" "preserves (\<lambda>w. utc_src w = u) utc_now"
  "preserves (\<lambda>w. utc_src w = u) (println l)"
  by (auto simp: preserves_def on_db_def utc_now_def println_def split: prod.splits)

lemma run_cancel_src: "utc_src (snd (run_cancel S k w)) = utc_src w"
proof -
  have "preserves (\<lambda>v. utc_src v = utc_src w) (run_cancel S k)"
    unfolding run_cancel_def store_update_run_def
    by (intro preserves_andthen preserves_map_err preserves_if preserves_fail preserves_src)
  from preservesD [OF this refl] show ?thesis .
qed

subsection \<open>Over any store\<close>

context leyla_store
begin

text \<open>A run cancelled after the recovery has listed it.\<close>

lemma cancel_undone:
  assumes "invar (db w)" "utc_ok okt w" "okt now"
    and thr: "x_td_from_std E thr = Inr d" "x_dt_sub E now d = Some cutoff" "okt cutoff"
    and stored: "v_runs (view (db w)) (x_uuid_str E (r_run_id r)) = Some r" "run_stale now cutoff r" "r_status r = Leased"
  shows "\<exists>rs w1 w2 r1 r2. op_get_stale_runs S now thr (db w) = (Ok rs, db w) \<and> r \<in> set rs \<and>
    run_cancel S (x_uuid_str E (r_run_id r)) w = (Ok (), w1) \<and>
    v_runs (view (db w1)) (x_uuid_str E (r_run_id r)) = Some r1 \<and> r_status r1 = Cancelled \<and>
    recover_stale_run E S now r n w1 = (Ok (n + 1), w2) \<and> invar (db w2) \<and>
    v_runs (view (db w2)) (x_uuid_str E (r_run_id r)) = Some r2 \<and> r_status r2 = Scheduled"
proof -
  let ?k = "x_uuid_str E (r_run_id r)"
  have "r \<in> ran (v_runs (view (db w)))" using stored(1) by (rule ranI)
  then obtain rs where rs: "op_get_stale_runs S now thr (db w) = (Ok rs, db w)" "r \<in> set rs"
    using stale_runs_law [OF assms(1,3) thr] stored(2) by blast
  obtain w1 t where w1: "run_cancel S ?k w = (Ok (), w1)" "invar (db w1)"
    "view (db w1) = (view (db w))\<lparr>v_runs := (v_runs (view (db w)))
      (?k \<mapsto> r\<lparr>r_status := Cancelled, r_finished_at := Some (utc_src w (utc_idx w)), r_updated_at := t\<rparr>)\<rparr>"
    using run_cancel_effect [OF assms(1,2), of ?k] stored(1,3) by auto
  let ?r1 = "r\<lparr>r_status := Cancelled, r_finished_at := Some (utc_src w (utc_idx w)), r_updated_at := t\<rparr>"
  have v1: "v_runs (view (db w1)) ?k = Some ?r1" by (simp add: w1(3))
  have ok1: "utc_ok okt w1" using assms(2) run_cancel_src [of S ?k w] by (simp add: w1(1) utc_ok_def)
  have pok: "patch_ok okt okv (release_patch now)" using assms(3) by simp
  obtain w2 t2 where w2: "store_update_run S ?k (release_patch now) w1 = (Ok (), w2)" "invar (db w2)"
    "view (db w2) = (view (db w1))\<lparr>v_runs := (v_runs (view (db w1)))(?k \<mapsto> apply_patch t2 (release_patch now) ?r1)\<rparr>"
    using store_update_run_law [OF w1(2) ok1 v1 status_patch_neq(2) pok] by blast
  have "recover_stale_run E S now r n w1 = (Ok (n + 1), w2)"
    using w2(1) stored(3) by (simp add: recover_stale_run_def Let_def andthen_def)
  moreover have "v_runs (view (db w2)) ?k = Some (apply_patch t2 (release_patch now) ?r1)" by (simp add: w2(3))
  moreover have "r_status (apply_patch t2 (release_patch now) ?r1) = Scheduled" by (simp add: apply_status_patch)
  moreover have "r_status ?r1 = Cancelled" by simp
  ultimately show ?thesis using rs w1(1) v1 w2(2) by blast
qed

text \<open>A job paused, or removed, after the materializer has listed it.\<close>

lemma listed_job:
  assumes "invar s" "op_list_jobs S s = (Ok js, s')" "j \<in> set js"
  shows "v_jobs (view s) (j_id j) = Some j"
proof -
  have "j \<in> ran (v_jobs (view s))" using list_jobs_law [OF assms(1)] assms(2,3) by auto
  then show ?thesis using view_job_key [OF assms(1)] by (auto simp: ran_def)
qed

lemma job_returns:
  assumes "invar (db w)" "utc_ok okt w" "okt now" "e_store e = S"
    and listed: "op_list_jobs S (db w) = (Ok js, db w)" "j \<in> set js" "job_due now j" "advances E okt now j"
    and fresh: "v_runs (view (db w)) (x_uuid_str E (uuid_src w (uuid_idx w))) = None"
  shows "(\<exists>w1 w2. engine_pause e (j_id j) w = (Ok (), w1) \<and>
      v_jobs (view (db w1)) (j_id j) = Some (j\<lparr>j_enabled := False\<rparr>) \<and>
      materialize_job E S now j n w1 = (Ok (n + 1), w2) \<and> invar (db w2) \<and>
      v_jobs (view (db w2)) (j_id j) = Some (advance_job E now j)) \<and>
    (\<exists>w1 w2. engine_unschedule e (j_id j) w = (Ok (), w1) \<and> v_jobs (view (db w1)) (j_id j) = None \<and>
      materialize_job E S now j n w1 = (Ok (n + 1), w2) \<and> invar (db w2) \<and>
      v_jobs (view (db w2)) (j_id j) = Some (advance_job E now j))"
proof -
  have st: "v_jobs (view (db w)) (j_id j) = Some j" by (rule listed_job [OF assms(1) listed(1,2)])
  have job: "job_ok okt okv j" by (rule view_job_ok [OF assms(1) st])
  have back_again: "\<exists>w2. materialize_job E S now j n (w\<lparr>db := d\<rparr>) = (Ok (n + 1), w2) \<and> invar (db w2) \<and>
      v_jobs (view (db w2)) (j_id j) = Some (advance_job E now j)"
    if "invar d" "v_runs (view d) = v_runs (view (db w))" for d
  proof -
    have "invar (db (w\<lparr>db := d\<rparr>))" "utc_ok okt (w\<lparr>db := d\<rparr>)"
      "v_runs (view (db (w\<lparr>db := d\<rparr>))) (x_uuid_str E (uuid_src (w\<lparr>db := d\<rparr>) (uuid_idx (w\<lparr>db := d\<rparr>)))) = None"
      using that assms(2) fresh by (simp_all add: utc_ok_def)
    from materialize_job_listed [OF this(1,2) assms(3) listed(3,4) job this(3)]
    obtain d' where "materialize_job E S now j n (w\<lparr>db := d\<rparr>) = (Ok (n + 1), draw 1 (w\<lparr>db := d\<rparr>)\<lparr>db := d'\<rparr>)"
      "invar d'" "view d' = materialized E now (w\<lparr>db := d\<rparr>) [j] (view (db (w\<lparr>db := d\<rparr>)))" by blast
    then show ?thesis by (auto simp: materialized_def)
  qed
  obtain d where d: "engine_pause e (j_id j) w = (Ok (), w\<lparr>db := d\<rparr>)" "invar d"
      "view d = (view (db w))\<lparr>v_jobs := (v_jobs (view (db w)))(j_id j \<mapsto> j\<lparr>j_enabled := False\<rparr>)\<rparr>"
    using set_enabled_effect [OF assms(1) st, of False] unfolding engine_pause_def assms(4) by auto
  obtain d' where d': "op_remove_job S (j_id j) (db w) = (Ok (), d')" "invar d'"
      "view d' = (view (db w))\<lparr>v_jobs := (v_jobs (view (db w)))(j_id j := None)\<rparr>"
    using remove_job_Some [OF assms(1) st] by blast
  have "engine_unschedule e (j_id j) w = (Ok (), w\<lparr>db := d'\<rparr>)"
    using d'(1) by (simp add: engine_unschedule_def assms(4) on_db_def)
  moreover have "v_jobs (view (db (w\<lparr>db := d'\<rparr>))) (j_id j) = None" by (simp add: d'(3))
  moreover have "v_jobs (view (db (w\<lparr>db := d\<rparr>))) (j_id j) = Some (j\<lparr>j_enabled := False\<rparr>)" by (simp add: d(3))
  moreover have "v_runs (view d) = v_runs (view (db w))" "v_runs (view d') = v_runs (view (db w))"
    by (simp_all add: d(3) d'(3))
  ultimately show ?thesis
    using d(1) back_again [OF d(2)] back_again [OF d'(2)] by blast
qed

text \<open>
  \<open>pause\<close> reads the job, the materializer runs it, \<open>pause\<close> writes its copy back: the job is due again
  for the time it was run for.
\<close>

lemma pause_repeats:
  assumes "invar (db w)" "utc_ok okt w" "okt now" "e_store e = S"
    and read: "op_get_job S k (db w) = (Ok j, db w)" "job_due now j" "advances E okt now j"
    and fresh: "distinct (drawn_keys E w 2)" "set (drawn_keys E w 2) \<inter> dom (v_runs (view (db w))) = {}"
  shows "\<exists>w1 w2 w3 w4. materialize_job E S now j n w = (Ok (n + 1), w1) \<and>
    on_db (op_upsert_job S (j\<lparr>j_enabled := False\<rparr>)) w1 = (Ok (), w2) \<and>
    engine_resume e k w2 = (Ok (), w3) \<and> v_jobs (view (db w3)) k = Some j \<and>
    materialize_job E S now j n w3 = (Ok (n + 1), w4) \<and> invar (db w4) \<and>
    (\<exists>k1 k2 r1 r2. k1 \<noteq> k2 \<and> {k1, k2} \<inter> dom (v_runs (view (db w))) = {} \<and>
      v_runs (view (db w4)) = (v_runs (view (db w)))(k1 \<mapsto> r1, k2 \<mapsto> r2) \<and> r_job_id r1 = k \<and> r_job_id r2 = k \<and>
      j_next_run_at j = Some (r_scheduled_for r1) \<and> r_scheduled_for r2 = r_scheduled_for r1)"
proof -
  let ?k1 = "x_uuid_str E (uuid_src w (uuid_idx w))" and ?k2 = "x_uuid_str E (uuid_src w (Suc (uuid_idx w)))"
  have keys: "?k1 \<noteq> ?k2" "v_runs (view (db w)) ?k1 = None" "v_runs (view (db w)) ?k2 = None"
    using fresh by (auto simp: numeral_2_eq_2 drawn_keys_Suc)
  have st: "v_jobs (view (db w)) k = Some j"
    using read(1) get_job_law [OF assms(1), of k] by (auto split: option.splits)
  have k: "j_id j = k" by (rule view_job_key [OF assms(1) st])
  have job: "job_ok okt okv j" by (rule view_job_ok [OF assms(1) st])
  obtain d1 where d1: "materialize_job E S now j n w = (Ok (n + 1), draw 1 w\<lparr>db := d1\<rparr>)" "invar d1"
      "view d1 = materialized E now w [j] (view (db w))"
    using materialize_job_listed [OF assms(1-3) read(2,3) job keys(2)] by blast
  have "job_ok okt okv (j\<lparr>j_enabled := False\<rparr>)" using job by (simp add: job_ok_def)
  then obtain d2 where d2: "op_upsert_job S (j\<lparr>j_enabled := False\<rparr>) d1 = (Ok (), d2)" "invar d2"
      "view d2 = (view d1)\<lparr>v_jobs := (v_jobs (view d1))(k \<mapsto> j\<lparr>j_enabled := False\<rparr>)\<rparr>"
    using upsert_job_law [OF d1(2)] k by fastforce
  let ?w2 = "draw 1 w\<lparr>db := d2\<rparr>"
  have "invar (db ?w2)" "v_jobs (view (db ?w2)) k = Some (j\<lparr>j_enabled := False\<rparr>)"
    using d2(2,3) by simp_all
  then obtain d3 where d3: "engine_resume e k ?w2 = (Ok (), ?w2\<lparr>db := d3\<rparr>)" "invar d3"
      "view d3 = (view d2)\<lparr>v_jobs := (v_jobs (view d2))(k \<mapsto> j\<lparr>j_enabled := True\<rparr>)\<rparr>"
    using set_enabled_effect [of ?w2 k "j\<lparr>j_enabled := False\<rparr>" True] unfolding engine_resume_def assms(4) by auto
  have j: "j\<lparr>j_enabled := True\<rparr> = j" using read(2) by (cases j) (simp add: job_due_def)
  let ?w3 = "?w2\<lparr>db := d3\<rparr>"
  have runs: "v_runs (view d3) = (v_runs (view (db w)))(?k1 \<mapsto> new_run w j)"
    by (simp add: d3(3) d2(3) d1(3) materialized_def)
  have pre: "invar (db ?w3)" "utc_ok okt ?w3"
      "v_runs (view (db ?w3)) (x_uuid_str E (uuid_src ?w3 (uuid_idx ?w3))) = None"
    using d3(2) assms(2) keys by (simp_all add: utc_ok_def runs)
  obtain d4 where d4: "materialize_job E S now j n ?w3 = (Ok (n + 1), draw 1 ?w3\<lparr>db := d4\<rparr>)" "invar d4"
      "view d4 = materialized E now ?w3 [j] (view (db ?w3))"
    using materialize_job_listed [OF pre(1,2) assms(3) read(2,3) job pre(3)] by blast
  have "v_runs (view d4) = (v_runs (view (db w)))(?k1 \<mapsto> new_run w j, ?k2 \<mapsto> new_run ?w3 j)"
    by (simp add: d4(3) materialized_def runs)
  moreover have "r_job_id (new_run w j) = k" "r_job_id (new_run ?w3 j) = k"
      "j_next_run_at j = Some (r_scheduled_for (new_run w j))"
      "r_scheduled_for (new_run ?w3 j) = r_scheduled_for (new_run w j)"
    using read(2) k by (auto simp: new_run_def job_run_new_scheduled_def job_due_def split: option.splits)
  moreover have "{?k1, ?k2} \<inter> dom (v_runs (view (db w))) = {}" using keys(2,3) by auto
  ultimately have "\<exists>k1 k2 r1 r2. k1 \<noteq> k2 \<and> {k1, k2} \<inter> dom (v_runs (view (db w))) = {} \<and>
      v_runs (view d4) = (v_runs (view (db w)))(k1 \<mapsto> r1, k2 \<mapsto> r2) \<and> r_job_id r1 = k \<and> r_job_id r2 = k \<and>
      j_next_run_at j = Some (r_scheduled_for r1) \<and> r_scheduled_for r2 = r_scheduled_for r1"
    using keys(1) by blast
  moreover have "on_db (op_upsert_job S (j\<lparr>j_enabled := False\<rparr>)) (draw 1 w\<lparr>db := d1\<rparr>) = (Ok (), ?w2)"
    using d2(1) by (simp add: on_db_def)
  moreover have "v_jobs (view (db ?w3)) k = Some j" by (simp add: d3(3) j)
  ultimately show ?thesis
    using d1(1) d3(1) d4(1,2)
    by (intro exI [of _ "draw 1 w\<lparr>db := d1\<rparr>"] exI [of _ ?w2] exI [of _ ?w3] exI [of _ "draw 1 ?w3\<lparr>db := d4\<rparr>"]) simp
qed

end

subsection \<open>Properties\<close>

text \<open>
  C10: \<open>pause\<close> and \<open>unschedule\<close> are lost when the materializer has listed the job before: it writes
  its copy of the job back, so the paused job is enabled again and the removed job is stored again,
  and it gets another run.
\<close>
lemma listed_job_returns:
  assumes "mem_inv E (db w)" "e_store e = memory_ops E"
    and "op_list_jobs (memory_ops E) (db w) = (Ok js, db w)" "j \<in> set js" "job_due now j" "advances E (\<lambda>_. True) now j"
    and "v_runs (mem_view (db w)) (x_uuid_str E (uuid_src w (uuid_idx w))) = None"
  shows "(\<exists>w1 w2. engine_pause e (j_id j) w = (Ok (), w1) \<and>
      v_jobs (mem_view (db w1)) (j_id j) = Some (j\<lparr>j_enabled := False\<rparr>) \<and>
      materialize_job E (memory_ops E) now j n w1 = (Ok (n + 1), w2) \<and> mem_inv E (db w2) \<and>
      v_jobs (mem_view (db w2)) (j_id j) = Some (advance_job E now j)) \<and>
    (\<exists>w1 w2. engine_unschedule e (j_id j) w = (Ok (), w1) \<and> v_jobs (mem_view (db w1)) (j_id j) = None \<and>
      materialize_job E (memory_ops E) now j n w1 = (Ok (n + 1), w2) \<and> mem_inv E (db w2) \<and>
      v_jobs (mem_view (db w2)) (j_id j) = Some (advance_job E now j))"
  by (rule leyla_store.job_returns [OF mem.leyla_store_axioms assms(1) utc_ok_True TrueI assms(2-7)])

lemma listed_job_returns_witness:
  "\<exists>w1 w2. engine_unschedule (engine_new (engine_config_new (memory_ops sample_ext) SystemClock ''i'')) ''a''
      (sample_sys (sample_jobs [sample_listed])) = (Ok (), w1) \<and>
    materialize_job sample_ext (memory_ops sample_ext) 1000 sample_listed 0 w1 = (Ok 1, w2) \<and>
    v_jobs (mem_view (db w2)) ''a'' \<noteq> None"
proof -
  let ?w = "sample_sys (sample_jobs [sample_listed])"
  let ?e = "engine_new (engine_config_new (memory_ops sample_ext) SystemClock ''i'')"
  obtain js where js: "op_list_jobs (memory_ops sample_ext) (db ?w) = (Ok js, db ?w)"
      "set js = ran (v_jobs (mem_view (db ?w)))"
    using mem.list_jobs_law [OF sample_listed_job(3)] by blast
  have "sample_listed \<in> set js" by (simp add: js(2) sample_listed_job(4))
  then show ?thesis
    using listed_job_returns [OF sample_listed_job(3) _ js(1) _ sample_listed_job(1,2), where e = ?e and n = 0]
    by (fastforce simp: engine_new_def engine_config_new_def sample_listed_job(5) sample_job_fields)
qed



text \<open>
  C12: \<open>run cancel\<close> over SQLite is lost when the recovery has listed the run before: the recovery
  does not look at the run again and schedules it, so the cancelled run is claimed once more.
\<close>
lemma cancel_lost:
  assumes "sql_inv E okt okv (db w)" "utc_ok okt w" "okt now"
    and "x_td_from_std E thr = Inr d" "x_dt_sub E now d = Some cutoff" "okt cutoff"
    and "v_runs (sql_view E (db w)) (x_uuid_str E (r_run_id r)) = Some r" "run_stale now cutoff r" "r_status r = Leased"
  shows "\<exists>rs w1 w2 r1 r2. op_get_stale_runs (sqlite_ops E no_fault) now thr (db w) = (Ok rs, db w) \<and> r \<in> set rs \<and>
    run_cancel (sqlite_ops E no_fault) (x_uuid_str E (r_run_id r)) w = (Ok (), w1) \<and>
    v_runs (sql_view E (db w1)) (x_uuid_str E (r_run_id r)) = Some r1 \<and> r_status r1 = Cancelled \<and>
    recover_stale_run E (sqlite_ops E no_fault) now r n w1 = (Ok (n + 1), w2) \<and> sql_inv E okt okv (db w2) \<and>
    v_runs (sql_view E (db w2)) (x_uuid_str E (r_run_id r)) = Some r2 \<and> r_status r2 = Scheduled"
  by (rule leyla_store.cancel_undone [OF sq.leyla_store_axioms assms])

lemma cancel_lost_witness:
  "\<exists>w1 w2 r2. run_cancel (sqlite_ops sample_ext no_fault) ''u'' (sample_sys (sample_sqlite [sample_run 1 Leased 3])) = (Ok (), w1) \<and>
    recover_stale_run sample_ext (sqlite_ops sample_ext no_fault) 400000000000 (sample_run 1 Leased 3) 0 w1 = (Ok 1, w2) \<and>
    v_runs (sql_view sample_ext (db w2)) ''u'' = Some r2 \<and> r_status r2 = Scheduled"
proof -
  let ?w = "sample_sys (sample_sqlite [sample_run 1 Leased 3])"
  have inv: "sql_inv sample_ext sample_okt sample_okv (db ?w)"
    unfolding sample_sys_def sys.simps by (rule sample_sqlite_inv [OF sample_one_rep])
  have utc: "utc_ok sample_okt ?w" by (simp add: utc_ok_def sample_sys_def)
  have thr: "x_td_from_std sample_ext 300000000000 = Inr 300000000000"
      "x_dt_sub sample_ext 400000000000 300000000000 = Some 100000000000"
    by (simp_all add: sample_ext_def)
  have key: "x_uuid_str sample_ext (r_run_id (sample_run 1 Leased 3)) = ''u''" by (simp add: sample_run_fields)
  have run: "v_runs (sql_view sample_ext (db ?w)) (x_uuid_str sample_ext (r_run_id (sample_run 1 Leased 3))) =
      Some (sample_run 1 Leased 3)" "run_stale 400000000000 100000000000 (sample_run 1 Leased 3)"
      "r_status (sample_run 1 Leased 3) = Leased"
    unfolding key by (simp_all add: sample_sys_def sample_one_view sample_run_fields run_stale_def)
  show ?thesis
    using cancel_lost [OF inv utc _ thr _ run, of 0] unfolding key by fastforce
qed

end
