(* ===== verification/Unit_Tests.thy ===== *)
theory Unit_Tests
  imports Retry_Policy Dispatch_Policies Lifecycle Due_Runs Executors
begin

section \<open>The repository's unit tests, on the model\<close>

text \<open>
  The \<open>#[test]\<close> functions beside the code, each translated to the condition under which none of its
  assertions fails. That they hold checks the definitions of the model against what the authors
  expect of the code. The tests of the stores are in \<open>Store_Tests\<close>.
\<close>

subsection \<open>policies/retry.rs\<close>

definition test_policy :: "u32 \<Rightarrow> retry_strategy \<Rightarrow> u64 \<Rightarrow> bool \<Rightarrow> retry_policy" where
  "test_policy attempts strategy cap jitter = \<lparr>rp_max_attempts = attempts, rp_strategy = strategy,
     rp_base_delay_ms = 1000, rp_max_delay_ms = cap, rp_jitter = jitter\<rparr>"

abbreviation delay_is :: "bool \<Rightarrow> u32 \<Rightarrow> retry_policy \<Rightarrow> u32 \<Rightarrow> u64 \<Rightarrow> bool" where
  "delay_is checks nanos policy attempt d \<equiv> compute_delay checks nanos policy attempt = (Ok d :: (unit, u64) outcome)"

definition fixed_returns_base_for_any_attempt :: "bool \<Rightarrow> u32 \<Rightarrow> bool" where
  "fixed_returns_base_for_any_attempt checks nanos \<longleftrightarrow>
    (let policy = test_policy 5 Fixed 60000 False
     in delay_is checks nanos policy 1 1000 \<and> delay_is checks nanos policy 2 1000 \<and>
        delay_is checks nanos policy 5 1000)"

definition linear_scales_with_attempt :: "bool \<Rightarrow> u32 \<Rightarrow> bool" where
  "linear_scales_with_attempt checks nanos \<longleftrightarrow>
    (let policy = test_policy 5 Linear 60000 False
     in delay_is checks nanos policy 1 1000 \<and> delay_is checks nanos policy 2 2000 \<and>
        delay_is checks nanos policy 3 3000 \<and> delay_is checks nanos policy 5 5000)"

definition exponential_doubles_each_attempt :: "bool \<Rightarrow> u32 \<Rightarrow> bool" where
  "exponential_doubles_each_attempt checks nanos \<longleftrightarrow>
    (let policy = test_policy 5 Exponential 60000 False
     in delay_is checks nanos policy 1 1000 \<and> delay_is checks nanos policy 2 2000 \<and>
        delay_is checks nanos policy 3 4000 \<and> delay_is checks nanos policy 4 8000 \<and>
        delay_is checks nanos policy 5 16000)"

definition caps_at_max_delay :: "bool \<Rightarrow> u32 \<Rightarrow> bool" where
  "caps_at_max_delay checks nanos \<longleftrightarrow>
    (let policy = test_policy 10 Exponential 10000 False
     in delay_is checks nanos policy 5 10000 \<and> delay_is checks nanos policy 10 10000)"

text \<open>A hundred calls, each with its own reading \<open>nanos i\<close> of the clock.\<close>

definition jitter_stays_within_bounds :: "bool \<Rightarrow> (nat \<Rightarrow> u32) \<Rightarrow> bool" where
  "jitter_stays_within_bounds checks nanos \<longleftrightarrow>
    (let policy = test_policy 5 Fixed 60000 True
     in list_all (\<lambda>i. case compute_delay checks (nanos i) policy 1 :: (unit, u64) outcome of
          Ok delay \<Rightarrow> 500 \<le> delay \<and> delay \<le> 1500 | _ \<Rightarrow> False) [0..<100])"

definition should_retry_true_for_attempt_less_than_max :: bool where
  "should_retry_true_for_attempt_less_than_max \<longleftrightarrow>
    (let policy = test_policy 5 Fixed 60000 False
     in should_retry policy 0 \<and> should_retry policy 1 \<and> should_retry policy 4)"

definition should_retry_false_for_attempt_equal_or_greater_than_max :: bool where
  "should_retry_false_for_attempt_equal_or_greater_than_max \<longleftrightarrow>
    (let policy = test_policy 5 Fixed 60000 False
     in \<not> should_retry policy 5 \<and> \<not> should_retry policy 6 \<and> \<not> should_retry policy 100)"

lemma pow2_small:
  "saturating_pow2_u64 (saturating_sub_u32 1 1) = 1" "saturating_pow2_u64 (saturating_sub_u32 2 1) = 2"
  "saturating_pow2_u64 (saturating_sub_u32 3 1) = 4" "saturating_pow2_u64 (saturating_sub_u32 4 1) = 8"
  "saturating_pow2_u64 (saturating_sub_u32 5 1) = 16" "saturating_pow2_u64 (saturating_sub_u32 10 1) = 512"
  by (simp_all add: saturating_pow2_u64_def saturating_sub_u32_def)

lemma retry_tests_pass:
  "fixed_returns_base_for_any_attempt checks nanos" "linear_scales_with_attempt checks nanos"
  "exponential_doubles_each_attempt checks nanos" "caps_at_max_delay checks nanos"
  "should_retry_true_for_attempt_less_than_max" "should_retry_false_for_attempt_equal_or_greater_than_max"
  by (simp_all add: fixed_returns_base_for_any_attempt_def linear_scales_with_attempt_def
      exponential_doubles_each_attempt_def caps_at_max_delay_def should_retry_def
      should_retry_true_for_attempt_less_than_max_def should_retry_false_for_attempt_equal_or_greater_than_max_def
      compute_delay_def test_policy_def mul_u64_def pow2_small min_def)

lemma jitter_test_passes: "jitter_stays_within_bounds checks nanos"
proof -
  have "case compute_delay checks (nanos i) (test_policy 5 Fixed 60000 True) 1 :: (unit, u64) outcome of
      Ok delay \<Rightarrow> 500 \<le> delay \<and> delay \<le> 1500 | _ \<Rightarrow> False" for i
    using compute_delay_jitter_band [of "test_policy 5 Fixed 60000 True" 1 checks "nanos i", where 'a = unit]
    by (auto simp: test_policy_def raw_delay_def word_le_nat_alt)
  then show ?thesis by (simp add: jitter_stays_within_bounds_def list_all_iff)
qed

subsection \<open>policies/misfire.rs and policies/concurrency.rs\<close>

text \<open>Times before \<open>now\<close> by some hours; \<open>None\<close> is the panic of the subtraction.\<close>

definition hour :: int where "hour = 3600 * nanos_per_sec"

definition hours_before :: "'j ext \<Rightarrow> time \<Rightarrow> nat list \<Rightarrow> time list option" where
  "hours_before E now hs = those (map (\<lambda>h. x_dt_sub E now (int h * hour)) hs)"

definition coalesce_returns_only_latest :: "'j ext \<Rightarrow> time \<Rightarrow> bool" where
  "coalesce_returns_only_latest E now \<longleftrightarrow> (case hours_before E now [3, 2, 1] of None \<Rightarrow> False
   | Some overdue \<Rightarrow> (let result = resolve_misfires Coalesce overdue now
       in length result = 1 \<and> result ! 0 = overdue ! 2))"

definition skip_returns_empty :: "'j ext \<Rightarrow> time \<Rightarrow> bool" where
  "skip_returns_empty E now \<longleftrightarrow> (case hours_before E now [2, 1] of None \<Rightarrow> False
   | Some overdue \<Rightarrow> resolve_misfires Skip overdue now = [])"

definition run_immediately_returns_all :: "'j ext \<Rightarrow> time \<Rightarrow> bool" where
  "run_immediately_returns_all E now \<longleftrightarrow>
    (case (hours_before E now [2, 1], x_dt_sub E now (1800 * nanos_per_sec)) of
       (Some ts, Some t3) \<Rightarrow> (let overdue = ts @ [t3]; result = resolve_misfires RunImmediately overdue now
         in length result = 3 \<and> result = overdue)
     | _ \<Rightarrow> False)"

definition replay_all_respects_max_catchup :: "'j ext \<Rightarrow> time \<Rightarrow> bool" where
  "replay_all_respects_max_catchup E now \<longleftrightarrow>
    (case hours_before E now (map (\<lambda>i. 10 - i) [0..<10]) of None \<Rightarrow> False
     | Some overdue \<Rightarrow> (let result = resolve_misfires (ReplayAll (Some 3)) overdue now
         in length result = 3 \<and> result = [overdue ! 7, overdue ! 8, overdue ! 9]))"

definition replay_all_no_limit_returns_all :: "'j ext \<Rightarrow> time \<Rightarrow> bool" where
  "replay_all_no_limit_returns_all E now \<longleftrightarrow>
    (case hours_before E now (map (\<lambda>i. 10 - i) [0..<10]) of None \<Rightarrow> False
     | Some overdue \<Rightarrow> (let result = resolve_misfires (ReplayAll None) overdue now
         in length result = 10 \<and> result = sort overdue))"

definition empty_overdue_returns_empty :: "time \<Rightarrow> bool" where
  "empty_overdue_returns_empty now \<longleftrightarrow> list_all (\<lambda>policy. resolve_misfires policy [] now = [])
     [Skip, RunImmediately, Coalesce, ReplayAll (Some 5), ReplayAll None]"

definition allow_always_permits :: bool where
  "allow_always_permits \<longleftrightarrow> can_dispatch Allow 0 \<and> can_dispatch Allow 1 \<and> can_dispatch Allow 5"

definition forbid_overlap_blocks_when_active_greater_than_zero :: bool where
  "forbid_overlap_blocks_when_active_greater_than_zero \<longleftrightarrow>
    can_dispatch ForbidOverlap 0 \<and> \<not> can_dispatch ForbidOverlap 1 \<and> \<not> can_dispatch ForbidOverlap 5"

definition queue_one_blocks_when_active_greater_than_zero :: bool where
  "queue_one_blocks_when_active_greater_than_zero \<longleftrightarrow>
    can_dispatch QueueOne 0 \<and> \<not> can_dispatch QueueOne 1 \<and> \<not> can_dispatch QueueOne 5"

definition replace_running_always_permits :: bool where
  "replace_running_always_permits \<longleftrightarrow>
    can_dispatch ReplaceRunning 0 \<and> can_dispatch ReplaceRunning 1 \<and> can_dispatch ReplaceRunning 5"

text \<open>Times around \<open>now\<close> are in chrono's range and exact.\<close>

definition near :: "'j ext \<Rightarrow> time \<Rightarrow> bool" where
  "near E now \<longleftrightarrow> (\<forall>d. 0 \<le> d \<and> d \<le> 10 * hour \<longrightarrow> x_dt_sub E now d = Some (now - d) \<and> x_dt_add E now d = Some (now + d)) \<and>
    (\<forall>m. 0 \<le> m \<and> m \<le> 3600000 \<longrightarrow> x_td_millis E m = Some (m * nanos_per_milli)) \<and>
    (\<forall>n. n \<le> 300 * 10 ^ 9 \<longrightarrow> x_td_from_std E n = Inr (int n))"

lemma near_sub: "near E now \<Longrightarrow> 0 \<le> d \<Longrightarrow> d \<le> 10 * hour \<Longrightarrow> x_dt_sub E now d = Some (now - d)"
  and near_add: "near E now \<Longrightarrow> 0 \<le> d \<Longrightarrow> d \<le> 10 * hour \<Longrightarrow> x_dt_add E now d = Some (now + d)"
  and near_millis: "near E now \<Longrightarrow> 0 \<le> m \<Longrightarrow> m \<le> 3600000 \<Longrightarrow> x_td_millis E m = Some (m * nanos_per_milli)"
  and near_from_std: "near E now \<Longrightarrow> n \<le> 300 * 10 ^ 9 \<Longrightarrow> x_td_from_std E n = Inr (int n)"
  by (simp_all add: near_def)

lemma hours_before_near:
  assumes "near E now"
  shows "\<forall>h\<in>set hs. h \<le> 10 \<Longrightarrow> hours_before E now hs = Some (map (\<lambda>h. now - int h * hour) hs)"
proof (induction hs)
  case Nil
  then show ?case by (simp add: hours_before_def)
next
  case (Cons h hs)
  have "x_dt_sub E now (int h * hour) = Some (now - int h * hour)"
    using Cons.prems by (intro near_sub [OF assms]) (simp_all add: hour_def)
  with Cons show ?case by (simp add: hours_before_def)
qed

lemma upt10: "[0..<10] = [0, 1, 2, 3, 4, 5, 6, 7, 8, 9 :: nat]"
  by (simp add: upt_rec)

lemma misfire_tests_pass:
  assumes "near E now"
  shows "coalesce_returns_only_latest E now" "skip_returns_empty E now" "run_immediately_returns_all E now"
    "replay_all_respects_max_catchup E now" "replay_all_no_limit_returns_all E now" "empty_overdue_returns_empty now"
proof -
  note h = hours_before_near [OF assms]
  show "coalesce_returns_only_latest E now"
    by (simp add: coalesce_returns_only_latest_def h resolve_misfires_def hour_def max_def)
  show "skip_returns_empty E now" by (simp add: skip_returns_empty_def h resolve_misfires_def)
  have "x_dt_sub E now (1800 * nanos_per_sec) = Some (now - 1800 * nanos_per_sec)"
    by (rule near_sub [OF assms]) (simp_all add: hour_def)
  then show "run_immediately_returns_all E now"
    by (simp add: run_immediately_returns_all_def h resolve_misfires_def)
  show "replay_all_respects_max_catchup E now"
    by (simp add: replay_all_respects_max_catchup_def h resolve_misfires_def upt10 hour_def)
  show "replay_all_no_limit_returns_all E now"
    by (simp add: replay_all_no_limit_returns_all_def h resolve_misfires_def upt10)
  show "empty_overdue_returns_empty now" by (simp add: empty_overdue_returns_empty_def resolve_misfires_def)
qed

lemma concurrency_tests_pass:
  "allow_always_permits" "forbid_overlap_blocks_when_active_greater_than_zero"
  "queue_one_blocks_when_active_greater_than_zero" "replace_running_always_permits"
  by (simp_all add: allow_always_permits_def forbid_overlap_blocks_when_active_greater_than_zero_def
      queue_one_blocks_when_active_greater_than_zero_def replace_running_always_permits_def can_dispatch_def)

subsection \<open>lifecycle.rs\<close>

definition valid_transitions_succeed :: bool where
  "valid_transitions_succeed \<longleftrightarrow> list_all (\<lambda>(from_st, to_st).
      can_transition from_st to_st \<and> transition from_st to_st = Ok to_st)
    [(Scheduled, Leased), (Scheduled, Cancelled), (Leased, Dispatched), (Leased, Scheduled),
     (Dispatched, Running), (Dispatched, Failed), (Running, Succeeded), (Running, Failed),
     (Running, TimedOut), (Running, Orphaned), (Failed, RetryWait), (Failed, DeadLetter),
     (RetryWait, Scheduled), (TimedOut, RetryWait), (TimedOut, DeadLetter), (Orphaned, Scheduled),
     (Orphaned, DeadLetter)]"

definition invalid_transitions_fail :: bool where
  "invalid_transitions_fail \<longleftrightarrow> list_all (\<lambda>(from_st, to_st).
      \<not> can_transition from_st to_st \<and> is_Err (transition from_st to_st))
    [(Scheduled, Running), (Running, Scheduled), (Succeeded, Failed), (DeadLetter, Scheduled),
     (Cancelled, Running)]"

definition terminal_states_have_no_outgoing :: bool where
  "terminal_states_have_no_outgoing \<longleftrightarrow> list_all (\<lambda>state.
      list_all (\<lambda>target. target \<noteq> state \<longrightarrow> \<not> can_transition state target)
        [Scheduled, Leased, Dispatched, Running, Succeeded, Failed, RetryWait, DeadLetter, Cancelled,
         TimedOut, Orphaned])
    [Succeeded, DeadLetter, Cancelled]"

lemma lifecycle_tests_pass:
  "valid_transitions_succeed" "invalid_transitions_fail" "terminal_states_have_no_outgoing"
  by (simp_all add: valid_transitions_succeed_def invalid_transitions_fail_def
      terminal_states_have_no_outgoing_def transition_def)

subsection \<open>types.rs\<close>

text \<open>
  The five tests that write a value as JSON text and read it back (four schedules, the statuses)
  exercise the implementations serde derives, which are not under src/: they have no counterpart here.
\<close>

definition retry_policy_default_matches_spec :: bool where
  "retry_policy_default_matches_spec \<longleftrightarrow> (let rp = retry_policy_default
     in rp_max_attempts rp = 5 \<and> rp_strategy rp = Exponential \<and> rp_base_delay_ms rp = 1000 \<and>
        rp_max_delay_ms rp = 60000 \<and> rp_jitter rp)"

definition misfire_policy_default_is_coalesce :: bool where
  "misfire_policy_default_is_coalesce \<longleftrightarrow> misfire_policy_default = Coalesce"

definition concurrency_policy_default_is_forbid_overlap :: bool where
  "concurrency_policy_default_is_forbid_overlap \<longleftrightarrow> concurrency_policy_default = ForbidOverlap"

definition leyla_job_new_creates_valid_job :: "'j \<Rightarrow> time \<Rightarrow> bool" where
  "leyla_job_new_creates_valid_job null now \<longleftrightarrow>
    (let job = leyla_job_new null now ''test-job'' Manual (LocalHandler ''my_handler'')
     in j_name job = ''test-job'' \<and> j_enabled job \<and> j_version job = 1 \<and> j_concurrency job = ForbidOverlap \<and>
        j_misfire job = Coalesce \<and> rp_max_attempts (j_retry job) = 5 \<and> j_next_run_at job = None)"

lemma types_tests_pass:
  "retry_policy_default_matches_spec" "misfire_policy_default_is_coalesce"
  "concurrency_policy_default_is_forbid_overlap" "leyla_job_new_creates_valid_job null now"
  by (simp_all add: retry_policy_default_matches_spec_def misfire_policy_default_is_coalesce_def
      concurrency_policy_default_is_forbid_overlap_def leyla_job_new_creates_valid_job_def leyla_job_new_def
      retry_policy_default_def misfire_policy_default_def concurrency_policy_default_def)

subsection \<open>clock.rs\<close>

text \<open>The system clock is read between two other readings.\<close>

definition system_clock_returns_now :: "'s sys \<Rightarrow> bool" where
  "system_clock_returns_now w \<longleftrightarrow>
    (case andthen utc_now (\<lambda>before. andthen (clock_now SystemClock) (\<lambda>now. andthen utc_now (\<lambda>after.
        ret (before \<le> now \<and> now \<le> after)))) w :: (unit, bool) outcome \<times> _ of
       (Ok b, _) \<Rightarrow> b | _ \<Rightarrow> False)"

lemma system_clock_test_passes: "mono (utc_src w) \<Longrightarrow> system_clock_returns_now w"
  by (simp add: system_clock_returns_now_def andthen_def clock_now_def ret_def mono_iff_le_Suc)

text \<open>The assertions on the fake clock; a panic of an operation fails the test.\<close>

abbreviation clock_reads :: "time mutex \<Rightarrow> time \<Rightarrow> bool" where
  "clock_reads c t \<equiv> fst (fake_clock_now c) = (Ok t :: (unit, time) outcome)"

definition fake_clock_returns_fixed_time :: "time \<Rightarrow> bool" where
  "fake_clock_returns_fixed_time fixed_time \<longleftrightarrow>
    (let c0 = fake_clock_new fixed_time;
         c1 = snd (fake_clock_now c0 :: (unit, time) outcome \<times> _);
         c2 = snd (fake_clock_now c1 :: (unit, time) outcome \<times> _)
     in clock_reads c0 fixed_time \<and> clock_reads c1 fixed_time \<and> clock_reads c2 fixed_time)"

definition fake_clock_advance_moves_time :: "'j ext \<Rightarrow> time \<Rightarrow> bool" where
  "fake_clock_advance_moves_time E initial \<longleftrightarrow>
    (case fake_clock_advance E (60 * nanos_per_sec) (fake_clock_new initial) :: (unit, unit) outcome \<times> _ of
       (Ok _, c) \<Rightarrow> (case x_dt_add E initial (60 * nanos_per_sec) of Some t \<Rightarrow> clock_reads c t | None \<Rightarrow> False)
     | _ \<Rightarrow> False)"

definition fake_clock_set_changes_time :: "'j ext \<Rightarrow> time \<Rightarrow> bool" where
  "fake_clock_set_changes_time E initial \<longleftrightarrow>
    (case x_dt_add E initial (3600 * nanos_per_sec) of None \<Rightarrow> False
     | Some new_time \<Rightarrow> (case fake_clock_set new_time (fake_clock_new initial) :: (unit, unit) outcome \<times> _ of
         (Ok _, c) \<Rightarrow> clock_reads c new_time
       | _ \<Rightarrow> False))"

lemma clock_tests_pass:
  assumes "near E now"
  shows "fake_clock_returns_fixed_time now" "fake_clock_advance_moves_time E now" "fake_clock_set_changes_time E now"
proof -
  have "x_dt_add E now (60 * nanos_per_sec) = Some (now + 60 * nanos_per_sec)"
    "x_dt_add E now (3600 * nanos_per_sec) = Some (now + 3600 * nanos_per_sec)"
    by (rule near_add [OF assms]; simp add: hour_def)+
  then show "fake_clock_returns_fixed_time now" "fake_clock_advance_moves_time E now" "fake_clock_set_changes_time E now"
    by (simp_all add: fake_clock_returns_fixed_time_def fake_clock_advance_moves_time_def
        fake_clock_set_changes_time_def fake_clock_now_def fake_clock_new_def fake_clock_advance_def
        fake_clock_set_def with_lock_def Let_def)
qed

subsection \<open>scheduler/due.rs\<close>

definition compute_next_run_manual_returns_none :: "'j ext \<Rightarrow> time \<Rightarrow> bool" where
  "compute_next_run_manual_returns_none E now \<longleftrightarrow>
    compute_next_run E Manual now = (Ok None :: (unit, time option) outcome)"

definition compute_next_run_once_returns_none :: "'j ext \<Rightarrow> time \<Rightarrow> bool" where
  "compute_next_run_once_returns_none E now \<longleftrightarrow>
    compute_next_run E (Once now) now = (Ok None :: (unit, time option) outcome)"

definition compute_next_run_interval_adds_ms :: "'j ext \<Rightarrow> time \<Rightarrow> bool" where
  "compute_next_run_interval_adds_ms E now \<longleftrightarrow>
    (let result = compute_next_run E (Interval 5000 WallClock) now :: (unit, time option) outcome
     in case x_td_millis E 5000 of None \<Rightarrow> False
        | Some d \<Rightarrow> (case x_dt_add E now d of None \<Rightarrow> False | Some t \<Rightarrow> result = Ok (Some t)))"

definition compute_next_run_cron_returns_next :: "'j ext \<Rightarrow> time \<Rightarrow> bool" where
  "compute_next_run_cron_returns_next E now \<longleftrightarrow>
    (case compute_next_run E (Cron ''0 * * * * *'' None) now :: (unit, time option) outcome of
       Ok (Some result) \<Rightarrow> now < result | _ \<Rightarrow> False)"

text \<open>\<open>0 * * * * *\<close> is second 0 of every minute.\<close>

definition every_minute :: "'j ext \<Rightarrow> bool" where
  "every_minute E \<longleftrightarrow> (case x_cron_parse E ''0 * * * * *'' of None \<Rightarrow> False
     | Some next_after \<Rightarrow> \<forall>t. next_after t = Some ((t div (60 * nanos_per_sec) + 1) * (60 * nanos_per_sec)))"

lemma cron_test_passes:
  assumes "every_minute E"
  shows "compute_next_run_cron_returns_next E now"
proof -
  have "now < (now div (60 * nanos_per_sec) + 1) * (60 * nanos_per_sec)"
    using div_mult_mod_eq [of now "60 * nanos_per_sec"] pos_mod_bound [of "60 * nanos_per_sec" now]
    by (simp add: distrib_right)
  with assms show ?thesis
    by (auto simp: every_minute_def compute_next_run_cron_returns_next_def compute_next_run_def split: option.splits)
qed

lemma compute_next_run_tests_pass:
  assumes "near E now"
  shows "compute_next_run_manual_returns_none E now" "compute_next_run_once_returns_none E now"
    "compute_next_run_interval_adds_ms E now"
proof -
  have "x_td_millis E 5000 = Some (5000 * nanos_per_milli)" by (rule near_millis [OF assms]) simp_all
  moreover have "x_dt_add E now (5000 * nanos_per_milli) = Some (now + 5000 * nanos_per_milli)"
    by (rule near_add [OF assms]) (simp_all add: hour_def)
  ultimately show "compute_next_run_manual_returns_none E now" "compute_next_run_once_returns_none E now"
    "compute_next_run_interval_adds_ms E now"
    by (simp_all add: compute_next_run_manual_returns_none_def compute_next_run_once_returns_none_def
        compute_next_run_interval_adds_ms_def compute_next_run_def)
qed

subsection \<open>leyla-executors\<close>

definition full_snapshot :: task_snapshot where
  "full_snapshot = \<lparr>ts_task = ''Fix the bug'', ts_cwd = Some ''/workspace'',
     ts_files = [''src/main.rs'', ''src/lib.rs''], ts_notes = Some ''check error handling'',
     ts_expected_output = Some ''tests pass''\<rparr>"

definition minimal_snapshot :: task_snapshot where
  "minimal_snapshot = \<lparr>ts_task = ''Write a function'', ts_cwd = None, ts_files = [], ts_notes = None,
     ts_expected_output = None\<rparr>"

definition prompt_builds_with_all_fields :: bool where
  "prompt_builds_with_all_fields \<longleftrightarrow> list_all (\<lambda>s. sublist s (build_prompt full_snapshot))
    [''Fix the bug'', ''/workspace'', ''src/main.rs'', ''src/lib.rs'', ''check error handling'', ''tests pass'']"

definition prompt_builds_without_optional_fields :: bool where
  "prompt_builds_without_optional_fields \<longleftrightarrow> sublist ''Write a function'' (build_prompt minimal_snapshot) \<and>
    list_all (\<lambda>s. \<not> sublist s (build_prompt minimal_snapshot))
      [''Working directory'', ''Files'', ''Notes'', ''Expected output'']"

lemma prompt_tests_pass: "prompt_builds_with_all_fields" "prompt_builds_without_optional_fields"
  by (simp_all add: prompt_builds_with_all_fields_def prompt_builds_without_optional_fields_def build_prompt_def
      prompt_parts_def full_snapshot_def minimal_snapshot_def sublist_Cons_right)

definition test_ctx :: "'j \<Rightarrow> u64 \<Rightarrow> 'j run_context" where
  "test_ctx v timeout_ms = \<lparr>c_run_id = ''r1'', c_job_id = ''j1'', c_attempt = 1, c_input = v,
     c_timeout_ms = timeout_ms\<rparr>"

text \<open>\<open>v\<close> and \<open>v42\<close> are the JSON values of the source, \<open>ms\<close> the duration measured.\<close>

definition registered_handler_works :: "'j ext \<Rightarrow> u64 \<Rightarrow> 'j \<Rightarrow> 'j \<Rightarrow> bool" where
  "registered_handler_works E ms v v42 \<longleftrightarrow>
    (case dispatch_handler E ms (handler_register ''add'' (\<lambda>_. Ok v42) []) (test_ctx v 5000) ''add'' of
       Ok res \<Rightarrow> dr_status res = DispatchSucceeded \<and>
         (case dr_output res of Some out \<Rightarrow> sublist ''42'' out | None \<Rightarrow> False)
     | _ \<Rightarrow> False)"

definition unknown_key_errors :: "'j ext \<Rightarrow> u64 \<Rightarrow> 'j \<Rightarrow> bool" where
  "unknown_key_errors E ms v \<longleftrightarrow>
    (case dispatch_handler E ms [] (test_ctx v 5000) ''missing'' of
       Err (ExecFailed msg) \<Rightarrow> sublist ''missing'' msg | _ \<Rightarrow> False)"

definition handler_failure_captured :: "'j ext \<Rightarrow> u64 \<Rightarrow> 'j \<Rightarrow> bool" where
  "handler_failure_captured E ms v \<longleftrightarrow>
    (case dispatch_handler E ms (handler_register ''bad'' (\<lambda>_. Err ''something went wrong'') []) (test_ctx v 5000) ''bad'' of
       Ok res \<Rightarrow> dr_status res = DispatchFailed False \<and>
         (case dr_error res of Some e \<Rightarrow> sublist ''something went wrong'' e | None \<Rightarrow> False)
     | _ \<Rightarrow> False)"

lemma sublist_appendI: "sublist s (p @ s)"
  by simp

lemma handler_tests_pass:
  "sublist ''42'' (x_json_str E v42) \<Longrightarrow> registered_handler_works E ms v v42"
  "unknown_key_errors E ms v" "handler_failure_captured E ms v"
  using sublist_appendI [of "''missing''" "''no handler registered for key: ''"]
  by (simp_all add: registered_handler_works_def unknown_key_errors_def handler_failure_captured_def
      dispatch_handler_def handler_register_def)

definition echo_succeeds :: "run_process \<Rightarrow> u64 \<Rightarrow> 'j \<Rightarrow> bool" where
  "echo_succeeds run ms null \<longleftrightarrow>
    (case dispatch_command run ms 4096 (test_ctx null 5000) ''echo'' [''hello''] of
       Ok result \<Rightarrow> dr_status result = DispatchSucceeded \<and>
         sublist ''hello'' (case dr_output result of Some out \<Rightarrow> out | None \<Rightarrow> [])
     | _ \<Rightarrow> False)"

definition false_command_fails :: "run_process \<Rightarrow> u64 \<Rightarrow> 'j \<Rightarrow> bool" where
  "false_command_fails run ms null \<longleftrightarrow>
    (case dispatch_command run ms 4096 (test_ctx null 5000) ''false'' [] of
       Ok result \<Rightarrow> dr_status result = DispatchFailed True | _ \<Rightarrow> False)"

definition sleep_times_out :: "run_process \<Rightarrow> u64 \<Rightarrow> 'j \<Rightarrow> bool" where
  "sleep_times_out run ms null \<longleftrightarrow>
    dispatch_command run ms 4096 (test_ctx null 200) ''sleep'' [''10''] = Err (ExecTimeout 200)"

definition large_output_clipped_to_max_bytes :: "run_process \<Rightarrow> u64 \<Rightarrow> 'j \<Rightarrow> bool" where
  "large_output_clipped_to_max_bytes run ms null \<longleftrightarrow>
    (case dispatch_command run ms 10 (test_ctx null 5000) ''sh''
        [''-c'', ''printf '' @ [CHR 0x27] @ ''%0.s1234567890'' @ [CHR 0x27] @ '' 1 2 3 4 5''] of
       Ok result \<Rightarrow> dr_status result = DispatchSucceeded \<and>
         (case dr_output result of Some out \<Rightarrow> length out \<le> 10 | None \<Rightarrow> False)
     | _ \<Rightarrow> False)"

text \<open>ASCII text is decoded to itself, and clipped to exactly the limit.\<close>

definition ascii :: "string \<Rightarrow> bool" where
  "ascii s \<longleftrightarrow> list_all (\<lambda>c. (of_char c :: nat) < 128) s"

lemma ascii_chunks:
  assumes "ascii s"
  shows "utf8_chunks s = map (\<lambda>c. (True, [c])) s"
proof -
  have "list_all utf8_char (map (\<lambda>c. [c]) s)"
    using assms by (auto simp: ascii_def list_all_iff utf8_char_def utf8_step_def byte_at_def)
  from utf8_chunks_concat [OF this] show ?thesis by simp
qed

lemma ascii_lossy: "ascii s \<Longrightarrow> from_utf8_lossy s = s"
  by (rule from_utf8_lossy_id) (simp add: utf8_ok_def ascii_chunks list_all_iff)

lemma clipped_chars: "clipped m k (map (\<lambda>c. [c]) s) = map (\<lambda>c. [c]) (take (m - k) s)"
proof (induction s arbitrary: k)
  case (Cons c s)
  show ?case
  proof (cases "k < m")
    case True
    then have "m - k = Suc (m - Suc k)" by simp
    with Cons True show ?thesis by simp
  qed simp
qed simp

lemma ascii_clip: "ascii s \<Longrightarrow> clip m s = take m s"
  by (simp add: clip_eq ascii_chunks comp_def clipped_chars)

text \<open>What the commands of these tests do: \<open>echo\<close>, \<open>false\<close>, \<open>sleep\<close> and \<open>printf\<close> as documented.\<close>

definition shell_documented :: "run_process \<Rightarrow> bool" where
  "shell_documented run \<longleftrightarrow> run ''echo'' [''hello''] 5000 = Exited True (''hello'' @ [CHR 0x0A]) [] \<and>
    run ''false'' [] 5000 = Exited False [] [] \<and> run ''sleep'' [''10''] 200 = Elapsed \<and>
    run ''sh'' [''-c'', ''printf '' @ [CHR 0x27] @ ''%0.s1234567890'' @ [CHR 0x27] @ '' 1 2 3 4 5''] 5000 =
      Exited True (concat (replicate 5 ''1234567890'')) []"

lemma shell_tests_pass:
  assumes "shell_documented run"
  shows "echo_succeeds run ms null" "false_command_fails run ms null" "sleep_times_out run ms null"
    "large_output_clipped_to_max_bytes run ms null"
proof -
  have a: "ascii (''hello'' @ [CHR 0x0A])" "ascii []" "ascii (concat (replicate 5 ''1234567890''))"
    by (simp_all add: ascii_def numeral_eq_Suc)
  show "sleep_times_out run ms null"
    using assms by (simp add: shell_documented_def sleep_times_out_def dispatch_command_def test_ctx_def)
  show "false_command_fails run ms null"
    using assms by (simp add: shell_documented_def false_command_fails_def dispatch_command_def test_ctx_def)
  have "combine_output (''hello'' @ [CHR 0x0A]) [] = ''hello'' @ [CHR 0x0A]"
    by (simp only: combine_output_def ascii_lossy [OF a(1)] ascii_lossy [OF a(2)] Let_def) simp
  then show "echo_succeeds run ms null"
    using assms ascii_clip [OF a(1), of 4096]
    by (simp add: shell_documented_def echo_succeeds_def dispatch_command_def test_ctx_def)
  define p where "p = concat (replicate 5 ''1234567890'')"
  have p: "ascii p" using a(3) by (simp only: p_def)
  have "run ''sh'' [''-c'', ''printf '' @ [CHR 0x27] @ ''%0.s1234567890'' @ [CHR 0x27] @ '' 1 2 3 4 5''] 5000 =
      Exited True p []"
    using assms unfolding shell_documented_def p_def by blast
  moreover have "combine_output p [] = p"
    by (simp only: combine_output_def ascii_lossy [OF p] ascii_lossy [OF a(2)] Let_def) simp
  ultimately show "large_output_clipped_to_max_bytes run ms null"
    by (simp add: large_output_clipped_to_max_bytes_def dispatch_command_def test_ctx_def ascii_clip [OF p])
qed

subsection \<open>All of them\<close>

text \<open>
  The tests above hold for every time, every reading of the clock that jitters, and every choice of
  the third-party code around them that behaves as documented: times near the present are in range,
  the clock does not go back, \<open>0 * * * * *\<close> is every minute, a JSON number prints its digits, and
  \<open>echo\<close>, \<open>false\<close>, \<open>sleep\<close> and \<open>printf\<close> do what their names say.
\<close>
lemma unit_tests_pass:
  assumes "near E now" and "mono (utc_src w)" and "every_minute E" and "sublist ''42'' (x_json_str E v42)" and "shell_documented run"
  shows "fixed_returns_base_for_any_attempt checks nanos \<and> linear_scales_with_attempt checks nanos \<and>
    exponential_doubles_each_attempt checks nanos \<and> caps_at_max_delay checks nanos \<and>
    jitter_stays_within_bounds checks nanos' \<and> should_retry_true_for_attempt_less_than_max \<and>
    should_retry_false_for_attempt_equal_or_greater_than_max \<and>
    coalesce_returns_only_latest E now \<and> skip_returns_empty E now \<and> run_immediately_returns_all E now \<and>
    replay_all_respects_max_catchup E now \<and> replay_all_no_limit_returns_all E now \<and> empty_overdue_returns_empty now \<and>
    allow_always_permits \<and> forbid_overlap_blocks_when_active_greater_than_zero \<and>
    queue_one_blocks_when_active_greater_than_zero \<and> replace_running_always_permits \<and>
    valid_transitions_succeed \<and> invalid_transitions_fail \<and> terminal_states_have_no_outgoing \<and>
    retry_policy_default_matches_spec \<and> misfire_policy_default_is_coalesce \<and>
    concurrency_policy_default_is_forbid_overlap \<and> leyla_job_new_creates_valid_job null now \<and>
    system_clock_returns_now w \<and> fake_clock_returns_fixed_time now \<and> fake_clock_advance_moves_time E now \<and> fake_clock_set_changes_time E now \<and>
    compute_next_run_manual_returns_none E now \<and> compute_next_run_once_returns_none E now \<and>
    compute_next_run_interval_adds_ms E now \<and> compute_next_run_cron_returns_next E now \<and>
    prompt_builds_with_all_fields \<and> prompt_builds_without_optional_fields \<and>
    registered_handler_works E ms v v42 \<and> unknown_key_errors E ms v \<and> handler_failure_captured E ms v \<and>
    echo_succeeds run ms null' \<and> false_command_fails run ms null' \<and> sleep_times_out run ms null' \<and>
    large_output_clipped_to_max_bytes run ms null'"
  by (intro conjI retry_tests_pass jitter_test_passes misfire_tests_pass [OF assms(1)] concurrency_tests_pass
      lifecycle_tests_pass types_tests_pass system_clock_test_passes [OF assms(2)] clock_tests_pass [OF assms(1)]
      compute_next_run_tests_pass [OF assms(1)] cron_test_passes [OF assms(3)] prompt_tests_pass
      handler_tests_pass(1) [OF assms(4)] handler_tests_pass(2,3) shell_tests_pass [OF assms(5)])

definition sample_process :: run_process where
  "sample_process cmd args t = (if cmd = ''echo'' then Exited True (''hello'' @ [CHR 0x0A]) []
     else if cmd = ''false'' then Exited False [] [] else if cmd = ''sleep'' then Elapsed
     else Exited True (concat (replicate 5 ''1234567890'')) [])"

abbreviation minutely_ext :: "string ext" where
  "minutely_ext \<equiv> sample_ext\<lparr>x_cron_parse := \<lambda>e. if e = ''0 * * * * *'' then
     Some (\<lambda>t. Some ((t div (60 * nanos_per_sec) + 1) * (60 * nanos_per_sec))) else None\<rparr>"

lemma minutely_documented: "near minutely_ext 1000" "every_minute minutely_ext"
  by (auto simp: near_def every_minute_def sample_ext_def hour_def)

lemma unit_tests_pass_witness:
  "replay_all_respects_max_catchup minutely_ext 1000 \<and> compute_next_run_cron_returns_next minutely_ext 1000 \<and>
    large_output_clipped_to_max_bytes sample_process 3 ()"
proof -
  have js: "sublist ''42'' (x_json_str minutely_ext ''42'')" by (simp add: sample_ext_def)
  have clock: "mono (utc_src (sample_sys ()))" by (simp add: sample_sys_def mono_def)
  have sh: "shell_documented sample_process" unfolding shell_documented_def sample_process_def by simp
  show ?thesis using unit_tests_pass [OF minutely_documented(1) clock minutely_documented(2) js sh, where ms = 3 and
      null' = "()" and null = "()" and checks = True and nanos = 0 and nanos' = "\<lambda>_. 0" and v = "[]"]
    by (simp only: simp_thms)
qed

end
