(* ===== verification/Store_Tests.thy ===== *)
theory Store_Tests
  imports Unit_Tests Leyla_Main
begin

section \<open>The repository's store and scheduler tests, on the model\<close>

text \<open>
  The \<open>#[tokio::test]\<close> functions as programs: \<open>.await\<close> runs an operation to its end, \<open>unwrap\<close> turns an
  error into a panic, and so does an assertion that fails. A test passes when it returns. They are
  programs over any store and pass on every store that satisfies the laws of \<open>leyla_store\<close>.
\<close>

definition assert_that :: "bool \<Rightarrow> ('w, 'e, unit) prog" where
  "assert_that b = (if b then ret () else panic)"

definition unwrap_ok :: "('w, 'e, 'a) prog \<Rightarrow> ('w, 'e, 'a) prog" where
  "unwrap_ok m w = (case m w of (Err _, w') \<Rightarrow> (Panic, w') | r \<Rightarrow> r)"

definition unwrap_err :: "('w, 'e, 'a) prog \<Rightarrow> ('w, 'e, 'e) prog" where
  "unwrap_err m w = (case m w of (Err e, w') \<Rightarrow> (Ok e, w') | (_, w') \<Rightarrow> (Panic, w'))"

text \<open>\<open>t - d\<close> on a \<open>DateTime<Utc>\<close>, and \<open>FakeClock::new(now)\<close>.\<close>

definition before :: "'j ext \<Rightarrow> time \<Rightarrow> int \<Rightarrow> ('w, 'e, time) prog" where
  "before E t d = lift_outcome (unwrap (x_dt_sub E t d))"

definition with_fake_clock :: "time \<Rightarrow> ('s sys, 'e, unit) prog" where
  "with_fake_clock now w = (Ok (), w\<lparr>fake_clock := fake_clock_new now\<rparr>)"

subsection \<open>store/memory.rs\<close>

definition make_job :: "'j ext \<Rightarrow> ('s sys, 'e, 'j leyla_job) prog" where
  "make_job E = andthen uuid_new_v4 (\<lambda>u. andthen utc_now (\<lambda>now.
     ret (leyla_job_new (x_json_null E) now (x_uuid_str E u) Manual (LocalHandler ''k''))))"

definition make_run :: "string \<Rightarrow> time \<Rightarrow> ('s sys, 'e, 'j job_run) prog" where
  "make_run job_id scheduled_for = new_scheduled_run job_id scheduled_for 5"

definition upsert_and_get_job :: "'j ext \<Rightarrow> ('s, 'j) store_ops \<Rightarrow> ('s sys, store_error, unit) prog" where
  "upsert_and_get_job E S =
    andthen (make_job E) (\<lambda>job.
    andthen (unwrap_ok (on_db (op_upsert_job S job))) (\<lambda>_.
    andthen (unwrap_ok (on_db (op_get_job S (j_id job)))) (\<lambda>got.
    andthen (assert_that (j_id got = j_id job)) (\<lambda>_.
    assert_that (j_name got = j_name job)))))"

definition remove_job_works :: "'j ext \<Rightarrow> ('s, 'j) store_ops \<Rightarrow> ('s sys, store_error, unit) prog" where
  "remove_job_works E S =
    andthen (make_job E) (\<lambda>job.
    andthen (unwrap_ok (on_db (op_upsert_job S job))) (\<lambda>_.
    andthen (unwrap_ok (on_db (op_remove_job S (j_id job)))) (\<lambda>_.
    andthen (unwrap_err (on_db (op_get_job S (j_id job)))) (\<lambda>err.
    assert_that (case err of NotFound _ \<Rightarrow> True | _ \<Rightarrow> False)))))"

definition claim_due_runs :: "'j ext \<Rightarrow> ('s, 'j) store_ops \<Rightarrow> ('s sys, store_error, unit) prog" where
  "claim_due_runs E S =
    andthen (make_job E) (\<lambda>job.
    andthen (unwrap_ok (on_db (op_upsert_job S job))) (\<lambda>_.
    andthen utc_now (\<lambda>t.
    andthen (before E t (10 * nanos_per_sec)) (\<lambda>past.
    andthen (make_run (j_id job) past) (\<lambda>run.
    andthen (unwrap_ok (on_db (op_insert_run S run))) (\<lambda>_.
    andthen utc_now (\<lambda>now.
    andthen (unwrap_ok (on_db (op_claim_due_runs S now ''worker-1'' 10))) (\<lambda>claimed.
    andthen (assert_that (length claimed = 1)) (\<lambda>_.
    andthen (assert_that (r_status (claimed ! 0) = Leased)) (\<lambda>_.
    andthen (assert_that (r_lease_owner (claimed ! 0) = Some ''worker-1'')) (\<lambda>_.
    andthen (unwrap_ok (on_db (op_claim_due_runs S now ''worker-2'' 10))) (\<lambda>claimed2.
    assert_that (length claimed2 = 0)))))))))))))"

definition update_run_applies_patch :: "'j ext \<Rightarrow> ('s, 'j) store_ops \<Rightarrow> ('s sys, store_error, unit) prog" where
  "update_run_applies_patch E S =
    andthen (make_job E) (\<lambda>job.
    andthen (unwrap_ok (on_db (op_upsert_job S job))) (\<lambda>_.
    andthen utc_now (\<lambda>t.
    andthen (make_run (j_id job) t) (\<lambda>run.
    let run_id = x_uuid_str E (r_run_id run) in
    andthen (unwrap_ok (on_db (op_insert_run S run))) (\<lambda>_.
    andthen (unwrap_ok (store_update_run S run_id (run_patch_default\<lparr>p_status := Some Running\<rparr>))) (\<lambda>_.
    andthen (unwrap_ok (on_db (op_get_run S run_id))) (\<lambda>got.
    assert_that (r_status got = Running))))))))"

definition count_active_runs :: "'j ext \<Rightarrow> ('s, 'j) store_ops \<Rightarrow> ('s sys, store_error, unit) prog" where
  "count_active_runs E S =
    andthen (make_job E) (\<lambda>job.
    andthen (unwrap_ok (on_db (op_upsert_job S job))) (\<lambda>_.
    andthen utc_now (\<lambda>t1.
    andthen (make_run (j_id job) t1) (\<lambda>r1.
    andthen (unwrap_ok (on_db (op_insert_run S r1))) (\<lambda>_.
    andthen (unwrap_ok (store_update_run S (x_uuid_str E (r_run_id r1)) (run_patch_default\<lparr>p_status := Some Running\<rparr>))) (\<lambda>_.
    andthen utc_now (\<lambda>t2.
    andthen (make_run (j_id job) t2) (\<lambda>r2.
    andthen (unwrap_ok (on_db (op_insert_run S r2))) (\<lambda>_.
    andthen (unwrap_ok (store_update_run S (x_uuid_str E (r_run_id r2)) (run_patch_default\<lparr>p_status := Some Succeeded\<rparr>))) (\<lambda>_.
    andthen (unwrap_ok (on_db (op_count_active_runs S (j_id job)))) (\<lambda>n.
    assert_that (n = 1))))))))))))"

definition list_runs_with_filter :: "'j ext \<Rightarrow> ('s, 'j) store_ops \<Rightarrow> ('s sys, store_error, unit) prog" where
  "list_runs_with_filter E S =
    andthen (make_job E) (\<lambda>job.
    andthen (unwrap_ok (on_db (op_upsert_job S job))) (\<lambda>_.
    andthen (for_each (\<lambda>_ _. andthen utc_now (\<lambda>t.
      andthen (make_run (j_id job) t) (\<lambda>r. unwrap_ok (on_db (op_insert_run S r))))) [0..<3] ()) (\<lambda>_.
    andthen (make_job E) (\<lambda>other_job.
    andthen (unwrap_ok (on_db (op_upsert_job S other_job))) (\<lambda>_.
    andthen utc_now (\<lambda>t.
    andthen (make_run (j_id other_job) t) (\<lambda>r_other.
    andthen (unwrap_ok (on_db (op_insert_run S r_other))) (\<lambda>_.
    andthen (unwrap_ok (on_db (op_list_runs S (run_filter_default\<lparr>f_job_id := Some (j_id job)\<rparr>)))) (\<lambda>runs.
    andthen (assert_that (length runs = 3)) (\<lambda>_.
    assert_that (list_all (\<lambda>r. r_job_id r = j_id job) runs)))))))))))"

definition get_stale_runs :: "'j ext \<Rightarrow> ('s, 'j) store_ops \<Rightarrow> ('s sys, store_error, unit) prog" where
  "get_stale_runs E S =
    andthen (make_job E) (\<lambda>job.
    andthen (unwrap_ok (on_db (op_upsert_job S job))) (\<lambda>_.
    andthen utc_now (\<lambda>t.
    andthen (make_run (j_id job) t) (\<lambda>run.
    let run_id = x_uuid_str E (r_run_id run) in
    andthen (unwrap_ok (on_db (op_insert_run S run))) (\<lambda>_.
    andthen utc_now (\<lambda>t2.
    andthen (before E t2 (5 * nanos_per_sec)) (\<lambda>expired_lease.
    andthen (unwrap_ok (store_update_run S run_id
      (run_patch_default\<lparr>p_status := Some Leased, p_lease_expires_at := Some expired_lease\<rparr>))) (\<lambda>_.
    andthen utc_now (\<lambda>now.
    andthen (unwrap_ok (on_db (op_get_stale_runs S now (60 * 10 ^ 9)))) (\<lambda>stale.
    andthen (assert_that (stale \<noteq> [])) (\<lambda>_.
    assert_that (list_ex (\<lambda>r. x_uuid_str E (r_run_id r) = run_id) stale))))))))))))"

subsection \<open>store/sqlite.rs (the other tests of the file are those of the memory store)\<close>

definition list_and_remove_jobs :: "'j ext \<Rightarrow> ('s, 'j) store_ops \<Rightarrow> ('s sys, store_error, unit) prog" where
  "list_and_remove_jobs E S =
    andthen (for_each (\<lambda>_ _. andthen (make_job E) (\<lambda>job. unwrap_ok (on_db (op_upsert_job S job)))) [0..<3] ()) (\<lambda>_.
    andthen (unwrap_ok (on_db (op_list_jobs S))) (\<lambda>jobs.
    andthen (assert_that (length jobs = 3)) (\<lambda>_.
    let jid = j_id (jobs ! 0) in
    andthen (unwrap_ok (on_db (op_remove_job S jid))) (\<lambda>_.
    andthen (unwrap_ok (on_db (op_list_jobs S))) (\<lambda>jobs2.
    assert_that (length jobs2 = 2))))))"

definition claim_due_runs_atomic :: "'j ext \<Rightarrow> ('s, 'j) store_ops \<Rightarrow> ('s sys, store_error, unit) prog" where
  "claim_due_runs_atomic E S =
    andthen (make_job E) (\<lambda>job.
    andthen (unwrap_ok (on_db (op_upsert_job S job))) (\<lambda>_.
    andthen utc_now (\<lambda>t.
    andthen (before E t (10 * nanos_per_sec)) (\<lambda>past.
    andthen (make_run (j_id job) past) (\<lambda>run.
    andthen (unwrap_ok (on_db (op_insert_run S run))) (\<lambda>_.
    andthen utc_now (\<lambda>now.
    andthen (unwrap_ok (on_db (op_claim_due_runs S now ''worker-1'' 10))) (\<lambda>claimed.
    andthen (assert_that (length claimed = 1)) (\<lambda>_.
    andthen (assert_that (r_status (claimed ! 0) = Leased)) (\<lambda>_.
    andthen (unwrap_ok (on_db (op_claim_due_runs S now ''worker-2'' 10))) (\<lambda>claimed2.
    assert_that (length claimed2 = 0))))))))))))"

definition stale_runs_detected :: "'j ext \<Rightarrow> ('s, 'j) store_ops \<Rightarrow> ('s sys, store_error, unit) prog" where
  "stale_runs_detected E S =
    andthen (make_job E) (\<lambda>job.
    andthen (unwrap_ok (on_db (op_upsert_job S job))) (\<lambda>_.
    andthen utc_now (\<lambda>t.
    andthen (make_run (j_id job) t) (\<lambda>run.
    let run_id = x_uuid_str E (r_run_id run) in
    andthen (unwrap_ok (on_db (op_insert_run S run))) (\<lambda>_.
    andthen utc_now (\<lambda>t2.
    andthen (before E t2 (5 * nanos_per_sec)) (\<lambda>expired.
    andthen (unwrap_ok (store_update_run S run_id
      (run_patch_default\<lparr>p_status := Some Leased, p_lease_expires_at := Some expired\<rparr>))) (\<lambda>_.
    andthen utc_now (\<lambda>now.
    andthen (unwrap_ok (on_db (op_get_stale_runs S now (60 * 10 ^ 9)))) (\<lambda>stale.
    assert_that (stale \<noteq> [])))))))))))"

subsection \<open>Running a test\<close>

definition passes :: "('w, 'e, 'a) prog \<Rightarrow> ('a \<Rightarrow> 'w \<Rightarrow> bool) \<Rightarrow> 'w \<Rightarrow> bool" where
  "passes m Q w \<longleftrightarrow> (case m w of (Ok x, w') \<Rightarrow> Q x w' | _ \<Rightarrow> False)"

lemma passes_simps [simp]:
  "passes (ret x) Q w = Q x w"
  "passes (andthen m f) Q w = passes m (\<lambda>x. passes (f x) Q) w"
  "passes (assert_that b) Q' w' = (b \<and> Q' () w')"
  "passes (unwrap_ok n) Q w = passes n Q w"
  "passes (lift_outcome r) Q w = (case r of Ok x \<Rightarrow> Q x w | _ \<Rightarrow> False)"
  by (auto simp: passes_def andthen_def assert_that_def unwrap_ok_def lift_outcome_def ret_def panic_def
      split: prod.splits outcome.splits)

lemma passes_env [simp]:
  "passes utc_now Q w = Q (utc_src w (utc_idx w)) (w\<lparr>utc_idx := Suc (utc_idx w)\<rparr>)"
  "passes uuid_new_v4 R w = R (uuid_src w (uuid_idx w)) (w\<lparr>uuid_idx := Suc (uuid_idx w)\<rparr>)"
  "passes (new_scheduled_run jid t n) P w =
    P (job_run_new_scheduled (utc_src w (utc_idx w)) (uuid_src w (uuid_idx w)) jid t n)
      (w\<lparr>utc_idx := Suc (utc_idx w), uuid_idx := Suc (uuid_idx w)\<rparr>)"
  "passes (with_fake_clock now) U w = U () (w\<lparr>fake_clock := fake_clock_new now\<rparr>)"
  by (simp_all add: passes_def with_fake_clock_def)

lemma passes_weaken: "passes m Q w \<Longrightarrow> (\<And>x w'. Q x w' \<Longrightarrow> Q' x w') \<Longrightarrow> passes m Q' w"
  by (auto simp: passes_def split: prod.splits outcome.splits)

text \<open>
  The environment of a test: the clock does not run backwards, the hundred identifiers that come
  next do not repeat, times around now are exact and can be stored.
\<close>

definition test_env :: "'j ext \<Rightarrow> (time \<Rightarrow> bool) \<Rightarrow> nat \<Rightarrow> 's sys \<Rightarrow> bool" where
  "test_env E okt n w \<longleftrightarrow> mono (utc_src w) \<and> inj_on (\<lambda>i. x_uuid_str E (uuid_src w i)) {n..<n + 100} \<and>
    (\<forall>i. near E (utc_src w i) \<and> (\<forall>d. 0 \<le> d \<and> d \<le> hour \<longrightarrow> okt (utc_src w i - d) \<and> okt (utc_src w i + d)))"

lemma test_env_frame [simp]:
  "test_env E okt n (w\<lparr>db := d\<rparr>) = test_env E okt n w" "test_env E okt n (w\<lparr>utc_idx := i\<rparr>) = test_env E okt n w"
  "test_env E okt n (w\<lparr>uuid_idx := i\<rparr>) = test_env E okt n w" "test_env E okt n (w\<lparr>fake_clock := c\<rparr>) = test_env E okt n w"
  by (simp_all add: test_env_def)

lemma test_env_okt:
  assumes "test_env E okt n w"
  shows "okt (utc_src w i)" "0 \<le> d \<Longrightarrow> d \<le> hour \<Longrightarrow> okt (utc_src w i - d)" "0 \<le> d \<Longrightarrow> d \<le> hour \<Longrightarrow> okt (utc_src w i + d)"
    "utc_ok okt w"
proof -
  show 1: "0 \<le> d \<Longrightarrow> d \<le> hour \<Longrightarrow> okt (utc_src w i - d)" "0 \<le> d \<Longrightarrow> d \<le> hour \<Longrightarrow> okt (utc_src w i + d)" for i d
    using assms by (simp_all add: test_env_def)
  show "okt (utc_src w i)" for i using 1(2) [of 0 i] by (simp add: hour_def)
  then show "utc_ok okt w" by (simp add: utc_ok_def)
qed

lemma test_env_uuid:
  "test_env E okt n w \<Longrightarrow> n \<le> i \<Longrightarrow> i < n + 100 \<Longrightarrow> n \<le> k \<Longrightarrow> k < n + 100 \<Longrightarrow>
    x_uuid_str E (uuid_src w i) = x_uuid_str E (uuid_src w k) \<longleftrightarrow> i = k"
  by (auto simp: test_env_def inj_on_def)

lemma test_env_before:
  "test_env E okt n w \<Longrightarrow> 0 \<le> d \<Longrightarrow> d \<le> hour \<Longrightarrow> x_dt_sub E (utc_src w i) d = Some (utc_src w i - d)"
  "test_env E okt n w \<Longrightarrow> 0 \<le> d \<Longrightarrow> d \<le> hour \<Longrightarrow> x_dt_add E (utc_src w i) d = Some (utc_src w i + d)"
  using near_sub [of E "utc_src w i" d] near_add [of E "utc_src w i" d]
  by (simp_all add: test_env_def hour_def)

lemma test_env_near: "test_env E okt n w \<Longrightarrow> near E (utc_src w i)"
  by (simp add: test_env_def)

lemma test_env_mono: "test_env E okt n w \<Longrightarrow> i \<le> k \<Longrightarrow> utc_src w i \<le> utc_src w k"
  by (auto simp: test_env_def mono_def)

abbreviation empty_view :: "'j store_view" where
  "empty_view \<equiv> \<lparr>v_jobs = Map.empty, v_runs = Map.empty, v_dead = []\<rparr>"

lemma new_run_ok:
  "okt now \<Longrightarrow> okt t \<Longrightarrow> run_ok okt okv (job_run_new_scheduled now u jid t n)"
  by (simp add: run_ok_def job_run_new_scheduled_def)

lemma new_job_ok:
  "okv null \<Longrightarrow> okt now \<Longrightarrow> job_ok okt okv (leyla_job_new null now jid Manual (LocalHandler k))"
  by (simp add: job_ok_def leyla_job_new_def schedule_ok_def executor_ok_def)

lemma new_run_simps [simp]:
  "r_run_id (job_run_new_scheduled now u jid t n) = u" "r_job_id (job_run_new_scheduled now u jid t n) = jid"
  "r_status (job_run_new_scheduled now u jid t n) = Scheduled"
  "r_scheduled_for (job_run_new_scheduled now u jid t n) = t"
  by (simp_all add: job_run_new_scheduled_def)

lemma new_job_simps [simp]:
  "j_id (leyla_job_new null now jid sch x) = jid" "j_name (leyla_job_new null now jid sch x) = jid"
  by (simp_all add: leyla_job_new_def)

lemma patch_simps [simp]:
  "p_status (status_patch st) = Some st" "run_patch_default\<lparr>p_status := Some st\<rparr> = status_patch st"
  by (simp_all add: status_patch_def)

lemma due_keys_one:
  "due_keys now \<lparr>v_jobs = J, v_runs = [k \<mapsto> r], v_dead = D\<rparr> = (if run_due now r then {k} else {})"
  by (auto simp: due_keys_def)

lemma lease_keys_one:
  "lease_keys now owner t {k} \<lparr>v_jobs = J, v_runs = [k \<mapsto> r], v_dead = D\<rparr> =
    \<lparr>v_jobs = J, v_runs = [k \<mapsto> lease_run now owner t r], v_dead = D\<rparr>"
  by (auto simp: lease_keys_def)

definition run_keys :: "('k \<rightharpoonup> 'r) \<Rightarrow> ('r \<Rightarrow> bool) \<Rightarrow> 'k set" where
  "run_keys m P = {k. \<exists>r. m k = Some r \<and> P r}"

lemma run_keys_simps [simp]:
  "run_keys Map.empty P = {}"
  "run_keys (m(k' \<mapsto> x)) P = (if P x then insert k' else id) (run_keys m P - {k'})"
  by (auto simp: run_keys_def)

lemma test_env_past: "test_env E okt n w \<Longrightarrow> i \<le> k \<Longrightarrow> 0 \<le> d \<Longrightarrow> utc_src w i - d \<le> utc_src w k"
  using test_env_mono [of E okt n w i k] by simp

lemma test_env_past_less: "test_env E okt n w \<Longrightarrow> i \<le> k \<Longrightarrow> 0 < d \<Longrightarrow> utc_src w i - d < utc_src w k"
  using test_env_mono [of E okt n w i k] by simp

text \<open>All of it, for a given environment.\<close>

lemma test_env_rules:
  assumes "test_env E okt n w"
  shows "okt (utc_src w i)" "0 \<le> d \<Longrightarrow> d \<le> hour \<Longrightarrow> okt (utc_src w i - d)" "0 \<le> d \<Longrightarrow> d \<le> hour \<Longrightarrow> okt (utc_src w i + d)"
    "near E (utc_src w i)"
    "0 \<le> d \<Longrightarrow> d \<le> hour \<Longrightarrow> x_dt_sub E (utc_src w i) d = Some (utc_src w i - d)"
    "n \<le> i \<Longrightarrow> i < n + 100 \<Longrightarrow> n \<le> k \<Longrightarrow> k < n + 100 \<Longrightarrow>
      x_uuid_str E (uuid_src w i) = x_uuid_str E (uuid_src w k) \<longleftrightarrow> i = k"
    "i \<le> k \<Longrightarrow> 0 \<le> d \<Longrightarrow> utc_src w i - d \<le> utc_src w k"
    "i \<le> k \<Longrightarrow> 0 < d \<Longrightarrow> utc_src w i - d < utc_src w k" "3000000000 \<le> hour" "10000000000 \<le> hour"
    "5000000000 \<le> hour" "30000000000 \<le> hour" "60000000000 \<le> hour" "300000000000 \<le> hour"
  by (rule test_env_okt [OF assms] test_env_near [OF assms] test_env_before [OF assms] test_env_uuid [OF assms]
    test_env_past [OF assms] test_env_past_less [OF assms]; assumption)+ (simp_all add: hour_def)

lemma lease_patch [simp]:
  "(status_patch st)\<lparr>p_lease_expires_at := Some t\<rparr> \<noteq> run_patch_default"
  "patch_ok okt okv ((status_patch st)\<lparr>p_lease_expires_at := Some t\<rparr>) = okt t"
  "apply_patch now ((status_patch st)\<lparr>p_lease_expires_at := Some t\<rparr>) r =
    r\<lparr>r_status := st, r_lease_expires_at := Some t, r_updated_at := now\<rparr>"
  by (simp_all add: status_patch_def run_patch_default_def patch_ok_def apply_patch_def)

context leyla_store
begin

lemma pass_upsert:
  assumes "invar (db w)" "job_ok okt okv j"
    and "\<And>d. invar d \<Longrightarrow> view d = (view (db w))\<lparr>v_jobs := (v_jobs (view (db w)))(j_id j \<mapsto> j)\<rparr> \<Longrightarrow> Q () (w\<lparr>db := d\<rparr>)"
  shows "passes (on_db (op_upsert_job S j)) Q w"
  using upsert_job_law [OF assms(1,2)] assms(3) by (auto simp: passes_def on_db_def)

lemma pass_remove:
  assumes "invar (db w)" "v_jobs (view (db w)) k \<noteq> None"
    and "\<And>d. invar d \<Longrightarrow> view d = (view (db w))\<lparr>v_jobs := (v_jobs (view (db w)))(k := None)\<rparr> \<Longrightarrow> Q () (w\<lparr>db := d\<rparr>)"
  shows "passes (on_db (op_remove_job S k)) Q w"
proof -
  obtain j where "v_jobs (view (db w)) k = Some j" using assms(2) by auto
  from remove_job_Some [OF assms(1) this] assms(3) show ?thesis by (auto simp: passes_def on_db_def)
qed

lemma pass_get_job:
  assumes "invar (db w)" "v_jobs (view (db w)) k \<noteq> None" "Q (the (v_jobs (view (db w)) k)) w"
  shows "passes (on_db (op_get_job S k)) Q w"
  using get_job_law [OF assms(1), of k] assms(2,3) by (auto simp: passes_def on_db_def)

lemma pass_get_no_job:
  assumes "invar (db w)" "v_jobs (view (db w)) k = None" "Q (NotFound k) w"
  shows "passes (unwrap_err (on_db (op_get_job S k))) Q w"
  using get_job_law [OF assms(1), of k] assms(2,3) by (simp add: passes_def on_db_def unwrap_err_def)

lemma pass_insert:
  assumes "invar (db w)" "run_ok okt okv r" "v_runs (view (db w)) (x_uuid_str E (r_run_id r)) = None"
    and "\<And>d. invar d \<Longrightarrow> view d = (view (db w))\<lparr>v_runs := (v_runs (view (db w)))(x_uuid_str E (r_run_id r) \<mapsto> r)\<rparr> \<Longrightarrow>
      Q () (w\<lparr>db := d\<rparr>)"
  shows "passes (on_db (op_insert_run S r)) Q w"
  using insert_run_None [OF assms(1-3)] assms(4) by (auto simp: passes_def on_db_def)

lemma pass_update:
  assumes "invar (db w)" "okt (utc_src w (utc_idx w))" "v_runs (view (db w)) k \<noteq> None" "p \<noteq> run_patch_default" "patch_ok okt okv p"
    and "\<And>d t. invar d \<Longrightarrow> view d = (view (db w))\<lparr>v_runs := (v_runs (view (db w)))(k \<mapsto> apply_patch t p (the (v_runs (view (db w)) k)))\<rparr> \<Longrightarrow>
      Q () (w\<lparr>utc_idx := Suc (utc_idx w), db := d\<rparr>)"
  shows "passes (store_update_run S k p) Q w"
proof -
  obtain r where "v_runs (view (db w)) k = Some r" using assms(3) by auto
  then show ?thesis
    using update_run_Some [OF assms(1) _ assms(4,5,2)] assms(6) by (fastforce simp: passes_def store_update_run_simp on_db_def)
qed

lemma pass_get_run:
  assumes "invar (db w)" "v_runs (view (db w)) k \<noteq> None" "Q (the (v_runs (view (db w)) k)) w"
  shows "passes (on_db (op_get_run S k)) Q w"
  using get_run_law [OF assms(1), of k] assms(2,3) by (auto simp: passes_def on_db_def)

lemma pass_count:
  assumes "invar (db w)"
    and "Q (card (run_keys (v_runs (view (db w))) (\<lambda>r. r_job_id r = jid \<and> run_active (r_status r)))) w"
  shows "passes (on_db (op_count_active_runs S jid)) Q w"
  using count_active_law [OF assms(1), of jid] assms(2) by (simp add: passes_def on_db_def run_keys_def)

lemmas pass_rules = pass_upsert pass_remove pass_get_job pass_get_no_job pass_insert pass_update pass_get_run pass_count

lemma pass_claim:
  assumes "invar (db w)" "near E t" "okt t" "okt (t + 30 * nanos_per_sec)" "okn n"
    and "\<And>ks d t'. invar d \<Longrightarrow> distinct ks \<Longrightarrow> set ks \<subseteq> due_keys t (view (db w)) \<Longrightarrow>
      length ks = min n (card (due_keys t (view (db w)))) \<Longrightarrow>
      view d = lease_keys t owner t' (set ks) (view (db w)) \<Longrightarrow>
      Q (map (\<lambda>k. lease_run t owner t' (the (v_runs (view (db w)) k))) ks) (w\<lparr>db := d\<rparr>)"
  shows "passes (on_db (op_claim_due_runs S t owner n)) Q w"
proof -
  have "x_dt_add E t (30 * nanos_per_sec) = Some (t + 30 * nanos_per_sec)"
    by (rule near_add [OF assms(2)]) (simp_all add: hour_def)
  from claim_law [OF assms(1,5,3) this assms(4), of owner] assms(6)
  show ?thesis by (fastforce simp: passes_def on_db_def)
qed

lemma pass_claim_one:
  assumes "invar (db w)" "near E t" "okt t" "okt (t + 30 * nanos_per_sec)" "okn n" "0 < n"
    "is_singleton (due_keys t (view (db w)))"
    and "\<And>d t'. invar d \<Longrightarrow> view d = lease_keys t owner t' (due_keys t (view (db w))) (view (db w)) \<Longrightarrow>
      Q [lease_run t owner t' (the (v_runs (view (db w)) (the_elem (due_keys t (view (db w))))))] (w\<lparr>db := d\<rparr>)"
  shows "passes (on_db (op_claim_due_runs S t owner n)) Q w"
proof (rule pass_claim [OF assms(1-5)])
  obtain k where k: "due_keys t (view (db w)) = {k}" using assms(7) by (auto simp: is_singleton_def)
  fix ks d t'
  assume h: "invar d" "distinct ks" "set ks \<subseteq> due_keys t (view (db w))"
    "length ks = min n (card (due_keys t (view (db w))))"
    "view d = lease_keys t owner t' (set ks) (view (db w))"
  then have "ks = [k]" using assms(6) k by (cases ks) auto
  with h(1,5) assms(8) k show "Q (map (\<lambda>k. lease_run t owner t' (the (v_runs (view (db w)) k))) ks) (w\<lparr>db := d\<rparr>)"
    by simp
qed

lemma pass_claim_none:
  assumes "invar (db w)" "near E t" "okt t" "okt (t + 30 * nanos_per_sec)" "okn n" "due_keys t (view (db w)) = {}"
    and "\<And>d. invar d \<Longrightarrow> Q [] (w\<lparr>db := d\<rparr>)"
  shows "passes (on_db (op_claim_due_runs S t owner n)) Q w"
  by (rule pass_claim [OF assms(1-5)]) (use assms(6,7) in simp)

lemma pass_stale:
  assumes "invar (db w)" "near E t" "okt t" "okt (t - int thr)" "int thr \<le> 300 * nanos_per_sec"
    and "\<And>rs. set rs = {r \<in> ran (v_runs (view (db w))). run_stale t (t - int thr) r} \<Longrightarrow> Q rs w"
  shows "passes (on_db (op_get_stale_runs S t thr)) Q w"
proof -
  have d: "x_td_from_std E thr = Inr (int thr)" by (rule near_from_std [OF assms(2)]) (use assms(5) in simp)
  have c: "x_dt_sub E t (int thr) = Some (t - int thr)"
    using assms(5) by (intro near_sub [OF assms(2)]; simp add: hour_def)
  from stale_runs_law [OF assms(1,3) d c assms(4)] assms(6)
  show ?thesis by (fastforce simp: passes_def on_db_def)
qed

lemma pass_list_runs:
  assumes "invar (db w)" "f_limit f = None"
    and "\<And>rs. distinct (map r_run_id rs) \<Longrightarrow> set rs = {r \<in> ran (v_runs (view (db w))). filter_matches f r} \<Longrightarrow> Q rs w"
  shows "passes (on_db (op_list_runs S f)) Q w"
  using list_runs_law [OF assms(1), of f] assms(2,3) by (fastforce simp: passes_def on_db_def)

lemma pass_list_job:
  assumes "invar (db w)"
    and "\<And>rs. length rs = card (run_keys (v_runs (view (db w))) (\<lambda>r. r_job_id r = jid)) \<Longrightarrow>
      \<forall>r \<in> set rs. r_job_id r = jid \<Longrightarrow> Q rs w"
  shows "passes (on_db (op_list_runs S (run_filter_default\<lparr>f_job_id := Some jid\<rparr>))) Q w"
proof (rule pass_list_runs [OF assms(1)])
  show "f_limit (run_filter_default\<lparr>f_job_id := Some jid\<rparr>) = None" by (simp add: run_filter_default_def)
  fix rs
  assume d: "distinct (map r_run_id rs)"
    and s: "set rs = {r \<in> ran (v_runs (view (db w))). filter_matches (run_filter_default\<lparr>f_job_id := Some jid\<rparr>) r}"
  have s: "set rs = {r \<in> ran (v_runs (view (db w))). r_job_id r = jid}"
    unfolding s by (auto simp: filter_matches_def run_filter_default_def)
  have "filter (\<lambda>r. r_job_id r = jid) rs = rs" using s by (intro filter_True) auto
  with listed_keys(2) [OF assms(1) d s, of "\<lambda>r. r_job_id r = jid"] s show "Q rs w"
    by (intro assms(2)) (auto simp: run_keys_def)
qed

lemma pass_list_jobs:
  assumes "invar (db w)"
    and "\<And>js. length js = card (dom (v_jobs (view (db w)))) \<Longrightarrow> set js = ran (v_jobs (view (db w))) \<Longrightarrow>
      (js \<noteq> [] \<longrightarrow> j_id (js ! 0) \<in> dom (v_jobs (view (db w)))) \<Longrightarrow> Q js w"
  shows "passes (on_db (op_list_jobs S)) Q w"
proof -
  obtain js where js: "op_list_jobs S (db w) = (Ok js, db w)" "distinct (map j_id js)" "set js = ran (v_jobs (view (db w)))"
    using list_jobs_law [OF assms(1)] by blast
  have d: "j_id ` set js = dom (v_jobs (view (db w)))"
    unfolding js(3) using view_job_key [OF assms(1)] by (force simp: ran_def image_iff)
  have "length js = card (dom (v_jobs (view (db w))))"
    using distinct_card [OF js(2)] d by simp
  moreover have "js \<noteq> [] \<longrightarrow> j_id (js ! 0) \<in> dom (v_jobs (view (db w)))" unfolding d [symmetric] by (cases js) auto
  ultimately have "Q js w" by (rule assms(2) [OF _ js(3)])
  with js(1) show ?thesis by (simp add: passes_def on_db_def)
qed

text \<open>The tests pass on a store that is empty.\<close>

lemma upsert_and_get_job_passes:
  assumes "invar (db w)" "view (db w) = empty_view" "test_env E okt (uuid_idx w) w" "okv (x_json_null E)"
  shows "passes (upsert_and_get_job E S) (\<lambda>_ _. True) w"
  unfolding upsert_and_get_job_def make_job_def
  by (simp add: assms) (rule pass_rules; simp add: assms new_job_ok test_env_rules [OF assms(3)])+

lemma remove_job_works_passes:
  assumes "invar (db w)" "view (db w) = empty_view" "test_env E okt (uuid_idx w) w" "okv (x_json_null E)"
  shows "passes (remove_job_works E S) (\<lambda>_ _. True) w"
  unfolding remove_job_works_def make_job_def
  by (simp add: assms) (rule pass_rules; simp add: assms new_job_ok test_env_rules [OF assms(3)])+

lemma update_run_applies_patch_passes:
  assumes "invar (db w)" "view (db w) = empty_view" "test_env E okt (uuid_idx w) w" "okv (x_json_null E)"
  shows "passes (update_run_applies_patch E S) (\<lambda>_ _. True) w"
  unfolding update_run_applies_patch_def make_job_def make_run_def Let_def
  by (simp add: assms)
    (rule pass_rules; simp add: assms new_job_ok new_run_ok test_env_rules [OF assms(3)])+

lemma claim_due_runs_passes:
  assumes "invar (db w)" "view (db w) = empty_view" "test_env E okt (uuid_idx w) w" "okv (x_json_null E)" "okn 10"
  shows "passes (claim_due_runs E S) (\<lambda>_ _. True) w"
  unfolding claim_due_runs_def make_job_def make_run_def before_def
  apply (simp add: assms)
  apply (rule pass_rules; simp add: assms new_job_ok new_run_ok unwrap_def test_env_rules [OF assms(3)])+
  apply (rule pass_claim_one; simp add: assms due_keys_one run_due_def test_env_rules [OF assms(3)])
  apply (rule pass_claim_none; simp add: assms lease_keys_one due_keys_one run_due_def test_env_rules [OF assms(3)])
  done

lemma count_active_runs_passes:
  assumes "invar (db w)" "view (db w) = empty_view" "test_env E okt (uuid_idx w) w" "okv (x_json_null E)"
  shows "passes (count_active_runs E S) (\<lambda>_ _. True) w"
  unfolding count_active_runs_def make_job_def make_run_def Let_def
  apply (simp add: assms)
  apply (rule pass_rules; simp add: assms new_job_ok new_run_ok test_env_rules [OF assms(3)] run_active_def)+
  done

lemma list_runs_with_filter_passes:
  assumes "invar (db w)" "view (db w) = empty_view" "test_env E okt (uuid_idx w) w" "okv (x_json_null E)"
  shows "passes (list_runs_with_filter E S) (\<lambda>_ _. True) w"
  unfolding list_runs_with_filter_def make_job_def make_run_def
  apply (simp add: assms upt_rec)
  apply (rule pass_rules; simp add: assms new_job_ok new_run_ok test_env_rules [OF assms(3)])+
  apply (rule pass_list_job; simp add: assms new_job_ok new_run_ok test_env_rules [OF assms(3)] list_all_iff)
  done

lemma get_stale_runs_passes:
  assumes "invar (db w)" "view (db w) = empty_view" "test_env E okt (uuid_idx w) w" "okv (x_json_null E)"
  shows "passes (get_stale_runs E S) (\<lambda>_ _. True) w"
  unfolding get_stale_runs_def make_job_def make_run_def before_def Let_def
  apply (simp add: assms)
  apply (rule pass_rules; simp add: assms new_job_ok new_run_ok unwrap_def test_env_rules [OF assms(3)])+
  apply (rule pass_stale; simp add: assms test_env_rules [OF assms(3)] Collect_conv_if run_stale_def)
  subgoal for d da db t rs by (cases rs) (auto split: if_splits)
  done

lemma claim_due_runs_atomic_passes:
  assumes "invar (db w)" "view (db w) = empty_view" "test_env E okt (uuid_idx w) w" "okv (x_json_null E)" "okn 10"
  shows "passes (claim_due_runs_atomic E S) (\<lambda>_ _. True) w"
  unfolding claim_due_runs_atomic_def make_job_def make_run_def before_def
  apply (simp add: assms)
  apply (rule pass_rules; simp add: assms new_job_ok new_run_ok unwrap_def test_env_rules [OF assms(3)])+
  apply (rule pass_claim_one; simp add: assms due_keys_one run_due_def test_env_rules [OF assms(3)])
  apply (rule pass_claim_none; simp add: assms lease_keys_one due_keys_one run_due_def test_env_rules [OF assms(3)])
  done

lemma stale_runs_detected_passes:
  assumes "invar (db w)" "view (db w) = empty_view" "test_env E okt (uuid_idx w) w" "okv (x_json_null E)"
  shows "passes (stale_runs_detected E S) (\<lambda>_ _. True) w"
  unfolding stale_runs_detected_def make_job_def make_run_def before_def Let_def
  apply (simp add: assms)
  apply (rule pass_rules; simp add: assms new_job_ok new_run_ok unwrap_def test_env_rules [OF assms(3)])+
  apply (rule pass_stale; simp add: assms test_env_rules [OF assms(3)] Collect_conv_if run_stale_def)
  subgoal for d da db t rs by (cases rs) auto
  done

lemma list_and_remove_jobs_passes:
  assumes "invar (db w)" "view (db w) = empty_view" "test_env E okt (uuid_idx w) w" "okv (x_json_null E)"
  shows "passes (list_and_remove_jobs E S) (\<lambda>_ _. True) w"
  unfolding list_and_remove_jobs_def make_job_def Let_def
  apply (simp add: assms upt_rec)
  apply (rule pass_rules; simp add: assms new_job_ok test_env_rules [OF assms(3)])+
  apply (rule pass_list_jobs; simp add: assms test_env_rules [OF assms(3)])
  subgoal for d da db js
    apply (cases "js = []"; simp add: assms)
    by (elim disjE; rule pass_remove; simp add: assms; rule pass_list_jobs; simp add: assms test_env_rules [OF assms(3)])
  done

end

end
