(* ===== verification/Sample_Codec.thy ===== *)
theory Sample_Codec
  imports Sqlite_Laws
begin

section \<open>A concrete serialisation of jobs\<close>

text \<open>
  The SQLite store keeps a job as the text \<open>serde_json\<close> prints, which is third-party code: the model has
  it as the pair \<open>x_job_json\<close>, \<open>x_job_parse\<close> with the law that what was printed is parsed back. This
  theory gives one concrete pair with that law, built from encoders and parsers of prefix codes, so that
  the hypothesis \<open>sql_codec\<close> is seen to hold with jobs and payloads that can be stored.
\<close>

subsection \<open>Prefix codes\<close>

definition codec :: "('a \<Rightarrow> bool) \<Rightarrow> ('a \<Rightarrow> string) \<Rightarrow> (string \<Rightarrow> ('a \<times> string) option) \<Rightarrow> bool" where
  "codec ok enc dec \<longleftrightarrow> (\<forall>x s. ok x \<longrightarrow> dec (enc x @ s) = Some (x, s))"

lemma codecD: "codec ok enc dec \<Longrightarrow> ok x \<Longrightarrow> dec (enc x @ s) = Some (x, s)"
  by (simp add: codec_def)

definition enc_nat :: "nat \<Rightarrow> string" where
  "enc_nat n = replicate n (CHR ''1'') @ ''.''"

definition dec_nat :: "string \<Rightarrow> (nat \<times> string) option" where
  "dec_nat s = (case dropWhile (\<lambda>c. c = CHR ''1'') s of
     [] \<Rightarrow> None | _ # r \<Rightarrow> Some (length (takeWhile (\<lambda>c. c = CHR ''1'') s), r))"

definition enc_pair :: "('a \<Rightarrow> string) \<Rightarrow> ('b \<Rightarrow> string) \<Rightarrow> 'a \<times> 'b \<Rightarrow> string" where
  "enc_pair ea eb p = ea (fst p) @ eb (snd p)"

definition dec_pair :: "(string \<Rightarrow> ('a \<times> string) option) \<Rightarrow> (string \<Rightarrow> ('b \<times> string) option) \<Rightarrow>
    string \<Rightarrow> (('a \<times> 'b) \<times> string) option" where
  "dec_pair da db s = (case da s of None \<Rightarrow> None
     | Some (a, r) \<Rightarrow> (case db r of None \<Rightarrow> None | Some (b, r') \<Rightarrow> Some ((a, b), r')))"

definition enc_char :: "char \<Rightarrow> string" where
  "enc_char c = [c]"

fun dec_char :: "string \<Rightarrow> (char \<times> string) option" where
  "dec_char [] = None"
| "dec_char (c # s) = Some (c, s)"

definition enc_list :: "('a \<Rightarrow> string) \<Rightarrow> 'a list \<Rightarrow> string" where
  "enc_list ea xs = enc_nat (length xs) @ concat (map ea xs)"

fun dec_n :: "(string \<Rightarrow> ('a \<times> string) option) \<Rightarrow> nat \<Rightarrow> string \<Rightarrow> ('a list \<times> string) option" where
  "dec_n da 0 s = Some ([], s)"
| "dec_n da (Suc n) s = (case da s of None \<Rightarrow> None
     | Some (x, r) \<Rightarrow> (case dec_n da n r of None \<Rightarrow> None | Some (xs, r') \<Rightarrow> Some (x # xs, r')))"

definition dec_list :: "(string \<Rightarrow> ('a \<times> string) option) \<Rightarrow> string \<Rightarrow> ('a list \<times> string) option" where
  "dec_list da s = (case dec_nat s of None \<Rightarrow> None | Some (n, r) \<Rightarrow> dec_n da n r)"

text \<open>A code for one type from a code for another.\<close>

definition dec_map :: "('b \<Rightarrow> 'a) \<Rightarrow> (string \<Rightarrow> ('b \<times> string) option) \<Rightarrow> string \<Rightarrow> ('a \<times> string) option" where
  "dec_map g dec s = map_option (\<lambda>(x, r). (g x, r)) (dec s)"

named_theorems codecs

lemma codec_nat [codecs]: "codec (\<lambda>_. True) enc_nat dec_nat"
proof -
  have "dropWhile (\<lambda>c. c = CHR ''1'') (replicate n (CHR ''1'') @ CHR ''.'' # s) = CHR ''.'' # s"
    "takeWhile (\<lambda>c. c = CHR ''1'') (replicate n (CHR ''1'') @ CHR ''.'' # s) = replicate n (CHR ''1'')" for n s
    by (induction n) simp_all
  then show ?thesis by (simp add: codec_def enc_nat_def dec_nat_def)
qed

lemma codec_char [codecs]: "codec (\<lambda>_. True) enc_char dec_char"
  by (simp add: codec_def enc_char_def)

lemma codec_pair [codecs]:
  "codec p ea da \<Longrightarrow> codec q eb db \<Longrightarrow> codec (\<lambda>(a, b). p a \<and> q b) (enc_pair ea eb) (dec_pair da db)"
  by (auto simp: codec_def enc_pair_def dec_pair_def)

lemma codec_list [codecs]:
  assumes "codec p ea da"
  shows "codec (list_all p) (enc_list ea) (dec_list da)"
proof -
  have "list_all p xs \<Longrightarrow> dec_n da (length xs) (concat (map ea xs) @ s) = Some (xs, s)" for xs s
    by (induction xs) (simp_all add: codecD [OF assms])
  then show ?thesis by (simp add: codec_def enc_list_def dec_list_def codecD [OF codec_nat])
qed

lemma codec_map:
  "codec p enc dec \<Longrightarrow> (\<And>x. q x \<Longrightarrow> p (f x) \<and> g (f x) = x) \<Longrightarrow> codec q (\<lambda>x. enc (f x)) (dec_map g dec)"
  by (auto simp: codec_def dec_map_def)

lemma codec_weaken: "codec p enc dec \<Longrightarrow> (\<And>x. q x \<Longrightarrow> p x) \<Longrightarrow> codec q enc dec"
  by (auto simp: codec_def)

subsection \<open>The types of a job\<close>

definition enc_word :: "'n::len word \<Rightarrow> string" where
  "enc_word w = enc_nat (unat w)"

definition dec_word :: "string \<Rightarrow> ('n::len word \<times> string) option" where
  "dec_word = dec_map of_nat dec_nat"

definition enc_time :: "time \<Rightarrow> string" where
  "enc_time t = enc_nat (nat t)"

definition dec_time :: "string \<Rightarrow> (time \<times> string) option" where
  "dec_time = dec_map int dec_nat"

definition enc_opt :: "('a \<Rightarrow> string) \<Rightarrow> 'a option \<Rightarrow> string" where
  "enc_opt ea v = enc_list ea (case v of None \<Rightarrow> [] | Some x \<Rightarrow> [x])"

definition dec_opt :: "(string \<Rightarrow> ('a \<times> string) option) \<Rightarrow> string \<Rightarrow> ('a option \<times> string) option" where
  "dec_opt da = dec_map (\<lambda>xs. case xs of [] \<Rightarrow> None | x # _ \<Rightarrow> Some x) (dec_list da)"

text \<open>An element of a finite type is coded by its place in the list of all of them.\<close>

definition place :: "'a list \<Rightarrow> 'a \<Rightarrow> nat" where
  "place xs x = length (takeWhile (\<lambda>y. y \<noteq> x) xs)"

definition enc_enum :: "'a list \<Rightarrow> 'a \<Rightarrow> string" where
  "enc_enum xs x = enc_nat (place xs x)"

definition dec_enum :: "'a list \<Rightarrow> string \<Rightarrow> ('a \<times> string) option" where
  "dec_enum xs = dec_map (\<lambda>n. xs ! n) dec_nat"

lemma codec_word [codecs]: "codec (\<lambda>_. True) enc_word dec_word"
  unfolding enc_word_def dec_word_def by (rule codec_map [OF codec_nat]) simp

lemma codec_time [codecs]: "codec (\<lambda>t. 0 \<le> t) enc_time dec_time"
  unfolding enc_time_def dec_time_def by (rule codec_map [OF codec_nat]) simp

lemma codec_opt [codecs]: "codec p ea da \<Longrightarrow> codec (opt_ok p) (enc_opt ea) (dec_opt da)"
  unfolding enc_opt_def dec_opt_def by (rule codec_map, rule codec_list, assumption)
    (auto simp: opt_ok_def split: option.splits)

lemma codec_enum: "set xs = UNIV \<Longrightarrow> codec (\<lambda>_. True) (enc_enum xs) (dec_enum xs)"
proof -
  have "x \<in> set xs \<Longrightarrow> xs ! place xs x = x" for x
    by (induction xs) (auto simp: place_def)
  then show "set xs = UNIV \<Longrightarrow> codec (\<lambda>_. True) (enc_enum xs) (dec_enum xs)"
    unfolding enc_enum_def dec_enum_def by (intro codec_map [OF codec_nat]) simp
qed

abbreviation "enc_str \<equiv> enc_list enc_char"
abbreviation "dec_str \<equiv> dec_list dec_char"

abbreviation all_bool :: "bool list" where "all_bool \<equiv> [False, True]"

abbreviation all_anchor :: "interval_anchor list" where "all_anchor \<equiv> [Start, Finish, WallClock]"

abbreviation all_concurrency :: "concurrency_policy list" where
  "all_concurrency \<equiv> [Allow, ForbidOverlap, QueueOne, ReplaceRunning]"

abbreviation all_strategy :: "retry_strategy list" where "all_strategy \<equiv> [Fixed, Linear, Exponential]"

lemma all_enums: "set all_bool = UNIV" "set all_anchor = UNIV" "set all_concurrency = UNIV" "set all_strategy = UNIV"
proof -
  show "set all_bool = UNIV" by auto
  show "set all_anchor = UNIV" using interval_anchor.exhaust by auto
  show "set all_concurrency = UNIV" using concurrency_policy.exhaust by auto
  show "set all_strategy = UNIV" using retry_strategy.exhaust by auto
qed

lemmas codec_enums [codecs] = all_enums [THEN codec_enum]

text \<open>The sums as tagged tuples.\<close>

fun schedule_tuple :: "schedule \<Rightarrow> nat \<times> string \<times> string option \<times> u64 \<times> interval_anchor \<times> time" where
  "schedule_tuple (Cron e tz) = (0, e, tz, 0, Start, 0)"
| "schedule_tuple (Interval n a) = (1, [], None, n, a, 0)"
| "schedule_tuple (Once t) = (2, [], None, 0, Start, t)"
| "schedule_tuple Manual = (3, [], None, 0, Start, 0)"

fun tuple_schedule :: "nat \<times> string \<times> string option \<times> u64 \<times> interval_anchor \<times> time \<Rightarrow> schedule" where
  "tuple_schedule (k, e, tz, n, a, t) =
    (if k = 0 then Cron e tz else if k = 1 then Interval n a else if k = 2 then Once t else Manual)"

fun misfire_tuple :: "misfire_policy \<Rightarrow> nat \<times> u32 option" where
  "misfire_tuple RunImmediately = (0, None)"
| "misfire_tuple Skip = (1, None)"
| "misfire_tuple Coalesce = (2, None)"
| "misfire_tuple (ReplayAll m) = (3, m)"

fun tuple_misfire :: "nat \<times> u32 option \<Rightarrow> misfire_policy" where
  "tuple_misfire (k, m) =
    (if k = 0 then RunImmediately else if k = 1 then Skip else if k = 2 then Coalesce else ReplayAll m)"

fun executor_tuple :: "string executor_spec \<Rightarrow> nat \<times> string \<times> string \<times> string list \<times> string option \<times> (string \<times> string) list" where
  "executor_tuple (Shell c args) = (0, c, [], args, None, [])"
| "executor_tuple (LocalHandler k) = (1, k, [], [], None, [])"
| "executor_tuple (ClaudeTask p v) = (2, p, [], [], v, [])"
| "executor_tuple (Webhook u m hs) = (3, u, m, [], None, hs)"

fun tuple_executor :: "nat \<times> string \<times> string \<times> string list \<times> string option \<times> (string \<times> string) list \<Rightarrow> string executor_spec" where
  "tuple_executor (k, a, b, args, v, hs) =
    (if k = 0 then Shell a args else if k = 1 then LocalHandler a else if k = 2 then ClaudeTask a v else Webhook a b hs)"

definition enc_schedule :: "schedule \<Rightarrow> string" where
  "enc_schedule s = enc_pair enc_nat (enc_pair enc_str (enc_pair (enc_opt enc_str) (enc_pair enc_word
     (enc_pair (enc_enum all_anchor) enc_time)))) (schedule_tuple s)"

definition dec_schedule :: "string \<Rightarrow> (schedule \<times> string) option" where
  "dec_schedule = dec_map tuple_schedule (dec_pair dec_nat (dec_pair dec_str (dec_pair (dec_opt dec_str) (dec_pair dec_word
     (dec_pair (dec_enum all_anchor) dec_time)))))"

definition enc_misfire :: "misfire_policy \<Rightarrow> string" where
  "enc_misfire m = enc_pair enc_nat (enc_opt enc_word) (misfire_tuple m)"

definition dec_misfire :: "string \<Rightarrow> (misfire_policy \<times> string) option" where
  "dec_misfire = dec_map tuple_misfire (dec_pair dec_nat (dec_opt dec_word))"

definition enc_executor :: "string executor_spec \<Rightarrow> string" where
  "enc_executor x = enc_pair enc_nat (enc_pair enc_str (enc_pair enc_str (enc_pair (enc_list enc_str)
     (enc_pair (enc_opt enc_str) (enc_list (enc_pair enc_str enc_str)))))) (executor_tuple x)"

definition dec_executor :: "string \<Rightarrow> (string executor_spec \<times> string) option" where
  "dec_executor = dec_map tuple_executor (dec_pair dec_nat (dec_pair dec_str (dec_pair dec_str (dec_pair (dec_list dec_str)
     (dec_pair (dec_opt dec_str) (dec_list (dec_pair dec_str dec_str)))))))"

lemma list_all_True: "list_all (\<lambda>_. True) xs" by (simp add: list_all_iff)

lemma codec_schedule [codecs]: "codec (schedule_ok (\<lambda>t. 0 \<le> t)) enc_schedule dec_schedule"
  unfolding enc_schedule_def dec_schedule_def
  by (rule codec_map, (rule codecs)+)
    (auto simp: schedule_ok_def opt_ok_def list_all_iff split: schedule.splits option.splits)

lemma misfire_inverse: "tuple_misfire (misfire_tuple m) = m"
  by (cases m) simp_all

lemma codec_misfire [codecs]: "codec (\<lambda>_. True) enc_misfire dec_misfire"
  unfolding enc_misfire_def dec_misfire_def
  by (rule codec_map, (rule codecs)+) (auto simp: opt_ok_def misfire_inverse split: option.splits)

lemma codec_executor [codecs]: "codec (\<lambda>_. True) enc_executor dec_executor"
  unfolding enc_executor_def dec_executor_def
proof (rule codec_map, (rule codecs)+)
  fix x :: "string executor_spec"
  show "(case executor_tuple x of (k, a) \<Rightarrow> True \<and> (case a of (a, b) \<Rightarrow> list_all (\<lambda>_. True) a \<and>
    (case b of (a, b) \<Rightarrow> list_all (\<lambda>_. True) a \<and> (case b of (a, b) \<Rightarrow> list_all (list_all (\<lambda>_. True)) a \<and>
    (case b of (a, b) \<Rightarrow> opt_ok (list_all (\<lambda>_. True)) a \<and>
      list_all (\<lambda>(a, b). list_all (\<lambda>_. True) a \<and> list_all (\<lambda>_. True) b) b))))) \<and> tuple_executor (executor_tuple x) = x"
    by (cases x) (auto simp: opt_ok_def list_all_iff split: option.splits)
qed

subsection \<open>Jobs\<close>

definition job_tuple where
  "job_tuple (j :: string leyla_job) =
    (j_id j, j_name j, j_enabled j, j_schedule j, j_executor j, j_concurrency j,
     (rp_max_attempts (j_retry j), rp_strategy (j_retry j), rp_base_delay_ms (j_retry j), rp_max_delay_ms (j_retry j),
      rp_jitter (j_retry j)),
     j_timeout_ms j, j_misfire j, j_tags j, j_metadata j,
     (j_next_run_at j, j_last_run_at j, j_last_success_at j, j_last_failure_at j, j_created_at j, j_updated_at j),
     j_version j)"

fun tuple_job where
  "tuple_job (jid, name, en, sched, ex, conc, (ma, st, bd, md, jit), tmo, mis, tags, meta, (nxt, lr, ls, lf, cr, up), ver) =
    (\<lparr>j_id = jid, j_name = name, j_enabled = en, j_schedule = sched, j_executor = ex, j_concurrency = conc,
      j_retry = \<lparr>rp_max_attempts = ma, rp_strategy = st, rp_base_delay_ms = bd, rp_max_delay_ms = md, rp_jitter = jit\<rparr>,
      j_timeout_ms = tmo, j_misfire = mis, j_tags = tags, j_metadata = meta, j_next_run_at = nxt, j_last_run_at = lr,
      j_last_success_at = ls, j_last_failure_at = lf, j_created_at = cr, j_updated_at = up, j_version = ver\<rparr>
     :: string leyla_job)"

definition enc_job :: "string leyla_job \<Rightarrow> string" where
  "enc_job j = enc_pair enc_str (enc_pair enc_str (enc_pair (enc_enum all_bool) (enc_pair enc_schedule
    (enc_pair enc_executor (enc_pair (enc_enum all_concurrency)
    (enc_pair (enc_pair enc_word (enc_pair (enc_enum all_strategy) (enc_pair enc_word (enc_pair enc_word (enc_enum all_bool)))))
    (enc_pair enc_word (enc_pair enc_misfire (enc_pair (enc_list enc_str) (enc_pair enc_str
    (enc_pair (enc_pair (enc_opt enc_time) (enc_pair (enc_opt enc_time) (enc_pair (enc_opt enc_time) (enc_pair (enc_opt enc_time)
      (enc_pair enc_time enc_time))))) enc_word))))))))))) (job_tuple j)"

definition dec_job :: "string \<Rightarrow> (string leyla_job \<times> string) option" where
  "dec_job = dec_map tuple_job (dec_pair dec_str (dec_pair dec_str (dec_pair (dec_enum all_bool) (dec_pair dec_schedule
    (dec_pair dec_executor (dec_pair (dec_enum all_concurrency)
    (dec_pair (dec_pair dec_word (dec_pair (dec_enum all_strategy) (dec_pair dec_word (dec_pair dec_word (dec_enum all_bool)))))
    (dec_pair dec_word (dec_pair dec_misfire (dec_pair (dec_list dec_str) (dec_pair dec_str
    (dec_pair (dec_pair (dec_opt dec_time) (dec_pair (dec_opt dec_time) (dec_pair (dec_opt dec_time) (dec_pair (dec_opt dec_time)
      (dec_pair dec_time dec_time))))) dec_word))))))))))))"

lemma codec_leyla_job: "codec (job_ok (\<lambda>t. 0 \<le> t) (\<lambda>_. True)) enc_job dec_job"
  unfolding enc_job_def dec_job_def
  by (rule codec_map, (rule codecs)+) (auto simp: job_tuple_def job_ok_def list_all_iff)

text \<open>The third-party code of the samples, with jobs printed by this code.\<close>

definition job_ext :: "string ext" where
  "job_ext = sample_ext\<lparr>x_job_json := (\<lambda>j. Inr (enc_job j)),
     x_job_parse := (\<lambda>s. case dec_job s of Some (j, _) \<Rightarrow> Inr j | None \<Rightarrow> Inl ''syntax error'')\<rparr>"

abbreviation job_okv :: "string \<Rightarrow> bool" where "job_okv v \<equiv> True"

lemma job_codec: "sql_codec job_ext sample_okt job_okv"
proof -
  have "\<exists>t. x_job_json job_ext j = Inr t \<and> x_job_parse job_ext t = Inr j" if "job_ok sample_okt job_okv j" for j
    using codecD [OF codec_leyla_job that, of "[]"] by (simp add: job_ext_def)
  moreover have "x_json_parse job_ext (x_json_str job_ext v) = Inr v" for v by (simp add: job_ext_def sample_ext_def)
  ultimately show ?thesis
    using sample_codec unfolding sql_codec_def by (simp add: job_ext_def)
qed

end
