(* ===== verification/Scheduler_Tests.thy ===== *)
theory Scheduler_Tests
  imports Store_Tests Sample_Codec
begin

section \<open>The tests of the schedulers and of the engine, on the model\<close>

text \<open>
  The tests of \<open>scheduler/claim.rs\<close>, \<open>scheduler/recovery.rs\<close>, \<open>scheduler/due.rs\<close> and \<open>engine.rs\<close> that work on a
  store, as programs over any store; they pass on every store that satisfies the laws.
\<close>

definition test_executor :: "'j executor_spec" where
  "test_executor = LocalHandler ''k''"

definition new_job :: "'j ext \<Rightarrow> string \<Rightarrow> schedule \<Rightarrow> ('s sys, 'e, 'j leyla_job) prog" where
  "new_job E name sched = andthen utc_now (\<lambda>now. ret (leyla_job_new (x_json_null E) now name sched test_executor))"

definition new_uuid_job :: "'j ext \<Rightarrow> ('s sys, 'e, 'j leyla_job) prog" where
  "new_uuid_job E = andthen uuid_new_v4 (\<lambda>u. new_job E (x_uuid_str E u) Manual)"

subsection \<open>scheduler/claim.rs\<close>

definition make_manager :: "('s, 'j) store_ops \<Rightarrow> ('s, 'j) lease_manager" where
  "make_manager S = lease_manager_new S FakeClock ''worker-1'' 10 30000"

definition claims_due_runs :: "'j ext \<Rightarrow> ('s, 'j) store_ops \<Rightarrow> ('s sys, store_error, unit) prog" where
  "claims_due_runs E S =
    andthen utc_now (\<lambda>now.
    andthen (with_fake_clock now) (\<lambda>_.
    andthen (new_uuid_job E) (\<lambda>job.
    andthen (unwrap_ok (on_db (op_upsert_job S job))) (\<lambda>_.
    andthen (before E now (10 * nanos_per_sec)) (\<lambda>past.
    andthen (new_scheduled_run (j_id job) past 3) (\<lambda>run.
    andthen (unwrap_ok (on_db (op_insert_run S run))) (\<lambda>_.
    andthen (unwrap_ok (claim_batch (make_manager S))) (\<lambda>claimed.
    andthen (assert_that (length claimed = 1)) (\<lambda>_.
    andthen (assert_that (r_status (claimed ! 0) = Leased)) (\<lambda>_.
    assert_that (r_lease_owner (claimed ! 0) = Some ''worker-1'')))))))))))"

definition respects_batch_size :: "'j ext \<Rightarrow> ('s, 'j) store_ops \<Rightarrow> ('s sys, store_error, unit) prog" where
  "respects_batch_size E S =
    andthen utc_now (\<lambda>now.
    andthen (with_fake_clock now) (\<lambda>_.
    andthen (new_uuid_job E) (\<lambda>job.
    andthen (unwrap_ok (on_db (op_upsert_job S job))) (\<lambda>_.
    andthen (before E now (10 * nanos_per_sec)) (\<lambda>past.
    andthen (for_each (\<lambda>_ _. andthen (new_scheduled_run (j_id job) past 3) (\<lambda>run.
      unwrap_ok (on_db (op_insert_run S run)))) [0..<10] ()) (\<lambda>_.
    let manager = lease_manager_new S FakeClock ''worker-1'' 3 30000 in
    andthen (unwrap_ok (claim_batch manager)) (\<lambda>claimed.
    assert_that (length claimed = 3))))))))"

definition skips_when_concurrency_forbids :: "'j ext \<Rightarrow> ('s, 'j) store_ops \<Rightarrow> ('s sys, store_error, unit) prog" where
  "skips_when_concurrency_forbids E S =
    andthen utc_now (\<lambda>now.
    andthen (with_fake_clock now) (\<lambda>_.
    andthen (new_uuid_job E) (\<lambda>job.
    andthen (unwrap_ok (on_db (op_upsert_job S job))) (\<lambda>_.
    andthen (new_scheduled_run (j_id job) now 3) (\<lambda>running_run.
    let running_run_id = x_uuid_str E (r_run_id running_run) in
    andthen (unwrap_ok (on_db (op_insert_run S running_run))) (\<lambda>_.
    andthen (unwrap_ok (store_update_run S running_run_id (run_patch_default\<lparr>p_status := Some Leased\<rparr>))) (\<lambda>_.
    andthen (unwrap_ok (store_update_run S running_run_id (run_patch_default\<lparr>p_status := Some Dispatched\<rparr>))) (\<lambda>_.
    andthen (unwrap_ok (store_update_run S running_run_id (run_patch_default\<lparr>p_status := Some Running\<rparr>))) (\<lambda>_.
    andthen (before E now (5 * nanos_per_sec)) (\<lambda>t.
    andthen (new_scheduled_run (j_id job) t 3) (\<lambda>due_run.
    andthen (unwrap_ok (filter_by_concurrency (make_manager S) [due_run] ForbidOverlap (j_id job))) (\<lambda>filtered.
    assert_that (length filtered = 0)))))))))))))"

subsection \<open>scheduler/recovery.rs\<close>

definition recovery_at :: "('s, 'j) store_ops \<Rightarrow> nat \<Rightarrow> ('s, 'j) recovery_manager" where
  "recovery_at S secs = \<lparr>rm_store = S, rm_clock = FakeClock, rm_stale_threshold = secs * 10 ^ 9\<rparr>"

definition recovers_stale_leased_run_to_scheduled ::
  "'j ext \<Rightarrow> ('s, 'j) store_ops \<Rightarrow> ('s sys, store_error, unit) prog" where
  "recovers_stale_leased_run_to_scheduled E S =
    andthen utc_now (\<lambda>now.
    andthen (with_fake_clock now) (\<lambda>_.
    andthen (new_uuid_job E) (\<lambda>job.
    andthen (unwrap_ok (on_db (op_upsert_job S job))) (\<lambda>_.
    andthen (before E now (60 * nanos_per_sec)) (\<lambda>t.
    andthen (new_scheduled_run (j_id job) t 3) (\<lambda>run.
    let run_id = x_uuid_str E (r_run_id run) in
    andthen (unwrap_ok (on_db (op_insert_run S run))) (\<lambda>_.
    andthen (before E now (10 * nanos_per_sec)) (\<lambda>expired.
    andthen (unwrap_ok (store_update_run S run_id
      (run_patch_default\<lparr>p_status := Some Leased, p_lease_expires_at := Some expired\<rparr>))) (\<lambda>_.
    andthen (unwrap_ok (recover E (recovery_at S 5))) (\<lambda>n.
    andthen (assert_that (n \<ge> 1)) (\<lambda>_.
    andthen (unwrap_ok (on_db (op_get_run S run_id))) (\<lambda>recovered.
    assert_that (r_status recovered = Scheduled)))))))))))))"

definition sends_exhausted_run_to_dead_letter ::
  "'j ext \<Rightarrow> ('s, 'j) store_ops \<Rightarrow> ('s sys, store_error, unit) prog" where
  "sends_exhausted_run_to_dead_letter E S =
    andthen utc_now (\<lambda>now.
    andthen (with_fake_clock now) (\<lambda>_.
    andthen (new_uuid_job E) (\<lambda>job.
    andthen (unwrap_ok (on_db (op_upsert_job S job))) (\<lambda>_.
    andthen (before E now (60 * nanos_per_sec)) (\<lambda>t.
    andthen (new_scheduled_run (j_id job) t 2) (\<lambda>run.
    let run_id = x_uuid_str E (r_run_id run) in
    andthen (unwrap_ok (on_db (op_insert_run S run))) (\<lambda>_.
    andthen (before E now (10 * nanos_per_sec)) (\<lambda>expired.
    andthen (unwrap_ok (store_update_run S run_id
      (run_patch_default\<lparr>p_status := Some Running, p_lease_expires_at := Some expired, p_attempt := Some 2\<rparr>))) (\<lambda>_.
    andthen (unwrap_ok (recover E (recovery_at S 5))) (\<lambda>n.
    andthen (assert_that (n \<ge> 1)) (\<lambda>_.
    andthen (unwrap_ok (on_db (op_get_run S run_id))) (\<lambda>recovered.
    assert_that (r_status recovered = DeadLetter)))))))))))))"

definition advances_retry_wait_to_scheduled ::
  "'j ext \<Rightarrow> ('s, 'j) store_ops \<Rightarrow> ('s sys, store_error, unit) prog" where
  "advances_retry_wait_to_scheduled E S =
    andthen utc_now (\<lambda>now.
    andthen (with_fake_clock now) (\<lambda>_.
    andthen (new_uuid_job E) (\<lambda>job.
    andthen (unwrap_ok (on_db (op_upsert_job S job))) (\<lambda>_.
    andthen (new_scheduled_run (j_id job) now 3) (\<lambda>run.
    let run_id = x_uuid_str E (r_run_id run) in
    andthen (unwrap_ok (on_db (op_insert_run S run))) (\<lambda>_.
    andthen (unwrap_ok (store_update_run S run_id (run_patch_default\<lparr>p_status := Some RetryWait\<rparr>))) (\<lambda>_.
    andthen (unwrap_ok (recover E (recovery_at S 300))) (\<lambda>n.
    andthen (assert_that (n = 1)) (\<lambda>_.
    andthen (unwrap_ok (on_db (op_get_run S run_id))) (\<lambda>recovered.
    assert_that (r_status recovered = Scheduled)))))))))))"

subsection \<open>scheduler/due.rs\<close>

text \<open>\<open>make_clock(now)\<close>, the job stored, and one call of the materializer on it.\<close>

definition materializer_on :: "('s, 'j) store_ops \<Rightarrow> ('s, 'j) due_run_materializer" where
  "materializer_on S = \<lparr>dm_store = S, dm_clock = FakeClock\<rparr>"

definition does_not_materialize_manual_jobs :: "'j ext \<Rightarrow> ('s, 'j) store_ops \<Rightarrow> ('s sys, store_error, unit) prog" where
  "does_not_materialize_manual_jobs E S =
    andthen utc_now (\<lambda>now.
    andthen (with_fake_clock now) (\<lambda>_.
    andthen (new_job E ''manual-job'' Manual) (\<lambda>job.
    andthen (before E now (10 * nanos_per_sec)) (\<lambda>t.
    andthen (unwrap_ok (on_db (op_upsert_job S (job\<lparr>j_next_run_at := Some t\<rparr>)))) (\<lambda>_.
    andthen (unwrap_ok (materialize E (materializer_on S))) (\<lambda>n.
    assert_that (n = 0)))))))"

definition materializes_once_job_when_due :: "'j ext \<Rightarrow> ('s, 'j) store_ops \<Rightarrow> ('s sys, store_error, unit) prog" where
  "materializes_once_job_when_due E S =
    andthen utc_now (\<lambda>now.
    andthen (with_fake_clock now) (\<lambda>_.
    andthen (before E now (5 * nanos_per_sec)) (\<lambda>t.
    andthen (new_job E ''once-job'' (Once t)) (\<lambda>job.
    andthen (unwrap_ok (on_db (op_upsert_job S (job\<lparr>j_next_run_at := Some t\<rparr>)))) (\<lambda>_.
    andthen (unwrap_ok (materialize E (materializer_on S))) (\<lambda>n.
    assert_that (n = 1)))))))"

definition does_not_materialize_disabled_jobs :: "'j ext \<Rightarrow> ('s, 'j) store_ops \<Rightarrow> ('s sys, store_error, unit) prog" where
  "does_not_materialize_disabled_jobs E S =
    andthen utc_now (\<lambda>now.
    andthen (with_fake_clock now) (\<lambda>_.
    andthen (new_job E ''disabled-job'' (Interval 1000 WallClock)) (\<lambda>job.
    andthen (before E now (5 * nanos_per_sec)) (\<lambda>t.
    andthen (unwrap_ok (on_db (op_upsert_job S (job\<lparr>j_enabled := False, j_next_run_at := Some t\<rparr>)))) (\<lambda>_.
    andthen (unwrap_ok (materialize E (materializer_on S))) (\<lambda>n.
    assert_that (n = 0)))))))"

definition advances_next_run_for_interval_job :: "'j ext \<Rightarrow> ('s, 'j) store_ops \<Rightarrow> ('s sys, store_error, unit) prog" where
  "advances_next_run_for_interval_job E S =
    andthen utc_now (\<lambda>now.
    andthen (with_fake_clock now) (\<lambda>_.
    andthen (before E now (5 * nanos_per_sec)) (\<lambda>past.
    andthen (new_job E ''interval-job'' (Interval 60000 WallClock)) (\<lambda>job.
    andthen (unwrap_ok (on_db (op_upsert_job S (job\<lparr>j_next_run_at := Some past\<rparr>)))) (\<lambda>_.
    andthen (unwrap_ok (materialize E (materializer_on S))) (\<lambda>n.
    andthen (assert_that (n = 1)) (\<lambda>_.
    andthen (unwrap_ok (on_db (op_get_job S (j_id job)))) (\<lambda>updated.
    andthen (lift_outcome (unwrap (x_td_millis E 60000))) (\<lambda>delta.
    andthen (lift_outcome (unwrap (x_dt_add E now delta))) (\<lambda>expected_next.
    assert_that (j_next_run_at updated = Some expected_next)))))))))))"

subsection \<open>engine.rs\<close>

definition make_engine :: "('s, 'j) store_ops \<Rightarrow> ('s sys, 'e, ('s, 'j) engine) prog" where
  "make_engine S = andthen utc_now (\<lambda>now. andthen (with_fake_clock now) (\<lambda>_.
     ret (engine_new (engine_config_new S FakeClock ''test-instance''))))"

definition schedule_and_trigger_manual_job :: "'j ext \<Rightarrow> ('s, 'j) store_ops \<Rightarrow> ('s sys, store_error, unit) prog" where
  "schedule_and_trigger_manual_job E S =
    andthen (make_engine S) (\<lambda>engine.
    andthen (new_uuid_job E) (\<lambda>job.
    andthen (unwrap_ok (engine_schedule engine job)) (\<lambda>_.
    andthen (unwrap_ok (engine_trigger E engine (j_id job) None)) (\<lambda>run_id.
    andthen (unwrap_ok (engine_get_run engine run_id)) (\<lambda>run.
    andthen (assert_that (run \<noteq> None)) (\<lambda>_.
    andthen (lift_outcome (unwrap run)) (\<lambda>run.
    assert_that (r_status run = Scheduled))))))))"

definition pause_and_resume_job :: "'j ext \<Rightarrow> ('s, 'j) store_ops \<Rightarrow> ('s sys, store_error, unit) prog" where
  "pause_and_resume_job E S =
    andthen (make_engine S) (\<lambda>engine.
    andthen (new_uuid_job E) (\<lambda>job.
    andthen (unwrap_ok (engine_schedule engine job)) (\<lambda>_.
    andthen (unwrap_ok (engine_pause engine (j_id job))) (\<lambda>_.
    andthen (unwrap_ok (engine_get_job engine (j_id job))) (\<lambda>p.
    andthen (lift_outcome (unwrap p)) (\<lambda>paused.
    andthen (assert_that (\<not> j_enabled paused)) (\<lambda>_.
    andthen (unwrap_ok (engine_resume engine (j_id job))) (\<lambda>_.
    andthen (unwrap_ok (engine_get_job engine (j_id job))) (\<lambda>r.
    andthen (lift_outcome (unwrap r)) (\<lambda>resumed.
    assert_that (j_enabled resumed)))))))))))"

definition get_and_list_jobs :: "'j ext \<Rightarrow> ('s, 'j) store_ops \<Rightarrow> ('s sys, store_error, unit) prog" where
  "get_and_list_jobs E S =
    andthen (make_engine S) (\<lambda>engine.
    andthen (new_job E ''job-1'' Manual) (\<lambda>job1.
    andthen (new_job E ''job-2'' Manual) (\<lambda>job2.
    andthen (unwrap_ok (engine_schedule engine job1)) (\<lambda>_.
    andthen (unwrap_ok (engine_schedule engine job2)) (\<lambda>_.
    andthen (unwrap_ok (engine_get_job engine (j_id job1))) (\<lambda>found.
    andthen (assert_that (found \<noteq> None)) (\<lambda>_.
    andthen (lift_outcome (unwrap found)) (\<lambda>j.
    andthen (assert_that (j_name j = ''job-1'')) (\<lambda>_.
    andthen (unwrap_ok (engine_list_jobs engine)) (\<lambda>all.
    assert_that (length all = 2)))))))))))"

text \<open>
  The engine runs in a task of its own until \<open>stop\<close>; the branches \<open>bs\<close> of its loop became ready by then,
  and the one that is ready afterwards is the shutdown.
\<close>

definition engine_creates_and_stops ::
  "bool \<Rightarrow> branch list \<Rightarrow> 'j ext \<Rightarrow> ('s, 'j) store_ops \<Rightarrow> ('s sys, store_error, unit) prog" where
  "engine_creates_and_stops checks bs E S =
    andthen (make_engine S) (\<lambda>engine.
    andthen (unwrap_ok (engine_start checks E engine bs)) (\<lambda>early.
    andthen engine_stop (\<lambda>_.
    andthen (unwrap_ok (engine_loop E engine [Shutdown])) (\<lambda>returned.
    assert_that (\<not> early \<and> returned)))))"

subsection \<open>tests/integration.rs\<close>

definition integration_job :: "'j ext \<Rightarrow> string \<Rightarrow> schedule \<Rightarrow> ('s sys, 'e, 'j leyla_job) prog" where
  "integration_job E name sched = andthen utc_now (\<lambda>now.
     ret (leyla_job_new (x_json_null E) now name sched (LocalHandler ''test-handler'')))"

definition full_lifecycle_schedule_trigger_claim :: "'j ext \<Rightarrow> ('s, 'j) store_ops \<Rightarrow> ('s sys, store_error, unit) prog" where
  "full_lifecycle_schedule_trigger_claim E S =
    andthen (make_engine S) (\<lambda>engine.
    andthen uuid_new_v4 (\<lambda>u.
    andthen (integration_job E (x_uuid_str E u) Manual) (\<lambda>job.
    andthen (unwrap_ok (engine_schedule engine job)) (\<lambda>_.
    andthen (unwrap_ok (engine_trigger E engine (j_id job) None)) (\<lambda>run_id.
    andthen (unwrap_ok (engine_get_run engine run_id)) (\<lambda>r.
    andthen (lift_outcome (unwrap r)) (\<lambda>run.
    andthen (assert_that (r_status run = Scheduled)) (\<lambda>_.
    andthen (assert_that (r_job_id run = j_id job)) (\<lambda>_.
    andthen (unwrap_ok (engine_pause engine (j_id job))) (\<lambda>_.
    andthen (unwrap_ok (engine_get_job engine (j_id job))) (\<lambda>p.
    andthen (lift_outcome (unwrap p)) (\<lambda>job_after_pause.
    andthen (assert_that (\<not> j_enabled job_after_pause)) (\<lambda>_.
    andthen (unwrap_ok (engine_resume engine (j_id job))) (\<lambda>_.
    andthen (unwrap_ok (engine_get_job engine (j_id job))) (\<lambda>q.
    andthen (lift_outcome (unwrap q)) (\<lambda>job_after_resume.
    assert_that (j_enabled job_after_resume)))))))))))))))))"

definition interval_job_materializes_and_advances :: "'j ext \<Rightarrow> ('s, 'j) store_ops \<Rightarrow> ('s sys, store_error, unit) prog" where
  "interval_job_materializes_and_advances E S =
    andthen utc_now (\<lambda>now.
    andthen (with_fake_clock now) (\<lambda>_.
    andthen (before E now (10 * nanos_per_sec)) (\<lambda>past.
    andthen (integration_job E ''interval-test-job'' (Interval 60000 WallClock)) (\<lambda>job.
    andthen (unwrap_ok (on_db (op_upsert_job S (job\<lparr>j_next_run_at := Some past\<rparr>)))) (\<lambda>_.
    andthen (unwrap_ok (materialize E (materializer_on S))) (\<lambda>n.
    andthen (assert_that (n = 1)) (\<lambda>_.
    andthen (unwrap_ok (on_db (op_list_runs S (run_filter_default\<lparr>f_job_id := Some (j_id job)\<rparr>)))) (\<lambda>runs.
    andthen (assert_that (length runs = 1)) (\<lambda>_.
    andthen (assert_that (r_status (runs ! 0) = Scheduled)) (\<lambda>_.
    andthen (unwrap_ok (on_db (op_get_job S (j_id job)))) (\<lambda>updated_job.
    andthen (lift_outcome (unwrap (j_next_run_at updated_job))) (\<lambda>nxt.
    andthen (assert_that (now < nxt)) (\<lambda>_.
    andthen (lift_outcome (unwrap (x_td_millis E 60000))) (\<lambda>delta.
    andthen (lift_outcome (unwrap (x_dt_add E now delta))) (\<lambda>expected_next.
    assert_that (nxt = expected_next))))))))))))))))"

subsection \<open>They pass on every store that satisfies the laws\<close>

lemma fake_clock_simps [simp]: "guarded (fake_clock_new t) = t" "\<not> poisoned (fake_clock_new t)"
  by (simp_all add: fake_clock_new_def)

lemma passes_clock [simp]:
  "passes (clock_now FakeClock) Q w = (\<not> poisoned (fake_clock w) \<and> Q (guarded (fake_clock w)) w)"
  by (cases w; cases "fake_clock w") (simp add: passes_def clock_now_def fake_clock_now_def with_lock_def)

lemma pass_found: "passes m (\<lambda>x. Q (Some x)) w \<Longrightarrow> passes (found m) Q w"
  by (auto simp: passes_def found_def split: prod.splits outcome.splits)

lemma leyla_job_new_simps [simp]:
  "j_enabled (leyla_job_new null now jid sch x) = True" "j_schedule (leyla_job_new null now jid sch x) = sch"
  "j_next_run_at (leyla_job_new null now jid sch x) = None"
  by (simp_all add: leyla_job_new_def)

lemma test_job_ok:
  "okv null \<Longrightarrow> okt now \<Longrightarrow> schedule_ok okt sch \<Longrightarrow> job_ok okt okv (leyla_job_new null now jid sch test_executor)"
  by (simp add: job_ok_def leyla_job_new_def executor_ok_def test_executor_def)

lemma ok_updates [simp]:
  "job_ok okt okv (j\<lparr>j_enabled := b\<rparr>) = job_ok okt okv j"
  "job_ok okt okv j \<Longrightarrow> opt_ok okt nxt \<Longrightarrow> job_ok okt okv (j\<lparr>j_next_run_at := nxt\<rparr>)"
  "job_ok okt okv j \<Longrightarrow> okt t \<Longrightarrow> job_ok okt okv (j\<lparr>j_last_run_at := Some t\<rparr>)"
  "job_ok okt okv j \<Longrightarrow> okt t \<Longrightarrow> job_ok okt okv (j\<lparr>j_updated_at := t\<rparr>)"
  "run_ok okt okv r \<Longrightarrow> run_ok okt okv (r\<lparr>r_input_json := None\<rparr>)"
  by (simp_all add: job_ok_def run_ok_def)

lemma new_run_recovery [simp]:
  "r_finished_at (job_run_new_scheduled now u jid t n) = None" "r_attempt (job_run_new_scheduled now u jid t n) = 1"
  "r_max_attempts (job_run_new_scheduled now u jid t n) = n"
  "r_lease_expires_at (job_run_new_scheduled now u jid t n) = None"
  by (simp_all add: job_run_new_scheduled_def)

lemma lease_attempt_patch [simp]:
  "(status_patch st)\<lparr>p_lease_expires_at := Some t, p_attempt := Some n\<rparr> \<noteq> run_patch_default"
  "patch_ok okt okv ((status_patch st)\<lparr>p_lease_expires_at := Some t, p_attempt := Some n\<rparr>) = okt t"
  "apply_patch now ((status_patch st)\<lparr>p_lease_expires_at := Some t, p_attempt := Some n\<rparr>) r =
    r\<lparr>r_status := st, r_attempt := n, r_lease_expires_at := Some t, r_updated_at := now\<rparr>"
  by (simp_all add: status_patch_def run_patch_default_def patch_ok_def apply_patch_def)

context leyla_store
begin

lemma claims_due_runs_passes:
  assumes "invar (db w)" "view (db w) = empty_view" "test_env E okt (uuid_idx w) w" "okv (x_json_null E)" "okn 10"
  shows "passes (claims_due_runs E S) (\<lambda>_ _. True) w"
  unfolding claims_due_runs_def new_uuid_job_def new_job_def before_def make_manager_def claim_batch_def lease_manager_new_def
  apply (simp add: assms)
  apply (rule pass_rules; simp add: assms test_job_ok new_run_ok unwrap_def schedule_ok_def test_env_rules [OF assms(3)])+
  apply (rule pass_claim_one; simp add: assms due_keys_one run_due_def test_env_rules [OF assms(3)] lease_run_def)
  done

lemma skips_when_concurrency_forbids_passes:
  assumes "invar (db w)" "view (db w) = empty_view" "test_env E okt (uuid_idx w) w" "okv (x_json_null E)"
  shows "passes (skips_when_concurrency_forbids E S) (\<lambda>_ _. True) w"
  unfolding skips_when_concurrency_forbids_def new_uuid_job_def new_job_def before_def make_manager_def Let_def
    filter_by_concurrency_def lease_manager_new_def
  apply (simp add: assms)
  apply (rule pass_rules; simp add: assms test_job_ok new_run_ok unwrap_def schedule_ok_def test_env_rules [OF assms(3)]
    run_active_def)+
  done

lemma schedule_and_trigger_manual_job_passes:
  assumes "invar (db w)" "view (db w) = empty_view" "test_env E okt (uuid_idx w) w" "okv (x_json_null E)"
  shows "passes (schedule_and_trigger_manual_job E S) (\<lambda>_ _. True) w"
  unfolding schedule_and_trigger_manual_job_def new_uuid_job_def new_job_def make_engine_def Let_def
    engine_new_def engine_config_new_def engine_schedule_def engine_trigger_def engine_get_run_def
  apply (simp add: assms)
  apply (rule pass_rules pass_found; simp add: assms test_job_ok new_run_ok unwrap_def schedule_ok_def test_env_rules [OF assms(3)])+
  done

lemma pause_and_resume_job_passes:
  assumes "invar (db w)" "view (db w) = empty_view" "test_env E okt (uuid_idx w) w" "okv (x_json_null E)"
  shows "passes (pause_and_resume_job E S) (\<lambda>_ _. True) w"
  unfolding pause_and_resume_job_def new_uuid_job_def new_job_def make_engine_def Let_def
    engine_new_def engine_config_new_def engine_schedule_def engine_pause_def engine_resume_def engine_get_job_def
  apply (simp add: assms)
  apply (rule pass_rules pass_found; simp add: assms test_job_ok unwrap_def schedule_ok_def test_env_rules [OF assms(3)])+
  done

lemma get_and_list_jobs_passes:
  assumes "invar (db w)" "view (db w) = empty_view" "test_env E okt (uuid_idx w) w" "okv (x_json_null E)"
  shows "passes (get_and_list_jobs E S) (\<lambda>_ _. True) w"
  unfolding get_and_list_jobs_def new_uuid_job_def new_job_def make_engine_def Let_def
    engine_new_def engine_config_new_def engine_schedule_def engine_get_job_def engine_list_jobs_def
  apply (simp add: assms)
  apply (rule pass_rules pass_found; simp add: assms test_job_ok unwrap_def schedule_ok_def test_env_rules [OF assms(3)])+
  apply (rule pass_list_jobs; simp add: assms)
  done

lemma pass_list_job_single:
  assumes "invar (db w)" "is_singleton (dom (v_jobs (view (db w))))"
    and "Q [the (v_jobs (view (db w)) (the_elem (dom (v_jobs (view (db w))))))] w"
  shows "passes (on_db (op_list_jobs S)) Q w"
proof (rule pass_list_jobs [OF assms(1)])
  obtain k where k: "dom (v_jobs (view (db w))) = {k}" using assms(2) by (auto simp: is_singleton_def)
  then obtain j where j: "v_jobs (view (db w)) = [k \<mapsto> j]" by (auto simp: dom_eq_singleton_conv)
  fix js assume "length js = card (dom (v_jobs (view (db w))))" "set js = ran (v_jobs (view (db w)))"
  then have "js = [j]" using j by (cases js) auto
  with assms(3) j show "Q js w" by simp
qed

lemma does_not_materialize_manual_jobs_passes:
  assumes "invar (db w)" "view (db w) = empty_view" "test_env E okt (uuid_idx w) w" "okv (x_json_null E)"
  shows "passes (does_not_materialize_manual_jobs E S) (\<lambda>_ _. True) w"
  unfolding does_not_materialize_manual_jobs_def new_job_def before_def materializer_on_def materialize_def
  apply (simp add: assms unwrap_def test_env_rules [OF assms(3)])
  apply (rule pass_upsert; simp add: assms test_job_ok schedule_ok_def test_env_rules [OF assms(3)])
  apply (rule pass_list_job_single; simp add: materialize_job_def)
  done

lemma materializes_once_job_when_due_passes:
  assumes "invar (db w)" "view (db w) = empty_view" "test_env E okt (uuid_idx w) w" "okv (x_json_null E)"
  shows "passes (materializes_once_job_when_due E S) (\<lambda>_ _. True) w"
  unfolding materializes_once_job_when_due_def new_job_def before_def materializer_on_def materialize_def
  apply (simp add: assms unwrap_def test_env_rules [OF assms(3)])
  apply (rule pass_upsert; simp add: assms test_job_ok schedule_ok_def test_env_rules [OF assms(3)])
  apply (rule pass_list_job_single; simp add: materialize_job_def compute_next_run_def)
  apply (rule pass_rules; simp add: assms new_run_ok test_job_ok schedule_ok_def test_env_rules [OF assms(3)] compute_next_run_def)+
  done

lemma does_not_materialize_disabled_jobs_passes:
  assumes "invar (db w)" "view (db w) = empty_view" "test_env E okt (uuid_idx w) w" "okv (x_json_null E)"
  shows "passes (does_not_materialize_disabled_jobs E S) (\<lambda>_ _. True) w"
  unfolding does_not_materialize_disabled_jobs_def new_job_def before_def materializer_on_def materialize_def
  apply (simp add: assms unwrap_def test_env_rules [OF assms(3)])
  apply (rule pass_upsert; simp add: assms test_job_ok schedule_ok_def test_env_rules [OF assms(3)])
  apply (rule pass_list_job_single; simp add: materialize_job_def)
  done

lemma advances_next_run_for_interval_job_passes:
  assumes "invar (db w)" "view (db w) = empty_view" "test_env E okt (uuid_idx w) w" "okv (x_json_null E)"
  shows "passes (advances_next_run_for_interval_job E S) (\<lambda>_ _. True) w"
proof -
  have ms: "x_td_millis E 60000 = Some (60 * nanos_per_sec)" 
    by (subst near_millis [OF test_env_near [OF assms(3)]]) simp_all
  have add: "x_dt_add E (utc_src w i) (60 * nanos_per_sec) = Some (utc_src w i + 60 * nanos_per_sec)" for i
    by (rule test_env_before(2) [OF assms(3)]) (simp_all add: hour_def)
  show ?thesis
    unfolding advances_next_run_for_interval_job_def new_job_def before_def materializer_on_def materialize_def
    apply (simp add: assms unwrap_def test_env_rules [OF assms(3)])
    apply (rule pass_upsert; simp add: assms test_job_ok schedule_ok_def test_env_rules [OF assms(3)])
    apply (rule pass_list_job_single; simp add: materialize_job_def compute_next_run_def ms add)
    apply (rule pass_rules; simp add: assms new_run_ok test_job_ok schedule_ok_def test_env_rules [OF assms(3)] compute_next_run_def ms add [simplified])+
    done
qed

text \<open>Recovery of a store with one run that is due for it.\<close>

lemma pass_recover_one:
  assumes "invar (db w)" "\<And>i. okt (utc_src w i)" "rm_store m = S" "rm_clock m = FakeClock"
    and now: "\<not> poisoned (fake_clock w)" "near E (guarded (fake_clock w))" "okt (guarded (fake_clock w))"
      "okt (guarded (fake_clock w) - int (rm_stale_threshold m))" "int (rm_stale_threshold m) \<le> 300 * nanos_per_sec"
    and one: "is_singleton (dom (v_runs (view (db w))))" "the_elem (dom (v_runs (view (db w)))) = k"
    and fin: "r_finished_at (the (v_runs (view (db w)) k)) = None"
    and act: "recovery_action E (guarded (fake_clock w)) (guarded (fake_clock w) - int (rm_stale_threshold m))
      (the (v_runs (view (db w)) k)) = Some x"
    and post: "\<And>w' t. invar (db w') \<Longrightarrow> v_runs (view (db w')) k = Some (x\<lparr>r_updated_at := t\<rparr>) \<Longrightarrow> Q 1 w'"
  shows "passes (recover E m) Q w"
proof -
  let ?now = "guarded (fake_clock w)" and ?cut = "guarded (fake_clock w) - int (rm_stale_threshold m)"
  have clock: "clock_now (rm_clock m) w = ((Ok ?now :: (store_error, time) outcome), w)"
    using now(1) by (cases w; cases "fake_clock w") (simp add: clock_now_def fake_clock_now_def with_lock_def assms(4))
  obtain r where r: "v_runs (view (db w)) = [k \<mapsto> r]"
    using one by (auto simp: is_singleton_def dom_eq_singleton_conv)
  have thr: "x_td_from_std E (rm_stale_threshold m) = Inr (int (rm_stale_threshold m))"
    by (rule near_from_std [OF now(2)]) (use now(5) in simp)
  have cut: "x_dt_sub E ?now (int (rm_stale_threshold m)) = Some ?cut"
    by (rule near_sub [OF now(2)]) (use now(5) in \<open>simp_all add: hour_def\<close>)
  have utc: "utc_ok okt w" using assms(2) by (simp add: utc_ok_def)
  have comp: "retry_computable E q" if "v_runs (view (db w)) k' = Some q" "r_status q = RetryWait" for k' q
    using that fin r by (auto simp: retry_computable_def split: if_splits)
  from act r have act: "recovery_action E ?now ?cut r = Some x" by simp
  have one: "{k'. \<exists>q. v_runs (view (db w)) k' = Some q \<and> recovery_action E ?now ?cut q \<noteq> None} = {k}"
    unfolding r using act by auto
  obtain w' where w': "recover E m w = (Ok 1, w')" "invar (db w')"
      "runs_updated (recovery_action E ?now ?cut) (\<lambda>_. True) (view (db w)) (view (db w'))"
    using recover_effect [OF assms(1) utc now(3) assms(3) clock thr cut now(4)] comp unfolding one by auto
  then obtain t where "v_runs (view (db w')) k = Some (x\<lparr>r_updated_at := t\<rparr>)"
    using runs_updatedD [OF w'(3), of k r] act r by (auto simp: run_updated_def)
  with w'(1,2) post show ?thesis by (simp add: passes_def)
qed

lemma recovers_stale_leased_run_to_scheduled_passes:
  assumes "invar (db w)" "view (db w) = empty_view" "test_env E okt (uuid_idx w) w" "okv (x_json_null E)"
  shows "passes (recovers_stale_leased_run_to_scheduled E S) (\<lambda>_ _. True) w"
  unfolding recovers_stale_leased_run_to_scheduled_def new_uuid_job_def new_job_def before_def recovery_at_def Let_def
  apply (simp add: assms unwrap_def test_env_rules [OF assms(3)])
  apply (rule pass_rules; simp add: assms new_run_ok test_job_ok schedule_ok_def test_env_rules [OF assms(3)])+
  apply (rule pass_recover_one [OF _ _ _ _ _ _ _ _ _ _ refl])
  apply (simp_all add: assms test_env_rules [OF assms(3)] recovery_action_def stale_action_def run_stale_def)
  apply (rule pass_get_run; simp)
  done

lemma sends_exhausted_run_to_dead_letter_passes:
  assumes "invar (db w)" "view (db w) = empty_view" "test_env E okt (uuid_idx w) w" "okv (x_json_null E)"
  shows "passes (sends_exhausted_run_to_dead_letter E S) (\<lambda>_ _. True) w"
  unfolding sends_exhausted_run_to_dead_letter_def new_uuid_job_def new_job_def before_def recovery_at_def Let_def
  apply (simp add: assms unwrap_def test_env_rules [OF assms(3)])
  apply (rule pass_rules; simp add: assms new_run_ok test_job_ok schedule_ok_def test_env_rules [OF assms(3)])+
  apply (rule pass_recover_one [OF _ _ _ _ _ _ _ _ _ _ refl])
  apply (simp_all add: assms test_env_rules [OF assms(3)] recovery_action_def stale_action_def run_stale_def)
  apply (rule pass_get_run; simp)
  done

lemma advances_retry_wait_to_scheduled_passes:
  assumes "invar (db w)" "view (db w) = empty_view" "test_env E okt (uuid_idx w) w" "okv (x_json_null E)"
  shows "passes (advances_retry_wait_to_scheduled E S) (\<lambda>_ _. True) w"
  unfolding advances_retry_wait_to_scheduled_def new_uuid_job_def new_job_def before_def recovery_at_def Let_def
  apply (simp add: assms unwrap_def test_env_rules [OF assms(3)])
  apply (rule pass_rules; simp add: assms new_run_ok test_job_ok schedule_ok_def test_env_rules [OF assms(3)])+
  apply (rule pass_recover_one [OF _ _ _ _ _ _ _ _ _ _ refl])
  apply (simp_all add: assms test_env_rules [OF assms(3)] recovery_action_def stale_action_def run_stale_def
    retry_action_def retry_ready_def apply_status_patch)
  apply (rule pass_get_run; simp)
  done

text \<open>Inserting ten due runs.\<close>

lemma pass_insert_loop:
  assumes inv: "invar (db w)" and env: "test_env E okt n w" and ok: "okt t"
    and room: "n \<le> uuid_idx w" "uuid_idx w + length xs \<le> n + 100"
    and fresh: "dom (v_runs (view (db w))) \<subseteq> (\<lambda>i. x_uuid_str E (uuid_src w i)) ` {n..<uuid_idx w}"
    and post: "\<And>d m. invar d \<Longrightarrow>
      (\<And>now. t \<le> now \<Longrightarrow> card (due_keys now (view d)) = card (due_keys now (view (db w))) + length xs) \<Longrightarrow>
      Q () (w\<lparr>db := d, utc_idx := m, uuid_idx := uuid_idx w + length xs\<rparr>)"
  shows "passes (for_each (\<lambda>_ _. andthen (new_scheduled_run jid t k) (\<lambda>r. unwrap_ok (on_db (op_insert_run S r)))) xs ()) Q w"
  using assms
proof (induction xs arbitrary: w)
  case Nil
  from Nil.prems(7) [of "db w" "utc_idx w"] Nil.prems(1) show ?case by (simp add: passes_def)
next
  case (Cons x xs)
  let ?key = "x_uuid_str E (uuid_src w (uuid_idx w))"
  have new: "v_runs (view (db w)) ?key = None"
  proof (rule ccontr)
    assume "v_runs (view (db w)) ?key \<noteq> None"
    then have "?key \<in> (\<lambda>i. x_uuid_str E (uuid_src w i)) ` {n..<uuid_idx w}" using Cons.prems(6) by auto
    then show False using test_env_uuid [OF Cons.prems(2)] Cons.prems(4,5) by fastforce
  qed
  show ?case
    unfolding for_each.simps passes_simps passes_env
  proof (rule pass_insert)
    show "invar (db (w\<lparr>utc_idx := Suc (utc_idx w), uuid_idx := Suc (uuid_idx w)\<rparr>))" using Cons.prems(1) by simp
    show "run_ok okt okv (job_run_new_scheduled (utc_src w (utc_idx w)) (uuid_src w (uuid_idx w)) jid t k)"
      by (rule new_run_ok [OF test_env_okt(1) [OF Cons.prems(2)] Cons.prems(3)])
    fix d
    let ?v = "w\<lparr>utc_idx := Suc (utc_idx w), uuid_idx := Suc (uuid_idx w), db := d\<rparr>"
    assume d: "invar d" "view d = view (db (w\<lparr>utc_idx := Suc (utc_idx w), uuid_idx := Suc (uuid_idx w)\<rparr>))
      \<lparr>v_runs := (v_runs (view (db (w\<lparr>utc_idx := Suc (utc_idx w), uuid_idx := Suc (uuid_idx w)\<rparr>))))
        (x_uuid_str E (r_run_id (job_run_new_scheduled (utc_src w (utc_idx w)) (uuid_src w (uuid_idx w)) jid t k)) \<mapsto>
          job_run_new_scheduled (utc_src w (utc_idx w)) (uuid_src w (uuid_idx w)) jid t k)\<rparr>"
    have one: "card (due_keys now (view d)) = Suc (card (due_keys now (view (db w))))" if "t \<le> now" for now
    proof -
      have "due_keys now (view d) = insert ?key (due_keys now (view (db w)))"
        using that new by (auto simp: d(2) due_keys_def run_due_def)
      moreover have "?key \<notin> due_keys now (view (db w))" using new by (simp add: due_keys_def)
      ultimately show ?thesis using due_keys_finite [OF Cons.prems(1)] by simp
    qed
    have dom: "dom (v_runs (view (db ?v))) \<subseteq> (\<lambda>i. x_uuid_str E (uuid_src ?v i)) ` {n..<uuid_idx ?v}"
      using Cons.prems(4,6) by (auto simp: d(2))
    have "passes (for_each (\<lambda>_ _. andthen (new_scheduled_run jid t k) (\<lambda>r. unwrap_ok (on_db (op_insert_run S r)))) xs ()) Q ?v"
    proof (rule Cons.IH [OF _ _ Cons.prems(3) _ _ dom])
      fix d' m
      assume "invar d'" and c: "\<And>now. t \<le> now \<Longrightarrow>
        card (due_keys now (view d')) = card (due_keys now (view (db ?v))) + length xs"
      then show "Q () (?v\<lparr>db := d', utc_idx := m, uuid_idx := uuid_idx ?v + length xs\<rparr>)"
        using Cons.prems(7) [of d' m] one by simp
    qed (use d(1) Cons.prems in simp_all)
    then show "passes (for_each (\<lambda>_ _. andthen (new_scheduled_run jid t k) (\<lambda>r. unwrap_ok (on_db (op_insert_run S r)))) xs ()) Q
      (w\<lparr>utc_idx := Suc (utc_idx w), uuid_idx := Suc (uuid_idx w), db := d\<rparr>)" .
  qed (use new in simp)
qed

lemma respects_batch_size_passes:
  assumes "invar (db w)" "view (db w) = empty_view" "test_env E okt (uuid_idx w) w" "okv (x_json_null E)" "okn 3"
  shows "passes (respects_batch_size E S) (\<lambda>_ _. True) w"
  unfolding respects_batch_size_def new_uuid_job_def new_job_def before_def claim_batch_def lease_manager_new_def Let_def
  apply (simp add: assms unwrap_def test_env_rules [OF assms(3)])
  apply (rule pass_upsert; simp add: assms test_job_ok schedule_ok_def test_env_rules [OF assms(3)])
  apply (rule pass_insert_loop [where n = "uuid_idx w"]; simp add: assms test_env_rules [OF assms(3)])
  apply (rule pass_claim; simp add: assms test_env_rules [OF assms(3)] due_keys_def)
  done

lemma full_lifecycle_schedule_trigger_claim_passes:
  assumes "invar (db w)" "view (db w) = empty_view" "test_env E okt (uuid_idx w) w" "okv (x_json_null E)"
  shows "passes (full_lifecycle_schedule_trigger_claim E S) (\<lambda>_ _. True) w"
  unfolding full_lifecycle_schedule_trigger_claim_def integration_job_def make_engine_def Let_def
    engine_new_def engine_config_new_def engine_schedule_def engine_trigger_def engine_get_run_def
    engine_pause_def engine_resume_def engine_get_job_def
  apply (simp add: assms)
  apply (rule pass_rules pass_found; simp add: assms new_job_ok new_run_ok unwrap_def test_env_rules [OF assms(3)])+
  done

text \<open>Every run of a job, where it has exactly one.\<close>

lemma pass_list_single:
  assumes "invar (db w)" "is_singleton (dom (v_runs (view (db w))))"
    and "r_job_id (the (v_runs (view (db w)) (the_elem (dom (v_runs (view (db w))))))) = jid"
    and "Q [the (v_runs (view (db w)) (the_elem (dom (v_runs (view (db w))))))] w"
  shows "passes (on_db (op_list_runs S (run_filter_default\<lparr>f_job_id := Some jid\<rparr>))) Q w"
proof (rule pass_list_runs [OF assms(1)])
  obtain k where "dom (v_runs (view (db w))) = {k}" using assms(2) by (auto simp: is_singleton_def)
  then obtain r where r: "v_runs (view (db w)) = [k \<mapsto> r]" by (auto simp: dom_eq_singleton_conv)
  show "f_limit (run_filter_default\<lparr>f_job_id := Some jid\<rparr>) = None" by (simp add: run_filter_default_def)
  fix rs
  assume "distinct (map r_run_id rs)"
    and "set rs = {q \<in> ran (v_runs (view (db w))). filter_matches (run_filter_default\<lparr>f_job_id := Some jid\<rparr>) q}"
  moreover have "filter_matches (run_filter_default\<lparr>f_job_id := Some jid\<rparr>) r"
    using assms(3) r by (simp add: filter_matches_def run_filter_default_def)
  ultimately have "set rs = {r}" "distinct rs" using r by (auto simp: distinct_map)
  then have "rs = [r]" by (cases rs; cases "tl rs") auto
  with assms(4) r show "Q rs w" by simp
qed

lemma interval_job_materializes_and_advances_passes:
  assumes "invar (db w)" "view (db w) = empty_view" "test_env E okt (uuid_idx w) w" "okv (x_json_null E)"
  shows "passes (interval_job_materializes_and_advances E S) (\<lambda>_ _. True) w"
proof -
  have ms: "x_td_millis E 60000 = Some (60 * nanos_per_sec)"
    by (subst near_millis [OF test_env_near [OF assms(3)]]) simp_all
  have add: "x_dt_add E (utc_src w i) (60 * nanos_per_sec) = Some (utc_src w i + 60 * nanos_per_sec)" for i
    by (rule test_env_before(2) [OF assms(3)]) (simp_all add: hour_def)
  have ok: "job_ok okt okv (leyla_job_new (x_json_null E) (utc_src w i) jid (Interval n a) (LocalHandler k))" for i jid n a k
    using test_env_rules(1) [OF assms(3)] assms(4) by (simp add: job_ok_def leyla_job_new_def schedule_ok_def executor_ok_def)
  show ?thesis
    unfolding interval_job_materializes_and_advances_def integration_job_def before_def materializer_on_def materialize_def
    apply (simp add: assms unwrap_def test_env_rules [OF assms(3)])
    apply (rule pass_upsert; simp add: assms ok test_env_rules [OF assms(3)])
    apply (rule pass_list_job_single; simp add: materialize_job_def compute_next_run_def ms add)
    apply (rule pass_insert pass_upsert; simp add: assms new_run_ok ok test_env_rules [OF assms(3)] compute_next_run_def ms add [simplified])+
    apply (rule pass_list_single; simp)
    apply (rule pass_get_job; simp add: ms add [simplified])
    done
qed

text \<open>The ticks of an engine over an empty store change nothing in it.\<close>

lemma pass_warn: "passes m (\<lambda>_. Q ()) w \<Longrightarrow> passes (warn_on_err m) Q w"
  by (auto simp: passes_def warn_on_err_def split: prod.splits outcome.splits)

lemma pass_claim_empty:
  assumes "invar (db w)" "near E t" "okt t" "okt (t + 30 * nanos_per_sec)" "okn n" "view (db w) = empty_view"
    and "\<And>d. invar d \<Longrightarrow> view d = empty_view \<Longrightarrow> Q [] (w\<lparr>db := d\<rparr>)"
  shows "passes (on_db (op_claim_due_runs S t owner n)) Q w"
  by (rule pass_claim [OF assms(1-5)]) (use assms(6,7) in \<open>simp add: due_keys_def lease_keys_def\<close>)

lemma passes_tick:
  assumes "invar (db w)" "view (db w) = empty_view" "fake_clock w = fake_clock_new t" "okn 50"
    and t: "near E t" "okt t" "okt (t + 30 * nanos_per_sec)" "okt (t - 60 * nanos_per_sec)"
    and e: "e = engine_new (engine_config_new S FakeClock i)"
    and post: "\<And>d. invar d \<Longrightarrow> view d = empty_view \<Longrightarrow> Q () (w\<lparr>db := d\<rparr>)"
  shows "passes (poll_tick E e) Q w" "passes (recovery_tick E e) Q w"
proof -
  have e: "engine_materializer e = materializer_on S" "lm_store (engine_lease_manager e) = S"
    "lm_clock (engine_lease_manager e) = FakeClock" "lm_batch_size (engine_lease_manager e) = 50"
    "engine_recovery_manager e = recovery_at S 60"
    by (simp_all add: e engine_new_def engine_config_new_def engine_materializer_def materializer_on_def
      engine_lease_manager_def lease_manager_new_def engine_recovery_manager_def recovery_at_def duration_from_millis_def)
  have same: "w\<lparr>db := db w\<rparr> = w" by simp
  show "passes (poll_tick E e) Q w"
    unfolding poll_tick_def e materialize_def materializer_on_def claim_batch_def
    apply (simp, rule pass_warn, simp add: assms(3))
    apply (rule pass_list_jobs; simp add: assms(1,2))
    apply (rule pass_warn, simp add: assms(3) e)
    apply (rule pass_claim_empty; simp add: assms(1,2,4) t [simplified] post)
    done
  show "passes (recovery_tick E e) Q w"
    unfolding recovery_tick_def e recover_def recovery_at_def
    apply (rule pass_warn, simp add: assms(3))
    apply (rule pass_stale; simp add: assms(1,2) t [simplified])
    apply (rule pass_list_runs; simp add: assms(1,2) run_filter_default_def)
    apply (rule post [where d = "db w", unfolded same, OF assms(1,2)])
    done
qed

lemma passes_ticks:
  assumes "invar (db w)" "view (db w) = empty_view" "fake_clock w = fake_clock_new t" "\<not> cancelled w" "okn 50"
    and t: "near E t" "okt t" "okt (t + 30 * nanos_per_sec)" "okt (t - 60 * nanos_per_sec)"
    and e: "e = engine_new (engine_config_new S FakeClock i)"
    and post: "\<And>d. invar d \<Longrightarrow> view d = empty_view \<Longrightarrow> Q False (w\<lparr>db := d\<rparr>)"
  shows "passes (engine_loop E e bs) Q w"
  using assms(1-4) post
proof (induction bs arbitrary: w)
  case Nil
  from Nil.prems(5) [OF Nil.prems(1,2)] show ?case by (simp add: passes_def)
next
  case (Cons b bs)
  have "passes (poll_tick E e) (\<lambda>_. passes (engine_loop E e bs) Q) w" "passes (recovery_tick E e) (\<lambda>_. passes (engine_loop E e bs) Q) w"
    by (rule passes_tick [OF Cons.prems(1-3) assms(5) t e]; rule Cons.IH; use Cons.prems in simp)+
  moreover have "passes (engine_loop E e bs) Q w" by (rule Cons.IH [OF Cons.prems])
  moreover have "passes (engine_loop E e (Shutdown # bs)) Q w = passes (engine_loop E e bs) Q w"
    using Cons.prems(4) by (simp add: passes_def)
  ultimately show ?case by (cases b) simp_all
qed

lemma engine_creates_and_stops_passes:
  assumes "invar (db w)" "view (db w) = empty_view" "test_env E okt (uuid_idx w) w" "okn 50" "\<not> cancelled w"
  shows "passes (engine_creates_and_stops checks bs E S) (\<lambda>_ _. True) w"
proof -
  have p: "e_poll_interval_ms (engine_new (engine_config_new S FakeClock i)) = 1000" for i
    by (simp add: engine_new_def engine_config_new_def)
  show ?thesis
    unfolding engine_creates_and_stops_def make_engine_def engine_start_def p
    apply (simp add: mul_u64_def p del: engine_loop.simps)
    apply (rule passes_ticks [where t = "utc_src w (utc_idx w)", OF _ _ _ _ _ _ _ _ _ refl]; simp add: assms test_env_rules [OF assms(3)] del: engine_loop.simps)
    apply (simp add: passes_def engine_stop_def andthen_def unwrap_ok_def assert_that_def)
    done
qed

end

subsection \<open>Properties\<close>

text \<open>\<open>MemoryStore::new()\<close>; and \<open>SqliteStore::open\<close> on a new file, then \<open>migrate\<close>.\<close>

definition memory_make_store :: "('j memory_store sys, 'e, unit) prog" where
  "memory_make_store w = (Ok (), w\<lparr>db := memory_store_new\<rparr>)"

definition sqlite_make_store ::
  "(db_job list \<Rightarrow> db_job list) \<Rightarrow> (db_run list \<Rightarrow> db_run list) \<Rightarrow> (db_dead list \<Rightarrow> db_dead list) \<Rightarrow>
    (sqlite_store sys, store_error, unit) prog" where
  "sqlite_make_store pj pr pd w =
    (case sqlite_open no_fault (Inr \<lparr>t_jobs = None, t_runs = None, t_dead = None\<rparr>) pj pr pd of
       Ok s \<Rightarrow> unwrap_ok (on_db (sql_migrate no_fault)) (w\<lparr>db := s\<rparr>)
     | _ \<Rightarrow> (Panic, w))"

lemma new_sqlite_store:
  assumes "sql_codec E okt okv" "\<forall>xs. mset (pj xs) = mset xs" "\<forall>xs. mset (pr xs) = mset xs" "\<forall>xs. mset (pd xs) = mset xs"
  shows "\<exists>s. sqlite_make_store pj pr pd w = (Ok (), w\<lparr>db := s\<rparr>) \<and> sql_inv E okt okv s \<and> sql_view E s = empty_view"
proof -
  let ?d = "\<lparr>t_jobs = Some [], t_runs = Some [], t_dead = Some []\<rparr>"
  let ?s = "new_mutex \<lparr>work = ?d, committed = ?d, in_txn = False, plan_jobs = pj, plan_runs = pr, plan_dead = pd\<rparr>"
  have "sqlite_make_store pj pr pd w = (Ok (), w\<lparr>db := ?s\<rparr>)"
    by (simp add: sqlite_make_store_def sqlite_open_def map_err_def sql_exec_def no_fault_simp unwrap_ok_def on_db_def
      sql_migrate_def sqlite_op_def with_lock_def andthen_def create_jobs_def create_runs_def create_index_def
      create_dead_def new_mutex_def ret_def table_of_def)
  moreover have "sql_inv E okt okv ?s"
    using assms by (simp add: sql_inv_def plans_ok_def tables_ok_def jobs_rep_def runs_rep_def dead_rep_def)
  moreover have "sql_view E ?s = empty_view" by (simp add: sql_view_def tables_view_def)
  ultimately show ?thesis by blast
qed

text \<open>
  C37: Every test of the crate that works on a memory store passes: the ones of \<open>store/memory.rs\<close>,
  \<open>scheduler/claim.rs\<close>, \<open>scheduler/recovery.rs\<close>, \<open>scheduler/due.rs\<close>, \<open>engine.rs\<close> and
  \<open>tests/integration.rs\<close>, run as programs on \<open>MemoryStore::new()\<close>, return without a panic, whatever
  the clock reads (as long as it does not run backwards and the hours around it are in chrono's
  range), whatever identifiers are drawn (as long as they do not repeat), and whatever branches of
  the engine's loop become ready before it is stopped.
\<close>
lemma memory_tests_pass:
  assumes "test_env E (\<lambda>_. True) (uuid_idx w) w" and "\<not> cancelled w"
  shows "list_all (\<lambda>test. passes (andthen memory_make_store (\<lambda>_. test E (memory_ops E))) (\<lambda>_ _. True) w)
    [upsert_and_get_job, remove_job_works, claim_due_runs, update_run_applies_patch, count_active_runs,
     list_runs_with_filter, get_stale_runs, claims_due_runs, respects_batch_size, skips_when_concurrency_forbids,
     recovers_stale_leased_run_to_scheduled, sends_exhausted_run_to_dead_letter, advances_retry_wait_to_scheduled,
     does_not_materialize_manual_jobs, materializes_once_job_when_due, does_not_materialize_disabled_jobs,
     advances_next_run_for_interval_job, schedule_and_trigger_manual_job, pause_and_resume_job, get_and_list_jobs,
     engine_creates_and_stops checks bs, full_lifecycle_schedule_trigger_claim, interval_job_materializes_and_advances]"
proof -
  let ?w = "w\<lparr>db := memory_store_new\<rparr>"
  have make: "passes memory_make_store Q w = Q () ?w" for Q
    by (simp add: passes_def memory_make_store_def)
  have "mem_inv E (db ?w)" "mem_view (db ?w) = empty_view" "test_env E (\<lambda>_. True) (uuid_idx ?w) ?w"
    using assms(1) by (simp_all add: mem_inv_new mem_view_new)
  note env = this and ok = this TrueI
  have run: "\<not> cancelled ?w" using assms(2) by simp
  show ?thesis
    by (simp add: make leyla_store.upsert_and_get_job_passes [OF mem.leyla_store_axioms ok]
        leyla_store.remove_job_works_passes [OF mem.leyla_store_axioms ok]
        leyla_store.claim_due_runs_passes [OF mem.leyla_store_axioms ok TrueI]
        leyla_store.update_run_applies_patch_passes [OF mem.leyla_store_axioms ok]
        leyla_store.count_active_runs_passes [OF mem.leyla_store_axioms ok]
        leyla_store.list_runs_with_filter_passes [OF mem.leyla_store_axioms ok]
        leyla_store.get_stale_runs_passes [OF mem.leyla_store_axioms ok]
        leyla_store.claims_due_runs_passes [OF mem.leyla_store_axioms ok TrueI]
        leyla_store.respects_batch_size_passes [OF mem.leyla_store_axioms ok TrueI]
        leyla_store.skips_when_concurrency_forbids_passes [OF mem.leyla_store_axioms ok]
        leyla_store.recovers_stale_leased_run_to_scheduled_passes [OF mem.leyla_store_axioms ok]
        leyla_store.sends_exhausted_run_to_dead_letter_passes [OF mem.leyla_store_axioms ok]
        leyla_store.advances_retry_wait_to_scheduled_passes [OF mem.leyla_store_axioms ok]
        leyla_store.does_not_materialize_manual_jobs_passes [OF mem.leyla_store_axioms ok]
        leyla_store.materializes_once_job_when_due_passes [OF mem.leyla_store_axioms ok]
        leyla_store.does_not_materialize_disabled_jobs_passes [OF mem.leyla_store_axioms ok]
        leyla_store.advances_next_run_for_interval_job_passes [OF mem.leyla_store_axioms ok]
        leyla_store.schedule_and_trigger_manual_job_passes [OF mem.leyla_store_axioms ok]
        leyla_store.pause_and_resume_job_passes [OF mem.leyla_store_axioms ok]
        leyla_store.get_and_list_jobs_passes [OF mem.leyla_store_axioms ok]
        leyla_store.engine_creates_and_stops_passes [OF mem.leyla_store_axioms env TrueI run]
        leyla_store.full_lifecycle_schedule_trigger_claim_passes [OF mem.leyla_store_axioms ok]
        leyla_store.interval_job_materializes_and_advances_passes [OF mem.leyla_store_axioms ok])
qed

text \<open>
  C38: Every test of \<open>store/sqlite.rs\<close> passes on a new database file that was opened and migrated, with
  no statement failing, whatever row order SQLite chooses: for timestamps whose text form compares
  like the times, payloads and jobs that survive printing and parsing, and room for ten bound
  parameters in a statement.
\<close>
lemma sqlite_tests_pass:
  assumes "sql_codec E okt okv" and "okv (x_json_null E)" and "sql_batch_ok E 10"
    and "\<forall>xs. mset (pj xs) = mset xs" and "\<forall>xs. mset (pr xs) = mset xs" and "\<forall>xs. mset (pd xs) = mset xs"
    and "test_env E okt (uuid_idx w) w"
  shows "list_all (\<lambda>test. passes (andthen (sqlite_make_store pj pr pd) (\<lambda>_. test E (sqlite_ops E no_fault))) (\<lambda>_ _. True) w)
    [upsert_and_get_job, list_and_remove_jobs, claim_due_runs_atomic, update_run_applies_patch, stale_runs_detected,
     count_active_runs]"
proof -
  obtain s where s: "sqlite_make_store pj pr pd w = (Ok (), w\<lparr>db := s\<rparr>)" "sql_inv E okt okv s" "sql_view E s = empty_view"
    using new_sqlite_store [OF assms(1,4-6)] by blast
  let ?w = "w\<lparr>db := s\<rparr>"
  have make: "passes (sqlite_make_store pj pr pd) Q w = Q () ?w" for Q
    by (simp add: passes_def s(1))
  have "sql_inv E okt okv (db ?w)" "sql_view E (db ?w) = empty_view" "test_env E okt (uuid_idx ?w) ?w"
    using assms(7) s(2,3) by simp_all
  note ok = this assms(2)
  show ?thesis
    by (simp add: make leyla_store.upsert_and_get_job_passes [OF sq.leyla_store_axioms ok]
        leyla_store.list_and_remove_jobs_passes [OF sq.leyla_store_axioms ok]
        leyla_store.claim_due_runs_atomic_passes [OF sq.leyla_store_axioms ok assms(3)]
        leyla_store.update_run_applies_patch_passes [OF sq.leyla_store_axioms ok]
        leyla_store.stale_runs_detected_passes [OF sq.leyla_store_axioms ok]
        leyla_store.count_active_runs_passes [OF sq.leyla_store_axioms ok])
qed

text \<open>A system clock that stands still, and identifiers drawn in order.\<close>

definition test_sys :: "'s \<Rightarrow> 's sys" where
  "test_sys d = \<lparr>db = d, utc_src = (\<lambda>_. 10 * hour), utc_idx = 0, uuid_src = (\<lambda>i. of_nat i), uuid_idx = 0,
     fake_clock = new_mutex 0, stdout = [], cancelled = False\<rparr>"

lemma sample_uuids: "inj_on (\<lambda>i. x_uuid_str sample_ext (of_nat i :: uuid)) {0..<100}"
proof (rule inj_onI)
  fix i k :: nat
  assume h: "i \<in> {0..<100}" "k \<in> {0..<100}"
    and "x_uuid_str sample_ext (of_nat i :: uuid) = x_uuid_str sample_ext (of_nat k)"
  then have "unat (of_nat i :: uuid) = unat (of_nat k :: uuid)" by (simp add: replicate_eq_replicate)
  moreover have "unat (of_nat n :: uuid) = n" if "n < 100" for n using that by (simp add: unat_of_nat)
  ultimately show "i = k" using h by simp
qed

lemma test_sys_env:
  assumes "E = sample_ext \<or> E = job_ext" and "\<And>t. 0 \<le> t \<Longrightarrow> okt t"
  shows "test_env E okt (uuid_idx (test_sys d)) (test_sys d)"
proof -
  have "near E (10 * hour)"
    using assms(1) by (auto simp: near_def sample_ext_def job_ext_def hour_def)
  moreover have "x_uuid_str E = x_uuid_str sample_ext" using assms(1) by (auto simp: job_ext_def)
  ultimately show ?thesis
    using sample_uuids assms(2) by (simp add: test_env_def test_sys_def mono_def hour_def)
qed

lemma memory_tests_pass_witness:
  "passes (andthen memory_make_store (\<lambda>_. recovers_stale_leased_run_to_scheduled sample_ext (memory_ops sample_ext)))
    (\<lambda>_ _. True) (test_sys memory_store_new)"
  using memory_tests_pass [OF test_sys_env [OF disjI1 [OF refl] TrueI], of memory_store_new True "[]"]
  by (simp add: test_sys_def)

lemma sqlite_tests_pass_witness:
  "passes (andthen (sqlite_make_store (\<lambda>xs. xs) rev (\<lambda>xs. xs)) (\<lambda>_. list_and_remove_jobs job_ext (sqlite_ops job_ext no_fault)))
    (\<lambda>_ _. True) (test_sys (sample_sqlite []))"
proof -
  have "sql_batch_ok job_ext 10" by (simp add: sql_batch_ok_def sql_max_vars_def)
  then have "list_all (\<lambda>test. passes (andthen (sqlite_make_store (\<lambda>xs. xs) rev (\<lambda>xs. xs))
      (\<lambda>_. test job_ext (sqlite_ops job_ext no_fault))) (\<lambda>_ _. True) (test_sys (sample_sqlite [])))
    [upsert_and_get_job, list_and_remove_jobs, claim_due_runs_atomic, update_run_applies_patch, stale_runs_detected,
     count_active_runs]"
    by (intro sqlite_tests_pass [OF job_codec] test_sys_env) simp_all
  then show ?thesis by simp
qed

end
