(* ===== verification/Leyla_Tasks.thy ===== *)
theory Leyla_Tasks
  imports Leyla_System
begin

section \<open>Concurrency: the engine's operations as tasks\<close>

text \<open>
  The \<open>async\<close> functions of the engine are tasks of one runtime over one store: a task is a sequence of
  atomic actions, one for every call of the store (which holds the store's mutex from its beginning to
  its end), every reading of the clock and every new identifier, and other tasks run in between. \<open>execute\<close>
  runs a task without interruption; the tasks below are shown to be the operations of the other
  theories when they are not interrupted. \<open>conc\<close> is the step relation of a pool of tasks.
\<close>

subsection \<open>Tasks\<close>

datatype ('w, 'e, 'a) task =
    Done "('e, 'a) outcome"
  | Act "'w \<Rightarrow> 'w" "'w \<Rightarrow> ('w, 'e, 'a) task"

primrec execute :: "('w, 'e, 'a) task \<Rightarrow> ('w, 'e, 'a) prog" where
  "execute (Done r) = (\<lambda>w. (r, w))"
| "execute (Act f k) = (\<lambda>w. execute (k w) (f w))"

text \<open>One atomic action: a program that is not interrupted.\<close>

definition atomic :: "('w, 'e, 'a) prog \<Rightarrow> ('w, 'e, 'a) task" where
  "atomic m = Act (\<lambda>w. snd (m w)) (\<lambda>w. Done (fst (m w)))"

primrec bind :: "('w, 'e, 'a) task \<Rightarrow> ('a \<Rightarrow> ('w, 'e, 'b) task) \<Rightarrow> ('w, 'e, 'b) task" where
  "bind (Done r) g = (case r of Ok x \<Rightarrow> g x | Err e \<Rightarrow> Done (Err e) | Panic \<Rightarrow> Done Panic)"
| "bind (Act f k) g = Act f (\<lambda>w. bind (k w) g)"

fun each :: "('x \<Rightarrow> 'a \<Rightarrow> ('w, 'e, 'a) task) \<Rightarrow> 'x list \<Rightarrow> 'a \<Rightarrow> ('w, 'e, 'a) task" where
  "each f [] a = Done (Ok a)"
| "each f (x # xs) a = bind (f x a) (each f xs)"

text \<open>\<open>warn_on_err\<close> on a task.\<close>

primrec warned :: "('w, 'e, 'a) task \<Rightarrow> ('w, 'e2, unit) task" where
  "warned (Done r) = Done (case r of Panic \<Rightarrow> Panic | _ \<Rightarrow> Ok ())"
| "warned (Act f k) = Act f (\<lambda>w. warned (k w))"

lemma execute_atomic [simp]: "execute (atomic m) = m"
  by (simp add: atomic_def fun_eq_iff)

lemma execute_bind [simp]: "execute (bind t g) = andthen (execute t) (\<lambda>x. execute (g x))"
  by (induction t) (auto simp: andthen_def fun_eq_iff split: outcome.splits)

lemma execute_each [simp]: "execute (each f xs a) = for_each (\<lambda>x a. execute (f x a)) xs a"
proof (induction xs arbitrary: a)
  case Nil
  show ?case by (simp add: fun_eq_iff)
next
  case (Cons x xs)
  show ?case by (simp add: Cons.IH)
qed

lemma execute_warned [simp]: "execute (warned t) = warn_on_err (execute t)"
  by (induction t) (auto simp: warn_on_err_def fun_eq_iff split: outcome.splits)

subsection \<open>The operations\<close>

definition materialize_job_task ::
  "'j ext \<Rightarrow> ('s, 'j) store_ops \<Rightarrow> time \<Rightarrow> 'j leyla_job \<Rightarrow> nat \<Rightarrow> ('s sys, store_error, nat) task" where
  "materialize_job_task E S now job cnt =
    (if \<not> j_enabled job then Done (Ok cnt)
     else if j_schedule job = Manual then Done (Ok cnt)
     else case j_next_run_at job of
       None \<Rightarrow> Done (Ok cnt)
     | Some next_run_at \<Rightarrow>
         (if now < next_run_at then Done (Ok cnt)
          else
            bind (atomic (new_scheduled_run (j_id job) next_run_at (rp_max_attempts (j_retry job)))) (\<lambda>run.
            bind (atomic (on_db (op_insert_run S run))) (\<lambda>_.
            bind (Done (compute_next_run E (j_schedule job) now)) (\<lambda>nxt.
            bind (atomic (on_db (op_upsert_job S
              (job\<lparr>j_next_run_at := nxt, j_last_run_at := Some now, j_updated_at := now\<rparr>)))) (\<lambda>_.
            Done (Ok (cnt + 1))))))))"

definition materialize_task :: "'j ext \<Rightarrow> ('s, 'j) due_run_materializer \<Rightarrow> ('s sys, store_error, nat) task" where
  "materialize_task E m =
    bind (atomic (clock_now (dm_clock m))) (\<lambda>now.
    bind (atomic (on_db (op_list_jobs (dm_store m)))) (\<lambda>jobs.
    each (materialize_job_task E (dm_store m) now) jobs 0))"

definition claim_batch_task :: "('s, 'j) lease_manager \<Rightarrow> ('s sys, store_error, 'j job_run list) task" where
  "claim_batch_task m = bind (atomic (clock_now (lm_clock m))) (\<lambda>now.
    atomic (on_db (op_claim_due_runs (lm_store m) now (lm_instance_id m) (unat (lm_batch_size m)))))"

definition recover_stale_run_task ::
  "'j ext \<Rightarrow> ('s, 'j) store_ops \<Rightarrow> time \<Rightarrow> 'j job_run \<Rightarrow> nat \<Rightarrow> ('s sys, store_error, nat) task" where
  "recover_stale_run_task E S now run n =
    (let run_id = x_uuid_str E (r_run_id run);
         exhausted = r_max_attempts run \<le> r_attempt run
     in if r_status run = Running \<and> can_transition (r_status run) Orphaned then
          bind (atomic (store_update_run S run_id (status_patch Orphaned))) (\<lambda>_.
          bind (if exhausted then atomic (store_update_run S run_id (status_patch DeadLetter))
                else atomic (store_update_run S run_id (status_patch Scheduled))) (\<lambda>_.
          Done (Ok (n + 1))))
        else if r_status run = Leased then
          (if exhausted then
             bind (atomic (store_update_run S run_id (release_patch now))) (\<lambda>_. Done (Ok (n + 1)))
           else
             bind (atomic (store_update_run S run_id (release_patch now))) (\<lambda>_. Done (Ok (n + 1))))
        else Done (Ok n))"

definition recover_retry_run_task ::
  "'j ext \<Rightarrow> ('s, 'j) store_ops \<Rightarrow> time \<Rightarrow> 'j job_run \<Rightarrow> nat \<Rightarrow> ('s sys, store_error, nat) task" where
  "recover_retry_run_task E S now run n =
    (if can_transition (r_status run) Scheduled then
       bind (Done (case r_finished_at run of
            Some fa \<Rightarrow> (case x_dt_add E fa nanos_per_sec of Some t \<Rightarrow> Ok (t \<le> now) | None \<Rightarrow> Panic)
          | None \<Rightarrow> Ok True)) (\<lambda>ready.
       if \<not> ready then Done (Ok n)
       else bind (atomic (store_update_run S (x_uuid_str E (r_run_id run)) (status_patch Scheduled))) (\<lambda>_.
         Done (Ok (n + 1))))
     else Done (Ok n))"

definition recover_task :: "'j ext \<Rightarrow> ('s, 'j) recovery_manager \<Rightarrow> ('s sys, store_error, nat) task" where
  "recover_task E m =
    bind (atomic (clock_now (rm_clock m))) (\<lambda>now.
    bind (atomic (on_db (op_get_stale_runs (rm_store m) now (rm_stale_threshold m)))) (\<lambda>stale_runs.
    bind (each (recover_stale_run_task E (rm_store m) now) stale_runs 0) (\<lambda>n.
    bind (atomic (on_db (op_list_runs (rm_store m) (run_filter_default\<lparr>f_status := Some RetryWait\<rparr>)))) (\<lambda>retry_runs.
    each (recover_retry_run_task E (rm_store m) now) retry_runs n))))"

definition poll_task :: "'j ext \<Rightarrow> ('s, 'j) engine \<Rightarrow> ('s sys, store_error, unit) task" where
  "poll_task E e =
    bind (warned (materialize_task E (engine_materializer e))) (\<lambda>_.
    warned (claim_batch_task (engine_lease_manager e)))"

definition recovery_task :: "'j ext \<Rightarrow> ('s, 'j) engine \<Rightarrow> ('s sys, store_error, unit) task" where
  "recovery_task E e = warned (recover_task E (engine_recovery_manager e))"

fun loop_task :: "'j ext \<Rightarrow> ('s, 'j) engine \<Rightarrow> branch list \<Rightarrow> ('s sys, store_error, bool) task" where
  "loop_task E e [] = Done (Ok False)"
| "loop_task E e (Shutdown # bs) = Act (\<lambda>w. w) (\<lambda>w. if cancelled w then Done (Ok True) else loop_task E e bs)"
| "loop_task E e (PollTick # bs) = bind (poll_task E e) (\<lambda>_. loop_task E e bs)"
| "loop_task E e (RecoveryTick # bs) = bind (recovery_task E e) (\<lambda>_. loop_task E e bs)"

definition enable_task :: "('s, 'j) engine \<Rightarrow> bool \<Rightarrow> string \<Rightarrow> ('s sys, store_error, unit) task" where
  "enable_task e b job_id = bind (atomic (on_db (op_get_job (e_store e) job_id))) (\<lambda>job.
    atomic (on_db (op_upsert_job (e_store e) (job\<lparr>j_enabled := b\<rparr>))))"

definition trigger_task ::
  "'j ext \<Rightarrow> ('s, 'j) engine \<Rightarrow> string \<Rightarrow> 'j option \<Rightarrow> ('s sys, store_error, string) task" where
  "trigger_task E e job_id input =
    bind (atomic (on_db (op_get_job (e_store e) job_id))) (\<lambda>job.
    bind (atomic (clock_now (e_clock e))) (\<lambda>now.
    bind (atomic (new_scheduled_run (j_id job) now (rp_max_attempts (j_retry job)))) (\<lambda>run.
    let run = run\<lparr>r_input_json := input\<rparr>;
        run_id = x_uuid_str E (r_run_id run)
    in bind (atomic (on_db (op_insert_run (e_store e) run))) (\<lambda>_. Done (Ok run_id)))))"

text \<open>Without interruption a task is the operation.\<close>

lemma execute_Done: "execute (Done r) = lift_outcome r"
  by (simp add: fun_eq_iff)

lemma lift_ret: "lift_outcome (Ok x) = ret x"
  by (simp add: fun_eq_iff)

lemmas execute_more = execute_Done lift_ret

declare execute.simps(1) [simp del] bind.simps [simp del]

lemma materialize_job_execute [simp]: "execute (materialize_job_task E S now j n) = materialize_job E S now j n"
  by (cases "j_next_run_at j") (simp_all add: materialize_job_task_def materialize_job_def execute_more)

lemma materialize_execute [simp]: "execute (materialize_task E m) = materialize E m"
  by (simp add: materialize_task_def materialize_def)

lemma claim_batch_execute [simp]: "execute (claim_batch_task m) = claim_batch m"
  by (simp add: claim_batch_task_def claim_batch_def)

lemma recover_stale_run_execute [simp]: "execute (recover_stale_run_task E S now r n) = recover_stale_run E S now r n"
  by (simp add: recover_stale_run_task_def recover_stale_run_def Let_def execute_more)

lemma recover_retry_run_execute [simp]: "execute (recover_retry_run_task E S now r n) = recover_retry_run E S now r n"
  by (simp add: recover_retry_run_task_def recover_retry_run_def if_distrib [of execute] execute_more cong: if_cong)

lemma recover_execute [simp]: "execute (recover_task E m) = recover E m"
  by (simp add: recover_task_def recover_def)

lemma poll_execute [simp]: "execute (poll_task E e) = poll_tick E e"
  by (simp add: poll_task_def poll_tick_def)

lemma recovery_execute [simp]: "execute (recovery_task E e) = recovery_tick E e"
  by (simp add: recovery_task_def recovery_tick_def)

lemma loop_execute: "execute (loop_task E e bs) = engine_loop E e bs"
proof (induction bs)
  case (Cons b bs)
  show ?case
  proof (cases b)
    case Shutdown
    then show ?thesis by (simp add: fun_eq_iff Cons.IH execute_more if_distrib [of execute] split: if_splits)
  qed (simp_all add: Cons.IH)
qed (simp add: execute_more)

lemma enable_execute:
  "execute (enable_task e False k) = engine_pause e k" "execute (enable_task e True k) = engine_resume e k"
  by (simp_all add: enable_task_def engine_pause_def engine_resume_def)

lemma trigger_execute: "execute (trigger_task E e k inp) = engine_trigger E e k inp"
  by (simp add: trigger_task_def engine_trigger_def Let_def execute_more)

subsection \<open>A pool of tasks\<close>

text \<open>The tasks of the program: its result is not looked at by the pool.\<close>

definition done_with :: "('w, 'e, 'a) task \<Rightarrow> ('w, 'e, unit) task" where
  "done_with t = bind t (\<lambda>_. Done (Ok ()))"

inductive program_task :: "'j ext \<Rightarrow> ('s, 'j) engine \<Rightarrow> ('s sys, store_error, unit) task \<Rightarrow> bool" for E e where
  loop: "program_task E e (done_with (loop_task E e bs))"
| stop: "program_task E e (atomic engine_stop)"
| schedule: "program_task E e (atomic (engine_schedule e job))"
| unschedule: "program_task E e (atomic (engine_unschedule e jid))"
| enable: "program_task E e (enable_task e b jid)"
| trigger: "program_task E e (done_with (trigger_task E e jid input))"
| get_job: "program_task E e (done_with (atomic (engine_get_job e jid)))"
| list_jobs: "program_task E e (done_with (atomic (engine_list_jobs e)))"
| get_run: "program_task E e (done_with (atomic (engine_get_run e rid)))"
| list_runs: "program_task E e (done_with (atomic (engine_list_runs e f)))"

text \<open>
  A step of the pool is one action of one of its tasks, a task that is spawned, or a movement of the
  fake clock. \<open>es\<close> are the engines that run on the store.
\<close>

type_synonym 's pool = "('s sys, store_error, unit) task list"

inductive conc :: "'j ext \<Rightarrow> ('s, 'j) engine set \<Rightarrow> 's sys \<times> 's pool \<Rightarrow> 's sys \<times> 's pool \<Rightarrow> bool" for E es where
  act: "i < length p \<Longrightarrow> p ! i = Act f k \<Longrightarrow> conc E es (w, p) (f w, p[i := k w])"
| spawn: "e \<in> es \<Longrightarrow> program_task E e t \<Longrightarrow> conc E es (w, p) (w, p @ [t])"
| clock_set: "conc E es (w, p) (w\<lparr>fake_clock := snd (fake_clock_set t (fake_clock w) :: (store_error, unit) outcome \<times> _)\<rparr>, p)"
| clock_advance: "conc E es (w, p)
    (w\<lparr>fake_clock := snd (fake_clock_advance E delta (fake_clock w) :: (store_error, unit) outcome \<times> _)\<rparr>, p)"

inductive conc_star :: "'j ext \<Rightarrow> ('s, 'j) engine set \<Rightarrow> 's sys \<times> 's pool \<Rightarrow> 's sys \<times> 's pool \<Rightarrow> bool" for E es where
  refl: "conc_star E es c c"
| step: "conc_star E es c c' \<Longrightarrow> conc E es c' c'' \<Longrightarrow> conc_star E es c c''"

lemma conc_star_trans [trans]: "conc_star E es c c' \<Longrightarrow> conc_star E es c' c'' \<Longrightarrow> conc_star E es c c''"
  by (rotate_tac 1, induction rule: conc_star.induct) (auto intro: conc_star.intros)

text \<open>
  A schedule of a pool: steps of its tasks only, in any order. No task is spawned and the clock is not moved.
\<close>

inductive scheduled :: "'s sys \<times> 's pool \<Rightarrow> 's sys \<times> 's pool \<Rightarrow> bool" where
  sched_refl: "scheduled c c"
| sched_act: "scheduled c (w, p) \<Longrightarrow> i < length p \<Longrightarrow> p ! i = Act f k \<Longrightarrow> scheduled c (f w, p[i := k w])"

lemma scheduled_trans [trans]: "scheduled c c' \<Longrightarrow> scheduled c' c'' \<Longrightarrow> scheduled c c''"
  by (rotate_tac 1, induction rule: scheduled.induct) (auto intro: scheduled.intros)

lemma scheduled_conc: "scheduled c c' \<Longrightarrow> conc_star E es c c'"
  by (induction rule: scheduled.induct) (auto intro: conc_star.intros conc.act)

text \<open>A task of the pool may run a part of it, or all of it, without interruption.\<close>

lemma conc_execute:
  assumes "i < length p" "execute t w = (r, w')"
  shows "conc_star E es (w, p[i := bind t g]) (w', p[i := bind (Done r) g])"
  using assms(2)
proof (induction t arbitrary: w)
  case (Done r')
  then show ?case by (simp add: execute_Done conc_star.refl)
next
  case (Act f k)
  have "conc E es (w, p[i := bind (Act f k) g]) (f w, (p[i := bind (Act f k) g])[i := bind (k w) g])"
    using assms(1) by (intro conc.act) (simp_all add: bind.simps)
  then have "conc_star E es (w, p[i := bind (Act f k) g]) (f w, p[i := bind (k w) g])"
    using conc_star.step [OF conc_star.refl] by simp
  moreover have "conc_star E es (f w, p[i := bind (k w) g]) (w', p[i := bind (Done r) g])"
    by (rule Act.IH) (use Act.prems in auto)
  ultimately show ?case by (rule conc_star_trans)
qed

subsection \<open>Tasks that keep an invariant at every action\<close>

inductive keeps_task :: "('w \<Rightarrow> bool) \<Rightarrow> ('a \<Rightarrow> bool) \<Rightarrow> ('w, 'e, 'a) task \<Rightarrow> bool" for I Q where
  "(\<And>x. r = Ok x \<Longrightarrow> Q x) \<Longrightarrow> keeps_task I Q (Done r)"
| "(\<And>w. I w \<Longrightarrow> I (f w)) \<Longrightarrow> (\<And>w. I w \<Longrightarrow> keeps_task I Q (k w)) \<Longrightarrow> keeps_task I Q (Act f k)"

inductive_simps keeps_task_simps: "keeps_task I Q (Done r)" "keeps_task I Q (Act f k)"

lemma keeps_bind:
  assumes "keeps_task I Q t" "\<And>x. Q x \<Longrightarrow> keeps_task I R (g x)"
  shows "keeps_task I R (bind t g)"
  using assms(1)
proof (induction rule: keeps_task.induct)
  case (1 r)
  then show ?case using assms(2) by (cases r) (auto simp: bind.simps keeps_task_simps)
next
  case (2 f k)
  then show ?case by (auto simp: bind.simps keeps_task_simps)
qed

lemmas keeps_then = keeps_bind [where Q = "\<lambda>_. True", simplified]

lemma keeps_atomic_post: "triple I m (\<lambda>x w. I w \<and> Q x) I \<Longrightarrow> keeps_task I Q (atomic m)"
  unfolding atomic_def keeps_task_simps
proof (intro conjI allI impI)
  fix w
  assume t: "triple I m (\<lambda>x w. I w \<and> Q x) I" and w: "I w"
  obtain r w' where m: "m w = (r, w')" by force
  show "I (snd (m w))" using t w m unfolding triple_def by (cases r) force+
  show "Q x" if "fst (m w) = Ok x" for x using t w m that unfolding triple_def by force
qed

lemma keeps_atomic: "preserves I m \<Longrightarrow> keeps_task I (\<lambda>_. True) (atomic m)"
  unfolding atomic_def keeps_task_simps by (auto dest: preservesD)

lemma keeps_warned: "keeps_task I (\<lambda>_. True) t \<Longrightarrow> keeps_task I (\<lambda>_. True) (warned t)"
  by (induction rule: keeps_task.induct) (auto simp: keeps_task_simps)

lemma keeps_each:
  assumes "\<And>x a. x \<in> set xs \<Longrightarrow> keeps_task I (\<lambda>_. True) (f x a)"
  shows "keeps_task I (\<lambda>_. True) (each f xs a)"
  using assms
proof (induction xs arbitrary: a)
  case (Cons x xs)
  then show ?case by (auto intro!: keeps_bind)
qed (simp add: keeps_task_simps)

lemma keeps_Done: "keeps_task I (\<lambda>_. True) (Done r)"
  by (simp add: keeps_task_simps)

text \<open>What every task of the program keeps, every interleaving of them keeps.\<close>

lemma conc_invariant:
  assumes "conc_star E es c c'" "J (fst c)" "\<forall>t\<in>set (snd c). keeps_task J (\<lambda>_. True) t"
    and prog: "\<And>e t. e \<in> es \<Longrightarrow> program_task E e t \<Longrightarrow> keeps_task J (\<lambda>_. True) t"
    and clock: "\<And>w m. J w \<Longrightarrow> J (w\<lparr>fake_clock := m\<rparr>)"
  shows "J (fst c') \<and> (\<forall>t\<in>set (snd c'). keeps_task J (\<lambda>_. True) t)"
  using assms(1-3)
proof (induction rule: conc_star.induct)
  case (step c c' c'')
  then have J: "J (fst c')" and p: "\<forall>t\<in>set (snd c'). keeps_task J (\<lambda>_. True) t" by simp_all
  from step.hyps(2) show ?case
  proof cases
    case (act i p f k w)
    then have "keeps_task J (\<lambda>_. True) (Act f k)" using p nth_mem [of i p] by auto
    then have "J (f w)" "keeps_task J (\<lambda>_. True) (k w)" using J act(1) by (auto simp: keeps_task_simps)
    then show ?thesis using p act by (auto dest!: set_update_subset_insert [THEN subsetD])
  qed (use J p prog clock in auto)
qed simp

context run_keeper
begin

lemma materialize_job_task_keeps: "keeps_task held (\<lambda>_. True) (materialize_job_task E S now j n)"
  unfolding materialize_job_task_def
  by (auto intro!: keeps_Done keeps_bind [OF keeps_atomic_post [OF new_run_post]] keeps_then [OF keeps_atomic]
      keeps_then [OF keeps_Done] keeps_insert on_db_keeps keeps_upsert split: option.splits)

lemma poll_task_keeps:
  assumes "e_store e = S"
  shows "keeps_task held (\<lambda>_. True) (poll_task E e)"
  unfolding poll_task_def materialize_task_def claim_batch_task_def
  by (intro keeps_then [OF keeps_warned] keeps_warned keeps_then [OF keeps_atomic] keeps_each keeps_atomic preserves_clock)
    (simp_all add: engine_materializer_def engine_lease_manager_def lease_manager_new_def assms on_db_keeps store_keeps
      materialize_job_task_keeps)

lemma recover_task_keeps:
  assumes "rm_store m = S"
  shows "keeps_task held (\<lambda>_. True) (recover_task E m)"
proof -
  have stale: "keeps_task held (\<lambda>_. True) (recover_stale_run_task E S now r n)" if "G r" for now r n
    unfolding recover_stale_run_task_def Let_def
    by (auto intro!: keeps_then [OF keeps_atomic] keeps_then keeps_atomic keeps_Done update_keeps
        may_schedule may_release simp: may_orphan [OF that])
  have retry: "keeps_task held (\<lambda>_. True) (recover_retry_run_task E S now r n)" for now r n
    unfolding recover_retry_run_task_def
    by (auto intro!: keeps_then [OF keeps_Done] keeps_then [OF keeps_atomic] keeps_Done update_keeps may_schedule)
  show ?thesis
    unfolding recover_task_def assms
    by (intro keeps_then [OF keeps_atomic] preserves_clock keeps_bind [OF keeps_atomic_post [OF triple_on_db [OF keeps_stale]]]
        keeps_then [OF keeps_each] keeps_each stale retry on_db_keeps store_keeps) auto
qed

lemma loop_task_keeps: "e_store e = S \<Longrightarrow> keeps_task held (\<lambda>_. True) (loop_task E e bs)"
proof (induction bs)
  case (Cons b bs)
  have "keeps_task held (\<lambda>_. True) (recovery_task E e)"
    unfolding recovery_task_def
    by (rule keeps_warned [OF recover_task_keeps]) (simp add: engine_recovery_manager_def Cons.prems)
  then show ?case
    using Cons poll_task_keeps [OF Cons.prems]
    by (cases b) (auto simp: keeps_task_simps intro!: keeps_then keeps_Done)
qed (simp add: keeps_Done)

lemma program_task_keeps: "program_task E e t \<Longrightarrow> e_store e = S \<Longrightarrow> keeps_task held (\<lambda>_. True) t"
proof (induction rule: program_task.induct)
  case (enable b jid)
  then show ?case unfolding enable_task_def by (intro keeps_then [OF keeps_atomic] keeps_atomic on_db_keeps) (simp_all add: store_keeps)
next
  case (trigger jid input)
  then show ?case
    unfolding done_with_def trigger_task_def Let_def
    by (intro keeps_then [OF keeps_then [OF keeps_atomic]] keeps_then [OF keeps_atomic] preserves_clock
        keeps_bind [OF keeps_atomic_post [OF new_run_post]] keeps_Done)
      (simp_all add: on_db_keeps store_keeps insert_keeps fresh_input)
next
  case stop
  show ?case by (intro keeps_atomic) (simp add: preserves_def engine_stop_def)
qed (auto simp: done_with_def intro!: keeps_then [OF keeps_atomic] keeps_then [OF loop_task_keeps] keeps_atomic keeps_Done
    methods_keep)

lemma conc_keeps:
  assumes "conc_star E es (w, []) (w', p)" "\<forall>e\<in>es. e_store e = S" "held w"
  shows "held w'"
  using conc_invariant [OF assms(1), of held] program_task_keeps assms(2,3) by auto

end

end
