(* ===== verification/Concurrent_Runs.thy ===== *)
theory Concurrent_Runs
  imports Run_Invariants Interleavings Leyla_Tasks
begin

section \<open>What the concurrent tasks of the program can and cannot do\<close>

text \<open>
  The invariants of \<open>Run_Invariants\<close> hold at every moment of every interleaving of the program's tasks;
  but two engines on one store can give one due time two runs.
\<close>

subsection \<open>Schedules\<close>

text \<open>A task may run from \<open>t\<close> in state \<open>w\<close> to \<open>t'\<close> in state \<open>w'\<close> without interruption.\<close>

inductive proceeds :: "('w, 'e, 'a) task \<Rightarrow> 'w \<Rightarrow> ('w, 'e, 'a) task \<Rightarrow> 'w \<Rightarrow> bool" where
  runs_refl: "proceeds t w t w"
| runs_act: "proceeds (k w) (f w) t' w' \<Longrightarrow> proceeds (Act f k) w t' w'"

lemma runs_trans: "proceeds t w t' w' \<Longrightarrow> proceeds t' w' t'' w'' \<Longrightarrow> proceeds t w t'' w''"
  by (induction rule: proceeds.induct) (auto intro: proceeds.intros)

lemma runs_bind: "proceeds t w t' w' \<Longrightarrow> proceeds (bind t g) w (bind t' g) w'"
  by (induction rule: proceeds.induct) (auto simp: bind.simps intro: proceeds.intros)

lemma runs_warned: "proceeds t w t' w' \<Longrightarrow> proceeds (warned t) w (warned t') w'"
  by (induction rule: proceeds.induct) (auto intro: proceeds.intros)

lemma runs_execute: "execute t w = (r, w') \<Longrightarrow> proceeds t w (Done r) w'"
proof (induction t arbitrary: w)
  case (Done r')
  then show ?case by (simp add: execute.simps(1) runs_refl)
qed (auto intro: runs_act)

lemma runs_atomic: "m w = (Ok x, w') \<Longrightarrow> proceeds (bind (atomic m) g) w (g x) w'"
  using runs_bind [OF runs_execute [of "atomic m" w "Ok x" w'], of g] by (simp add: bind.simps)

lemma runs_scheduled:
  assumes "proceeds t w t' w'" "i < length p" "p ! i = t"
  shows "scheduled (w, p) (w', p[i := t'])"
  using assms
proof (induction arbitrary: p rule: proceeds.induct)
  case (runs_refl t w)
  then have "p[i := t] = p" using list_update_id [of p i] by simp
  then show ?case by (simp add: sched_refl)
next
  case (runs_act k w f t' w')
  have "scheduled (w, p) (f w, p[i := k w])" using runs_act.prems by (rule sched_act [OF sched_refl])
  also have "scheduled (f w, p[i := k w]) (w', (p[i := k w])[i := t'])"
    using runs_act.prems by (intro runs_act.IH) simp_all
  finally show ?case by simp
qed

text \<open>Two tasks take turns: each runs for a while, as far as the other one has let it.\<close>

lemma runs_first: "proceeds t w t' w' \<Longrightarrow> scheduled (w, [t, u]) (w', [t', u])"
  using runs_scheduled [of t w t' w' 0 "[t, u]"] by simp

lemma runs_second: "proceeds u w u' w' \<Longrightarrow> scheduled (w, [t, u]) (w', [t, u'])"
  using runs_scheduled [of u w u' w' 1 "[t, u]"] by simp

text \<open>A pool may spawn a task and run it to its end.\<close>

lemma conc_one:
  assumes "e \<in> es" "program_task E e t"
  shows "conc_star E es (w, []) (snd (execute t w), [Done (fst (execute t w))])"
proof -
  have "conc E es (w, []) (w, [] @ [t])" by (rule conc.spawn [OF assms])
  then have "conc_star E es (w, []) (w, [t])" using conc_star.step [OF conc_star.refl] by simp
  also have "conc_star E es (w, [t]) (snd (execute t w), [t][0 := Done (fst (execute t w))])"
    by (intro scheduled_conc runs_scheduled [OF runs_execute]) simp_all
  finally show ?thesis by simp
qed

context leyla_store
begin

text \<open>An engine on a store with one job, which is due: it has listed the job, then it has run it.\<close>

definition listed_task :: "('s, 'j) engine \<Rightarrow> time \<Rightarrow> 'j leyla_job \<Rightarrow> ('s sys, store_error, unit) task" where
  "listed_task e now j = done_with (bind (bind (warned (each (materialize_job_task E S now) [j] 0))
     (\<lambda>_. warned (claim_batch_task (engine_lease_manager e)))) (\<lambda>_. loop_task E e []))"

lemma poll_lists:
  assumes "invar (db w)" "e_store e = S" "e_clock e = FakeClock" "\<not> poisoned (fake_clock w)"
    and "v_jobs (view (db w)) = [k \<mapsto> j]"
  shows "proceeds (done_with (loop_task E e [PollTick])) w (listed_task e (guarded (fake_clock w)) j) w"
proof -
  obtain js where js: "op_list_jobs S (db w) = (Ok js, db w)" "distinct (map j_id js)" "set js = {j}"
    using list_jobs_law [OF assms(1)] assms(5) by auto
  then have "js = [j]" by (cases js; cases "tl js") auto
  with js(1) have list: "on_db (op_list_jobs S) w = (Ok [j], w)" by (simp add: on_db_def)
  have clock: "clock_now FakeClock w = ((Ok (guarded (fake_clock w)) :: (store_error, time) outcome), w)"
    using assms(4) by (cases w; cases "fake_clock w") (simp add: clock_now_def fake_clock_now_def with_lock_def)
  have "proceeds (materialize_task E (engine_materializer e)) w (each (materialize_job_task E S (guarded (fake_clock w))) [j] 0) w"
    unfolding materialize_task_def engine_materializer_def due_run_materializer.select_convs assms(2,3)
    by (rule runs_trans, rule runs_atomic, rule clock, rule runs_atomic, rule list)
  then show ?thesis
    unfolding listed_task_def done_with_def loop_task.simps poll_task_def by (intro runs_bind runs_warned)
qed

text \<open>What is left of the tick when the job was materialised: the claim.\<close>

definition claim_rest :: "('s, 'j) engine \<Rightarrow> ('s sys, store_error, unit) task" where
  "claim_rest e = done_with (bind (warned (claim_batch_task (engine_lease_manager e))) (\<lambda>_. loop_task E e []))"

lemma listed_runs:
  assumes "materialize_job E S now j 0 w = (Ok n, w')"
  shows "proceeds (listed_task e now j) w (claim_rest e) w'"
proof -
  have "execute (each (materialize_job_task E S now) [j] 0) w = (Ok n, w')"
    using assms by (simp add: andthen_def execute_Done)
  then have "proceeds (listed_task e now j) w (done_with (bind (bind (warned (Done (Ok n) :: ('s sys, store_error, nat) task))
      (\<lambda>_. warned (claim_batch_task (engine_lease_manager e)))) (\<lambda>_. loop_task E e []))) w'"
    unfolding listed_task_def done_with_def by (intro runs_bind runs_warned runs_execute)
  then show ?thesis by (simp add: claim_rest_def bind.simps)
qed

lemma claim_rest_ends:
  assumes "claim_batch (engine_lease_manager e) w = (Ok rs, w')"
  shows "proceeds (claim_rest e) w (Done (Ok ())) w'"
proof (rule runs_execute)
  show "execute (claim_rest e) w = (Ok (), w')"
    using assms by (simp add: claim_rest_def done_with_def andthen_def warn_on_err_def execute_Done)
qed

text \<open>A claim at a fixed time keeps which job and which time every run is for.\<close>

lemma claim_keeps_times:
  assumes "invar (db w)" "okt (guarded (fake_clock w))" "\<not> poisoned (fake_clock w)"
    and e: "e_store e = S" "e_clock e = FakeClock" "okn (unat (e_claim_batch_size e))"
    and lend: "x_dt_add E (guarded (fake_clock w)) (30 * nanos_per_sec) = Some lend" "okt lend"
  shows "\<exists>rs d. claim_batch (engine_lease_manager e) w = (Ok rs, w\<lparr>db := d\<rparr>) \<and> invar d \<and>
    (\<forall>k r. v_runs (view (db w)) k = Some r \<longrightarrow> (\<exists>r'. v_runs (view d) k = Some r' \<and>
      r_job_id r' = r_job_id r \<and> r_scheduled_for r' = r_scheduled_for r))"
proof -
  let ?m = "engine_lease_manager e" and ?now = "guarded (fake_clock w)"
  have m: "lm_store ?m = S" "okn (unat (lm_batch_size ?m))" "lm_clock ?m = FakeClock"
    using e by (simp_all add: engine_lease_manager_def lease_manager_new_def)
  have clock: "clock_now (lm_clock ?m) w = ((Ok ?now :: (store_error, time) outcome), w)"
    using assms(3) by (cases w; cases "fake_clock w") (simp add: m(3) clock_now_def fake_clock_now_def with_lock_def)
  obtain rs ks d where c: "claim_batch ?m w = (Ok rs, w\<lparr>db := d\<rparr>)" "invar d"
      "view d = lease_keys ?now (lm_instance_id ?m) lend (set ks) (view (db w))"
    using claim_batch_effect [OF assms(1) m(1) assms(2) m(2) clock lend] by blast
  have "\<exists>r'. v_runs (view d) k = Some r' \<and> r_job_id r' = r_job_id r \<and> r_scheduled_for r' = r_scheduled_for r"
    if "v_runs (view (db w)) k = Some r" for k r
    using that by (simp add: c(3) lease_run_def)
  with c(1,2) show ?thesis by blast
qed

text \<open>Two engines list the job before either of them has advanced it; both ticks run to their end.\<close>

lemma two_engines_two_runs:
  assumes "invar (db w)" "utc_ok okt w" "okt (guarded (fake_clock w))" "\<not> poisoned (fake_clock w)"
    and e: "e_store e = S" "e_clock e = FakeClock" "okn (unat (e_claim_batch_size e))"
    and e': "e_store e' = S" "e_clock e' = FakeClock" "okn (unat (e_claim_batch_size e'))"
    and job: "v_jobs (view (db w)) = [k \<mapsto> j]" "job_due (guarded (fake_clock w)) j" "advances E okt (guarded (fake_clock w)) j"
    and due: "j_next_run_at j = Some t"
    and fresh: "distinct (drawn_keys E w 2)" "set (drawn_keys E w 2) \<inter> dom (v_runs (view (db w))) = {}"
    and lend: "x_dt_add E (guarded (fake_clock w)) (30 * nanos_per_sec) = Some lend" "okt lend"
  shows "\<exists>w' k1 k2 r1 r2. scheduled (w, [done_with (loop_task E e [PollTick]), done_with (loop_task E e' [PollTick])])
      (w', [Done (Ok ()), Done (Ok ())]) \<and> k1 \<noteq> k2 \<and>
    v_runs (view (db w)) k1 = None \<and> v_runs (view (db w)) k2 = None \<and>
    v_runs (view (db w')) k1 = Some r1 \<and> v_runs (view (db w')) k2 = Some r2 \<and>
    r_job_id r1 = k \<and> r_job_id r2 = k \<and> r_scheduled_for r1 = t \<and> r_scheduled_for r2 = t"
proof -
  let ?now = "guarded (fake_clock w)"
  let ?k1 = "x_uuid_str E (uuid_src w (uuid_idx w))" and ?k2 = "x_uuid_str E (uuid_src w (Suc (uuid_idx w)))"
  have keys: "?k1 \<noteq> ?k2" "v_runs (view (db w)) ?k1 = None" "v_runs (view (db w)) ?k2 = None"
    using fresh by (auto simp: numeral_2_eq_2 drawn_keys_Suc)
  have st: "v_jobs (view (db w)) k = Some j" by (simp add: job(1))
  have jk: "j_id j = k" "job_ok okt okv j" by (rule view_job_key [OF assms(1) st], rule view_job_ok [OF assms(1) st])
  obtain d1 where d1: "materialize_job E S ?now j 0 w = (Ok (0 + 1), draw 1 w\<lparr>db := d1\<rparr>)" "invar d1"
      "view d1 = materialized E ?now w [j] (view (db w))"
    using materialize_job_listed [OF assms(1-3) job(2,3) jk(2) keys(2)] by blast
  let ?w1 = "draw 1 w\<lparr>db := d1\<rparr>"
  have pre: "invar (db ?w1)" "utc_ok okt ?w1"
      "v_runs (view (db ?w1)) (x_uuid_str E (uuid_src ?w1 (uuid_idx ?w1))) = None"
    using d1(2) assms(2) keys by (simp_all add: utc_ok_def d1(3) materialized_def)
  obtain d2 where d2: "materialize_job E S ?now j 0 ?w1 = (Ok (0 + 1), draw 1 ?w1\<lparr>db := d2\<rparr>)" "invar d2"
      "view d2 = materialized E ?now ?w1 [j] (view (db ?w1))"
    using materialize_job_listed [OF pre(1,2) assms(3) job(2,3) jk(2) pre(3)] by blast
  let ?w2 = "draw 1 ?w1\<lparr>db := d2\<rparr>"
  have runs: "v_runs (view (db ?w2)) ?k1 = Some (new_run w j)" "v_runs (view (db ?w2)) ?k2 = Some (new_run ?w1 j)"
    using keys(1) by (simp_all add: d2(3) d1(3) materialized_def)
  obtain rs3 d3 where d3: "claim_batch (engine_lease_manager e) ?w2 = (Ok rs3, ?w2\<lparr>db := d3\<rparr>)" "invar d3"
      "\<forall>k r. v_runs (view (db ?w2)) k = Some r \<longrightarrow> (\<exists>r'. v_runs (view d3) k = Some r' \<and>
        r_job_id r' = r_job_id r \<and> r_scheduled_for r' = r_scheduled_for r)"
    using claim_keeps_times [of ?w2 e lend] d2(2) assms(3,4) e lend by auto
  let ?w3 = "?w2\<lparr>db := d3\<rparr>"
  obtain rs4 d4 where d4: "claim_batch (engine_lease_manager e') ?w3 = (Ok rs4, ?w3\<lparr>db := d4\<rparr>)" "invar d4"
      "\<forall>k r. v_runs (view (db ?w3)) k = Some r \<longrightarrow> (\<exists>r'. v_runs (view d4) k = Some r' \<and>
        r_job_id r' = r_job_id r \<and> r_scheduled_for r' = r_scheduled_for r)"
    using claim_keeps_times [of ?w3 e' lend] d3(2) assms(3,4) e' lend by auto
  let ?w4 = "?w3\<lparr>db := d4\<rparr>" and ?T = "\<lambda>e. done_with (loop_task E e [PollTick])"
  have "scheduled (w, [?T e, ?T e']) (w, [listed_task e ?now j, ?T e'])"
    by (rule runs_first [OF poll_lists [OF assms(1) e(1,2) assms(4) job(1)]])
  also have "scheduled (w, [listed_task e ?now j, ?T e']) (w, [listed_task e ?now j, listed_task e' ?now j])"
    by (rule runs_second [OF poll_lists [OF assms(1) e'(1,2) assms(4) job(1)]])
  also have "scheduled (w, [listed_task e ?now j, listed_task e' ?now j]) (?w1, [claim_rest e, listed_task e' ?now j])"
    by (rule runs_first [OF listed_runs [OF d1(1)]])
  also have "scheduled (?w1, [claim_rest e, listed_task e' ?now j]) (?w2, [claim_rest e, claim_rest e'])"
    by (rule runs_second [OF listed_runs [OF d2(1)]])
  also have "scheduled (?w2, [claim_rest e, claim_rest e']) (?w3, [Done (Ok ()), claim_rest e'])"
    by (rule runs_first [OF claim_rest_ends [OF d3(1)]])
  also have "scheduled (?w3, [Done (Ok ()), claim_rest e']) (?w4, [Done (Ok ()), Done (Ok ())])"
    by (rule runs_second [OF claim_rest_ends [OF d4(1)]])
  finally have "scheduled (w, [?T e, ?T e']) (?w4, [Done (Ok ()), Done (Ok ())])" .
  moreover have "r_job_id (new_run v j) = k" "r_scheduled_for (new_run v j) = t" for v :: "'s sys"
    using jk(1) due by (simp_all add: new_run_def job_run_new_scheduled_def)
  then have "\<exists>r. v_runs (view d4) k' = Some r \<and> r_job_id r = k \<and> r_scheduled_for r = t" if "k' \<in> {?k1, ?k2}" for k'
    using that runs d3(3) d4(3) by fastforce
  then obtain r1 r2 where "v_runs (view d4) ?k1 = Some r1" "r_job_id r1 = k" "r_scheduled_for r1 = t"
      "v_runs (view d4) ?k2 = Some r2" "r_job_id r2 = k" "r_scheduled_for r2 = t" by blast
  ultimately show ?thesis
    using keys by (intro exI [of _ ?w4] exI [of _ ?k1] exI [of _ ?k2] exI [of _ r1] exI [of _ r2]) simp
qed

end

subsection \<open>The invariants, at every moment of every interleaving\<close>

context table_invariant
begin

lemma conc_kept:
  assumes "conc_star E es (w, []) (w', p)" "\<forall>e\<in>es. \<exists>flt. e_store e = sqlite_ops E flt" "kept T (guarded (db w))"
  shows "kept T (guarded (db w'))"
  using conc_invariant [OF assms(1), of "\<lambda>w. kept T (guarded (db w))"] program_task_keeps assms(2,3) by fastforce

end

subsection \<open>Properties\<close>

text \<open>
  The tasks are the operations: executed without interruption, the task of the engine's loop is
  the loop, and the tasks of \<open>materialize\<close>, \<open>claim_batch\<close>, \<open>recover\<close>, \<open>pause\<close>, \<open>resume\<close> and \<open>trigger\<close> are
  these methods, with the same outcome and the same state from every state.
\<close>
lemma tasks_are_operations:
  "execute (loop_task E e bs) = engine_loop E e bs \<and> execute (poll_task E e) = poll_tick E e \<and>
    execute (recovery_task E e) = recovery_tick E e \<and> execute (materialize_task E m) = materialize E m \<and>
    execute (claim_batch_task l) = claim_batch l \<and> execute (recover_task E r) = recover E r \<and>
    execute (enable_task e False k) = engine_pause e k \<and> execute (enable_task e True k) = engine_resume e k \<and>
    execute (trigger_task E e k inp) = engine_trigger E e k inp"
  by (simp add: loop_execute enable_execute trigger_execute)

text \<open>
  C16: In no interleaving of any number of engines and of calls of their methods over the SQLite store,
  action by action, with any statements failing at any action, is a run ever marked as dispatched,
  running or finished, or given a second attempt: a run is scheduled, leased or cancelled.
\<close>
lemma concurrent_runs_never_start:
  assumes "conc_star E es (w, []) (w', p)" and "\<forall>e\<in>es. \<exists>flt. e_store e = sqlite_ops E flt"
    and "\<forall>st. x_status_parse E ([CHR 0x22] @ status_to_str st @ [CHR 0x22]) = Inr st"
    and "kept early_tables (guarded (db w))"
  shows "early_tables (committed (guarded (db w'))) \<and> early_tables (work (guarded (db w')))"
  using table_invariant.conc_kept [OF early_invariant [OF assms(3)] assms(1,2,4)] by (simp add: kept_def)

lemma concurrent_runs_never_start_witness:
  "early_tables (committed (guarded (db (snd (execute (done_with (loop_task sample_ext (sample_engine (sqlite_ops sample_ext
     (\<lambda>i. if i = 2 then Some (Rolled_Back 0 ''disk I/O error'') else None))) [PollTick, RecoveryTick]))
     (sample_sys (sample_sqlite [sample_run 1 Scheduled 3])))))))"
proof (rule conjunct1 [OF concurrent_runs_never_start [OF conc_one [OF singletonI program_task.loop] _ _]])
  show "\<forall>st. x_status_parse sample_ext ([CHR 0x22] @ status_to_str st @ [CHR 0x22]) = Inr st"
    by (simp only: sample_status_parse) simp
qed (auto simp: engine_new_def engine_config_new_def sample_sys_def sample_sqlite_def Let_def kept_def plan_delivers_def
    early_tables_def early_row_def run_to_row_def sample_run_fields)

text \<open>
  C15: No interleaving of any number of engines and of calls of their methods over the memory store loses
  a run, or changes its id, job, scheduled time, input, attempt limit or creation time.
\<close>
lemma concurrent_runs_never_lost:
  assumes "conc_star E es (w, []) (w', p)" and "\<forall>e\<in>es. e_store e = memory_ops E"
    and "map_of (runs (guarded (db w))) k = Some r0"
  shows "\<exists>r. map_of (runs (guarded (db w'))) k = Some r \<and> same_run r0 r"
proof -
  have "inner_has k r0 (guarded (db w))" by (simp add: assms(3) inner_has_def same_run_def)
  from run_keeper.conc_keeps [OF mem_has.run_keeper_axioms assms(1,2) this] show ?thesis by (simp add: inner_has_def)
qed

lemma concurrent_runs_never_lost_witness:
  "\<exists>r. map_of (runs (guarded (db (snd (execute (done_with (loop_task sample_ext (sample_engine (memory_ops sample_ext))
     [RecoveryTick, PollTick])) (sample_sys (sample_runs [sample_run 1 Scheduled 3]))))))) ''u'' = Some r \<and>
     same_run (sample_run 1 Scheduled 3) r"
  by (rule concurrent_runs_never_lost [OF conc_one [OF singletonI program_task.loop]])
    (simp_all add: engine_new_def engine_config_new_def sample_sys_def sample_runs_def sample_run_fields)

text \<open>
  C9: Two engines on one memory store, whatever their instance ids, each make one poll, and nothing else
  happens: there is an order of their actions in which both polls succeed and leave two runs of the one due
  job for the one time \<open>t\<close> at which it was due. Each engine has listed the job before the other one has
  advanced it.
\<close>
lemma engines_duplicate_run:
  assumes "mem_inv E (db w)" "\<not> poisoned (fake_clock w)"
    and "e_store e = memory_ops E" "e_clock e = FakeClock" "e_store e' = memory_ops E" "e_clock e' = FakeClock"
    and "v_jobs (mem_view (db w)) = [k \<mapsto> j]" "job_due (guarded (fake_clock w)) j" "j_next_run_at j = Some t"
    and "advances E (\<lambda>_. True) (guarded (fake_clock w)) j"
    and "distinct (drawn_keys E w 2)" "set (drawn_keys E w 2) \<inter> dom (v_runs (mem_view (db w))) = {}"
    and "x_dt_add E (guarded (fake_clock w)) (30 * nanos_per_sec) = Some lend"
  shows "\<exists>w' k1 k2 r1 r2. scheduled (w, [done_with (loop_task E e [PollTick]), done_with (loop_task E e' [PollTick])])
      (w', [Done (Ok ()), Done (Ok ())]) \<and> k1 \<noteq> k2 \<and>
    v_runs (mem_view (db w)) k1 = None \<and> v_runs (mem_view (db w)) k2 = None \<and>
    v_runs (mem_view (db w')) k1 = Some r1 \<and> v_runs (mem_view (db w')) k2 = Some r2 \<and>
    r_job_id r1 = k \<and> r_job_id r2 = k \<and> r_scheduled_for r1 = t \<and> r_scheduled_for r2 = t"
  by (rule leyla_store.two_engines_two_runs [OF mem.leyla_store_axioms assms(1) utc_ok_True TrueI assms(2-4) TrueI
      assms(5,6) TrueI assms(7,8,10,9,11-13) TrueI])

lemma engines_duplicate_run_witness:
  "\<exists>w' k1 k2 r1 r2. scheduled (sample_sys (sample_jobs [sample_listed]),
      [done_with (loop_task sample_ext (engine_new (engine_config_new (memory_ops sample_ext) FakeClock ''i'')) [PollTick]),
       done_with (loop_task sample_ext (engine_new (engine_config_new (memory_ops sample_ext) FakeClock ''j'')) [PollTick])])
      (w', [Done (Ok ()), Done (Ok ())]) \<and>
    k1 \<noteq> k2 \<and> v_runs (mem_view (db w')) k1 = Some r1 \<and> v_runs (mem_view (db w')) k2 = Some r2 \<and>
    r_job_id r1 = ''a'' \<and> r_job_id r2 = ''a'' \<and> r_scheduled_for r1 = the (j_next_run_at sample_listed) \<and>
    r_scheduled_for r2 = the (j_next_run_at sample_listed)"
proof -
  let ?w = "sample_sys (sample_jobs [sample_listed])"
  let ?e = "\<lambda>i. engine_new (engine_config_new (memory_ops sample_ext) FakeClock i)"
  have fc: "\<not> poisoned (fake_clock ?w)" "guarded (fake_clock ?w) = 1000"
    by (simp_all add: sample_sys_def fake_clock_new_def)
  have e: "e_store (?e i) = memory_ops sample_ext" "e_clock (?e i) = FakeClock" for i
    by (simp_all add: engine_new_def engine_config_new_def)
  have fresh: "distinct (drawn_keys sample_ext ?w 2)" "set (drawn_keys sample_ext ?w 2) \<inter> dom (v_runs (mem_view (db ?w))) = {}"
    by (simp add: drawn_keys_def numeral_2_eq_2 sample_sys_def) (simp add: sample_listed_job(5))
  have due: "j_next_run_at sample_listed = Some (the (j_next_run_at sample_listed))" by (simp add: sample_job_fields)
  have lend: "x_dt_add sample_ext (guarded (fake_clock ?w)) (30 * nanos_per_sec) = Some (1000 + 30 * nanos_per_sec)"
    unfolding fc(2) by (simp add: sample_ext_def)
  from engines_duplicate_run [OF sample_listed_job(3) fc(1) e e sample_listed_job(4)
      sample_listed_job(1) [folded fc(2)] due sample_listed_job(2) [folded fc(2)] fresh lend] show ?thesis by blast
qed

end
