(* ===== verification/Spec2Isabelle.thy ===== *)
theory Spec2Isabelle
  imports Lifecycle Retry_Policy Dispatch_Policies Memory_Store Recovery Leyla_Engine Executors
    Cli_Commands Cli_Daemon Sqlite_Faults Sqlite_Clients Leyla_Main Leyla_System Sqlite_Keeper Run_Invariants
    Claim_Progress Interleavings Unit_Tests Store_Tests Sample_Codec Scheduler_Tests
    Leyla_Tasks Concurrent_Runs
begin

text \<open>
  A model of Leyla, a durable job scheduler in Rust (src/crates), and of what makes it correct.

  \<^bold>\<open>The program.\<close> A job (\<open>leyla_job\<close>) has a schedule, an executor and policies. An engine
  (\<open>engine.rs\<close>) ticks: at each poll the materializer (\<open>scheduler/due.rs\<close>) turns due jobs into runs
  (\<open>job_run\<close>), and the lease manager (\<open>scheduler/claim.rs\<close>) claims due runs for 30 seconds; every
  five polls' time the recovery manager (\<open>scheduler/recovery.rs\<close>) takes back runs whose lease has expired.
  All of it works on a store behind the trait \<open>LeylaStore\<close>, of which there are two: in memory and in
  SQLite. The command line (\<open>leyla-cli\<close>) opens the SQLite store and edits jobs and runs, prints
  reports and controls a daemon process. Executors (\<open>leyla-executors\<close>) turn the work of a run into a
  result; nothing in the program calls them.

  \<^bold>\<open>Conventions.\<close> An operation is a function from a state to an outcome (\<open>Ok\<close>, \<open>Err\<close> or \<open>Panic\<close>) and
  the state it leaves (\<open>prog\<close> in \<open>Leyla_Prelude\<close>), so every \<open>?\<close>, early return and panic is a branch
  and keeps the effects that came before it. \<open>sys\<close> (\<open>Leyla_Clock\<close>) is the state of a process: the
  store, the readings of the system clock and of the generator of ids as infinite sequences, the
  fake clock and what was printed. Integers have their width (\<open>u32\<close>, \<open>u64\<close>, \<open>i64\<close> as words); times
  are integers in nanoseconds; text is a list of bytes, so a character outside ASCII is several
  elements (\<open>Utf8_Text\<close>). A mutex is its content and whether it is poisoned.

  \<^bold>\<open>The theories\<close>, with the files under src/crates they model:
  \<^item> \<open>Leyla_Prelude\<close>: outcomes, programs, triples and preservation, mutexes, hash maps as lists.
  \<^item> \<open>Leyla_Types\<close>: types.rs, and the parameters \<open>ext\<close>. \<open>Lifecycle\<close>: lifecycle.rs; the status graph,
    its cycles and its bounds. \<open>Leyla_Clock\<close>: clock.rs.
  \<^item> \<open>Retry_Policy\<close>: policies/retry.rs with its 64-bit arithmetic and rounding. \<open>Dispatch_Policies\<close>:
    policies/misfire.rs and policies/concurrency.rs.
  \<^item> \<open>Leyla_Store\<close>: store/mod.rs; the trait as a record of operations (\<open>store_ops\<close>), and as the locale
    \<open>leyla_store\<close>: the laws of the operations on an abstract view (maps of jobs and runs, the dead
    letters) under an invariant. Every client is proved against these laws once.
  \<^item> \<open>Memory_Store\<close>: store/memory.rs and its interpretation of the locale. \<open>Sqlite_Store\<close>:
    store/sqlite.rs; \<open>Sqlite_Laws\<close>: its interpretation of the locale, when no statement fails;
    \<open>Sqlite_Faults\<close>: what happens when statements fail; \<open>Sqlite_Clients\<close>: the agreement of the two
    stores, and clients over SQLite.
  \<^item> \<open>Due_Runs\<close>: scheduler/due.rs. \<open>Lease_Claim\<close>: scheduler/claim.rs. \<open>Recovery\<close>: scheduler/recovery.rs.
    \<open>Leyla_Engine\<close>: engine.rs.
  \<^item> \<open>Utf8_Text\<close>, \<open>Executors\<close>: the crate leyla-executors. \<open>Cli_Output\<close>: output.rs. \<open>Cli_Commands\<close>:
    commands/job.rs, run.rs, recover.rs. \<open>Cli_Daemon\<close>: commands/daemon.rs, doctor.rs, over the record
    \<open>os\<close> of files and system calls. \<open>Leyla_Main\<close>: main.rs.
  \<^item> \<open>Leyla_System\<close>: the step relation of the whole program, every tick, method, command and clock
    movement in any order, and the locale \<open>run_keeper\<close> of what a store promises about its runs.
    \<open>Sqlite_Keeper\<close>: the locale \<open>table_invariant\<close>, which gives a \<open>run_keeper\<close> for any faults.
    \<open>Run_Invariants\<close>: the interpretations, and the invariants of the reachable states.
  \<^item> \<open>Claim_Progress\<close>: enough polls drain the due runs. \<open>Interleavings\<close>: operations whose store calls
    interleave, and the updates that are lost.
  \<^item> \<open>Leyla_Tasks\<close>: the engine's loop and methods as tasks, sequences of atomic actions between which
    other tasks run, and the step relation \<open>conc\<close> of a pool of tasks. \<open>Concurrent_Runs\<close>: the invariants in
    every interleaving, and a schedule of two engines that gives one due time two runs.
  \<^item> \<open>Unit_Tests\<close>, \<open>Store_Tests\<close>, \<open>Scheduler_Tests\<close>: the tests of the repository, as predicates and
    as programs over the model; \<open>Sample_Codec\<close>: a concrete serialisation of jobs.

  \<^bold>\<open>What the lemmas show.\<close>
  \<^item> Stores: both satisfy the same laws; in all thirteen operations they answer alike, up to the order
    of lists, and hold the same; keys are unique; rows are decoded to the run they encode. Under any
    faults an update commits all or nothing, and so does a claim, but for a rollback during its SELECT,
    after which its updates are committed one by one while it reports an error. After some
    errors a transaction stays open, which blocks the store.
  \<^item> Scheduler: the effect of a materialization, a claim and a recovery on the abstract contents,
    for every job and run; no two claims share a run; recovery is the same over a store that refuses every update that is not
    an edge of the life cycle (\<open>with_check\<close>), so it never leaves it.
  \<^item> Engine: a poll tick refines materialize then claim, on either clock; its loop runs the ticks one after the
    other whatever errors they return (\<open>ticks_run\<close>) and ends only by cancellation or panic.
  \<^item> System: no operation loses a run, and none ever starts one; polling drains what is due; which
    interleavings lose an update; a schedule of two engines' ticks (\<open>scheduled\<close>) that makes two runs
    of one due time.
  \<^item> Policies and text: closed forms, bounds, monotonicity, overflow; clipping and decoding of output.
  \<^item> Command line: the effect of every command and its errors; the file that a command leaves; the
    daemon's PID file.
  \<^item> Tests: every test that is not excepted below passes on the model, for every reading of the clock, every
    choice of identifiers and every order of rows; so the definitions agree with what the authors
    of the code expect of it.

  \<^bold>\<open>Parameters.\<close> Code that is not under src/ is an argument. The record \<open>ext\<close> has chrono, uuid, cron,
  serde_json; \<open>cli_ext\<close> what the command line formats with them. Its assumptions, where a theorem needs
  them, are hypotheses: \<open>chrono_exact\<close>; \<open>sql_codec\<close>, that text is read back and that the text of times
  orders as the times do, for the times \<open>okt\<close> and the JSON values \<open>okv\<close>; and \<open>sample_ext\<close>, and \<open>job_ext\<close>
  with a code for whole jobs, show that they can hold. The SQL statements of the source are functions on the tables; of the engine that runs
  them the model has a fault per statement (\<open>sql_fault\<close>, any function of the number of the statement)
  and the order of rows without ORDER BY (any permutation, or in \<open>plan_delivers\<close> any selection). What
  the operating system answers is a field of \<open>os\<close>.

  \<^bold>\<open>Bounds and fuel.\<close> Nothing runs on fuel. The engine's loop is recursion over the list of the
  branches that become ready, which is any list; the daemon's loop is a partial function to \<open>option\<close>,
  \<open>None\<close> for not returning. SQLite's LIMIT is cast to 64 bits (\<open>sql_limit\<close>) and the numbers
  of a statement's parameters are bounded (\<open>sql_max_vars\<close>, at least the 17 of \<open>insert_run\<close>), as in the
  source and its library; only the read-back of a claim, one parameter per run, can exceed the bound.

  \<^bold>\<open>Not modelled.\<close> The parsing of arguments by clap, the set-up of tracing and its messages, module
  declarations. Of the tests: the JSON round trips of the schedules and of the statuses, which test the
  implementations serde derives. Processes that share a
  database file: a connection belongs to one process here. Concurrency inside a process is that of the
  pool of tasks; an operation of a store is one action, as it holds the store's mutex throughout. The
  commands of the command line run in processes of their own, and are steps of \<open>sys_step\<close> as a whole.
\<close>

end
